(* ===== verification/Prelude.thy ===== *)
theory Prelude
  imports Main "HOL-Library.Word"
begin

text \<open>
  Shared vocabulary of the development: the widths of the machine integers, the lemma
  collections, and the generic facts about lists and words that the components use.

  \<^item> A Go \<open>int64\<close> and a Postgres \<open>BIGINT\<close> are both 64-bit words; \<open>sint\<close> reads the signed value.
  \<^item> A Go \<open>string\<close> is a list of bytes (\<open>char list\<close>).
  \<^item> \<open>(T, error)\<close> results are values of \<open>go_error + 'a\<close> (theory \<open>Errs\<close>).
\<close>

section \<open>Lemma collections\<close>

named_theorems errs_simps "what errors.Is, errors.As and Error() give on each error constructor"
named_theorems valid_simps "when a Validate method accepts a request"
named_theorems frame_simps "what an operation leaves unchanged"

section \<open>64-bit integers\<close>

type_synonym int64 = "64 word"

text \<open>The range test that Postgres applies to the result of a \<open>BIGINT\<close> addition.\<close>

definition fits64 :: "int \<Rightarrow> bool" where
  "fits64 x \<longleftrightarrow> - (2 ^ 63) \<le> x \<and> x < 2 ^ 63"

lemma fits64_sint [simp]: "fits64 (sint (a :: int64))"
  using sint_range_size [of a] by (simp add: fits64_def word_size)

lemma signed_take_bit_fits: "fits64 x \<Longrightarrow> signed_take_bit 63 x = x"
  by (rule signed_take_bit_int_eq_self) (simp_all add: fits64_def)

lemma sint_add_fits: "fits64 (sint a + sint b) \<Longrightarrow> sint (a + b :: int64) = sint a + sint b"
  by (simp add: sint_word_add signed_take_bit_fits)

lemma sint_uminus_pos: "0 < sint a \<Longrightarrow> sint (- a :: int64) = - sint a"
proof -
  assume "0 < sint a"
  with fits64_sint [of a] have "fits64 (- sint a)" by (simp add: fits64_def)
  then show ?thesis by (simp add: sint_word_minus signed_take_bit_fits)
qed

lemma word_eq_0_iff_sint: "(a :: int64) = 0 \<longleftrightarrow> sint a = 0"
  by (metis signed_0 signed_word_eqI)

section \<open>Lists\<close>

lemma find_Some_filter: "List.find P xs = Some x \<Longrightarrow> P x \<and> x \<in> set xs"
  by (auto simp: find_Some_iff)

lemma find_None_filter: "List.find P xs = None \<longleftrightarrow> filter P xs = []"
  by (auto simp: find_None_iff filter_empty_conv)

lemma list_ex_key: "list_ex (\<lambda>a. k a = v) xs \<longleftrightarrow> v \<in> k ` set xs"
  by (auto simp: list_ex_iff image_iff)

lemma find_append:
  "List.find P (xs @ ys) = (case List.find P xs of None \<Rightarrow> List.find P ys | Some x \<Rightarrow> Some x)"
  by (induction xs) auto

lemma find_cong_on: "(\<And>x. x \<in> set xs \<Longrightarrow> P x = Q x) \<Longrightarrow> List.find P xs = List.find Q xs"
  by (induction xs) auto

lemma find_distinct_key:
  "distinct (map k xs) \<Longrightarrow> x \<in> set xs \<Longrightarrow> List.find (\<lambda>y. k y = k x) xs = Some x"
  by (induction xs) auto

text \<open>
  The two shapes of a row update: every row that satisfies a guard is rewritten, the
  others stay.
\<close>

definition update_where :: "('r \<Rightarrow> bool) \<Rightarrow> ('r \<Rightarrow> 'r) \<Rightarrow> 'r list \<Rightarrow> 'r list" where
  "update_where P f rows = map (\<lambda>r. if P r then f r else r) rows"

lemma update_where_Nil [simp]: "update_where P f [] = []"
  by (simp add: update_where_def)

lemma update_where_Cons [simp]:
  "update_where P f (r # rows) = (if P r then f r else r) # update_where P f rows"
  by (simp add: update_where_def)

lemma length_update_where [simp]: "length (update_where P f rows) = length rows"
  by (simp add: update_where_def)

lemma set_update_where: "set (update_where P f rows) = (\<lambda>r. if P r then f r else r) ` set rows"
  by (simp add: update_where_def)

lemma map_update_where [simp]:
  "(\<And>r. k (f r) = k r) \<Longrightarrow> map k (update_where P f rows) = map k rows"
  by (induction rows) auto

lemma update_where_none: "(\<And>r. r \<in> set rows \<Longrightarrow> \<not> P r) \<Longrightarrow> update_where P f rows = rows"
  by (induction rows) auto

lemma find_update_where:
  "(\<And>r. Q (f r) = Q r) \<Longrightarrow>
   List.find Q (update_where P f rows) = map_option (\<lambda>r. if P r then f r else r) (List.find Q rows)"
  by (induction rows) auto

end
