(* ===== verification/Errs.thy ===== *)
theory Errs
  imports Prelude
begin

text \<open>
  The error values of the program (\<open>pkg/errs/errors.go\<close>) and the part of Go's \<open>errors\<close> and
  \<open>fmt\<close> packages it uses: the sentinels, the validation error, the message wrapper, and
  \<open>fmt.Errorf\<close> with one or two \<open>%w\<close> verbs. An error is a finite tree of wrappers;
  \<open>errors.Is\<close> and \<open>errors.As\<close> walk it, \<open>Error()\<close> renders it. The leaves are the sentinels, the
  errors made by \<open>errors.New\<close> or \<open>fmt.Errorf\<close> without a wrapped error, and the errors the
  database driver returns.
\<close>

section \<open>Error values\<close>

datatype sentinel =
    ErrNotFound
  | ErrAlreadyExists
  | ErrDuplicateRef
  | ErrInsufficientBalance
  | ErrUnauthorized
  | ErrForbidden
  | ErrInvalidArgument
  | ErrInternal

fun sentinel_text :: "sentinel \<Rightarrow> string" where
  "sentinel_text ErrNotFound = ''not found''"
| "sentinel_text ErrAlreadyExists = ''already exists''"
| "sentinel_text ErrDuplicateRef = ''duplicate ref''"
| "sentinel_text ErrInsufficientBalance = ''insufficient balance''"
| "sentinel_text ErrUnauthorized = ''unauthorized''"
| "sentinel_text ErrForbidden = ''forbidden''"
| "sentinel_text ErrInvalidArgument = ''invalid argument''"
| "sentinel_text ErrInternal = ''internal error''"

text \<open>
  \<open>PgError code text\<close> is \<open>*pgconn.PgError\<close> with its SQLSTATE, \<open>SqlNoRows\<close> is \<open>sql.ErrNoRows\<close>,
  \<open>Plain\<close> an error that wraps nothing. \<open>Wrapped p e\<close> is \<open>fmt.Errorf("p: %w", e)\<close>;
  \<open>Wrapped2 p e m f\<close> is \<open>fmt.Errorf("p: %w (m: %w)", e, f)\<close>.
\<close>

datatype go_error =
    Sentinel sentinel
  | ValidationError "string list"
  | MessageError go_error string
  | Wrapped string go_error
  | Wrapped2 string go_error string go_error
  | PgError string string
  | SqlNoRows
  | Plain string

text \<open>\<open>strings.Join\<close>\<close>

fun strings_Join :: "string list \<Rightarrow> string \<Rightarrow> string" where
  "strings_Join [] sep = []"
| "strings_Join [s] sep = s"
| "strings_Join (s # t # ss) sep = s @ sep @ strings_Join (t # ss) sep"

primrec go_Error :: "go_error \<Rightarrow> string" where
  "go_Error (Sentinel s) = sentinel_text s"
| "go_Error (ValidationError reasons) = ''validation failed: '' @ strings_Join reasons ''; ''"
| "go_Error (MessageError e msg) = msg"
| "go_Error (Wrapped p e) = p @ '': '' @ go_Error e"
| "go_Error (Wrapped2 p e m f) = p @ '': '' @ go_Error e @ '' ('' @ m @ '': '' @ go_Error f @ '')''"
| "go_Error (PgError code text) = text"
| "go_Error SqlNoRows = ''sql: no rows in result set''"
| "go_Error (Plain text) = text"

text \<open>\<open>errors.Is(err, sentinel)\<close>: a validation error unwraps to \<open>ErrInvalidArgument\<close>.\<close>

primrec errors_Is :: "go_error \<Rightarrow> sentinel \<Rightarrow> bool" where
  "errors_Is (Sentinel s) t \<longleftrightarrow> s = t"
| "errors_Is (ValidationError reasons) t \<longleftrightarrow> t = ErrInvalidArgument"
| "errors_Is (MessageError e msg) t \<longleftrightarrow> errors_Is e t"
| "errors_Is (Wrapped p e) t \<longleftrightarrow> errors_Is e t"
| "errors_Is (Wrapped2 p e m f) t \<longleftrightarrow> errors_Is e t \<or> errors_Is f t"
| "errors_Is (PgError code text) t \<longleftrightarrow> False"
| "errors_Is SqlNoRows t \<longleftrightarrow> False"
| "errors_Is (Plain text) t \<longleftrightarrow> False"

text \<open>\<open>errors.Is(err, sql.ErrNoRows)\<close>\<close>

primrec errors_Is_NoRows :: "go_error \<Rightarrow> bool" where
  "errors_Is_NoRows (Sentinel s) \<longleftrightarrow> False"
| "errors_Is_NoRows (ValidationError reasons) \<longleftrightarrow> False"
| "errors_Is_NoRows (MessageError e msg) \<longleftrightarrow> errors_Is_NoRows e"
| "errors_Is_NoRows (Wrapped p e) \<longleftrightarrow> errors_Is_NoRows e"
| "errors_Is_NoRows (Wrapped2 p e m f) \<longleftrightarrow> errors_Is_NoRows e \<or> errors_Is_NoRows f"
| "errors_Is_NoRows (PgError code text) \<longleftrightarrow> False"
| "errors_Is_NoRows SqlNoRows \<longleftrightarrow> True"
| "errors_Is_NoRows (Plain text) \<longleftrightarrow> False"

text \<open>\<open>errors.As\<close> with a \<open>*ValidationError\<close> target: the first one in a pre-order walk.\<close>

primrec errors_As_Validation :: "go_error \<Rightarrow> string list option" where
  "errors_As_Validation (Sentinel s) = None"
| "errors_As_Validation (ValidationError reasons) = Some reasons"
| "errors_As_Validation (MessageError e msg) = errors_As_Validation e"
| "errors_As_Validation (Wrapped p e) = errors_As_Validation e"
| "errors_As_Validation (Wrapped2 p e m f) =
     (case errors_As_Validation e of Some r \<Rightarrow> Some r | None \<Rightarrow> errors_As_Validation f)"
| "errors_As_Validation (PgError code text) = None"
| "errors_As_Validation SqlNoRows = None"
| "errors_As_Validation (Plain text) = None"

text \<open>\<open>errors.As\<close> with a \<open>*pgconn.PgError\<close> target: the SQLSTATE of the first one.\<close>

primrec errors_As_Pg :: "go_error \<Rightarrow> string option" where
  "errors_As_Pg (Sentinel s) = None"
| "errors_As_Pg (ValidationError reasons) = None"
| "errors_As_Pg (MessageError e msg) = errors_As_Pg e"
| "errors_As_Pg (Wrapped p e) = errors_As_Pg e"
| "errors_As_Pg (Wrapped2 p e m f) =
     (case errors_As_Pg e of Some c \<Rightarrow> Some c | None \<Rightarrow> errors_As_Pg f)"
| "errors_As_Pg (PgError code text) = Some code"
| "errors_As_Pg SqlNoRows = None"
| "errors_As_Pg (Plain text) = None"

section \<open>Constructors used by the program\<close>

text \<open>\<open>NewValidationError\<close> returns nil (\<open>None\<close>) when there are no reasons.\<close>

definition NewValidationError :: "string list \<Rightarrow> go_error option" where
  "NewValidationError reasons = (if reasons = [] then None else Some (ValidationError reasons))"

definition WithMessage :: "sentinel \<Rightarrow> string \<Rightarrow> go_error" where
  "WithMessage s msg = MessageError (Sentinel s) msg"

section \<open>Facts\<close>

declare errors_Is.simps [errs_simps] errors_Is_NoRows.simps [errs_simps]
  errors_As_Validation.simps [errs_simps] errors_As_Pg.simps [errs_simps]

lemma NewValidationError_None [simp]: "NewValidationError reasons = None \<longleftrightarrow> reasons = []"
  by (simp add: NewValidationError_def)

lemma NewValidationError_Some [simp]:
  "NewValidationError reasons = Some e \<longleftrightarrow> reasons \<noteq> [] \<and> e = ValidationError reasons"
  by (auto simp: NewValidationError_def)

lemma WithMessage_Error [errs_simps]: "go_Error (WithMessage s msg) = msg"
  by (simp add: WithMessage_def)

lemma WithMessage_Is [errs_simps]: "errors_Is (WithMessage s msg) t \<longleftrightarrow> s = t"
  by (simp add: WithMessage_def)

lemma WithMessage_As [errs_simps]: "errors_As_Validation (WithMessage s msg) = None"
  by (simp add: WithMessage_def)

text \<open>A validation error found by \<open>errors.As\<close> is also an \<open>ErrInvalidArgument\<close> for \<open>errors.Is\<close>.\<close>

lemma As_Validation_Is: "errors_As_Validation e = Some r \<Longrightarrow> errors_Is e ErrInvalidArgument"
  by (induction e) (auto split: option.splits)

lemma no_sentinel_no_validation:
  "\<not> errors_Is e ErrInvalidArgument \<Longrightarrow> errors_As_Validation e = None"
  by (metis As_Validation_Is option.exhaust)

end
