(* ===== verification/JsonRpc.thy ===== *)
theory JsonRpc
  imports Errs
begin

text \<open>
  The JSON-RPC error envelope (\<open>pkg/jsonrpc\<close>): the codes, \<open>MapError\<close>, which translates a
  handler's error into the error object the codec writes, and \<open>WriteErrorStatus\<close>, which the
  middleware use to answer a request themselves. A JSON object under \<open>error.data\<close> is a map.
\<close>

section \<open>Codes and reasons\<close>

definition CodeParseError :: int where "CodeParseError = -32700"
definition CodeInvalidParams :: int where "CodeInvalidParams = -32602"
definition CodeInternal :: int where "CodeInternal = -32603"
definition CodeUnauthorized :: int where "CodeUnauthorized = -32001"
definition CodeForbidden :: int where "CodeForbidden = -32002"
definition CodeNotFound :: int where "CodeNotFound = -32003"
definition CodeAlreadyExists :: int where "CodeAlreadyExists = -32004"
definition CodeInsufficientBalance :: int where "CodeInsufficientBalance = -32005"
definition CodeTooManyRequests :: int where "CodeTooManyRequests = -32006"

lemmas code_defs =
  CodeParseError_def CodeInvalidParams_def CodeInternal_def CodeUnauthorized_def
  CodeForbidden_def CodeNotFound_def CodeAlreadyExists_def CodeInsufficientBalance_def
  CodeTooManyRequests_def

definition reasonInvalidArgument :: string where "reasonInvalidArgument = ''invalid_argument''"
definition reasonUnauthorized :: string where "reasonUnauthorized = ''unauthorized''"
definition reasonForbidden :: string where "reasonForbidden = ''forbidden''"
definition reasonNotFound :: string where "reasonNotFound = ''not_found''"
definition reasonAlreadyExists :: string where "reasonAlreadyExists = ''already_exists''"
definition reasonInsufficientFunds :: string where "reasonInsufficientFunds = ''insufficient_balance''"
definition reasonInternal :: string where "reasonInternal = ''internal''"

lemmas reason_defs =
  reasonInvalidArgument_def reasonUnauthorized_def reasonForbidden_def reasonNotFound_def
  reasonAlreadyExists_def reasonInsufficientFunds_def reasonInternal_def

section \<open>The error mapper\<close>

datatype rpc_value = RpcString string | RpcStrings "string list"

record rpc_error =
  rpc_Code :: int
  rpc_Message :: string
  rpc_Data :: "string \<rightharpoonup> rpc_value"

definition rpcError ::
  "int \<Rightarrow> string \<Rightarrow> string \<Rightarrow> (string \<rightharpoonup> rpc_value) \<Rightarrow> rpc_error" where
  "rpcError code message reason extra =
     \<lparr>rpc_Code = code, rpc_Message = message,
      rpc_Data = [''reason'' \<mapsto> RpcString reason] ++ extra\<rparr>"

definition map_error_nonnil :: "go_error \<Rightarrow> rpc_error" where
  "map_error_nonnil err =
     (case errors_As_Validation err of
        Some reasons \<Rightarrow>
          rpcError CodeInvalidParams (go_Error (ValidationError reasons)) reasonInvalidArgument
            [''fields'' \<mapsto> RpcStrings reasons]
      | None \<Rightarrow>
          if errors_Is err ErrInvalidArgument then
            rpcError CodeInvalidParams (go_Error err) reasonInvalidArgument Map.empty
          else if errors_Is err ErrUnauthorized then
            rpcError CodeUnauthorized (go_Error err) reasonUnauthorized Map.empty
          else if errors_Is err ErrForbidden then
            rpcError CodeForbidden (go_Error err) reasonForbidden Map.empty
          else if errors_Is err ErrNotFound then
            rpcError CodeNotFound (go_Error err) reasonNotFound Map.empty
          else if errors_Is err ErrAlreadyExists then
            rpcError CodeAlreadyExists (go_Error err) reasonAlreadyExists Map.empty
          else if errors_Is err ErrInsufficientBalance then
            rpcError CodeInsufficientBalance (go_Error err) reasonInsufficientFunds Map.empty
          else if errors_Is err ErrInternal then
            rpcError CodeInternal (go_Error err) reasonInternal Map.empty
          else rpcError CodeInternal ''internal server error'' reasonInternal Map.empty)"

definition MapError :: "go_error option \<Rightarrow> rpc_error option" where
  "MapError err = map_option map_error_nonnil err"

text \<open>The pairs of code and \<open>data.reason\<close> a client can meet in a handler's error.\<close>

definition documented_errors :: "(int \<times> string) list" where
  "documented_errors =
     [(-32602, ''invalid_argument''), (-32603, ''internal''), (-32001, ''unauthorized''),
      (-32002, ''forbidden''), (-32003, ''not_found''), (-32004, ''already_exists''),
      (-32005, ''insufficient_balance'')]"

lemma rpcError_sel [simp]:
  "rpc_Code (rpcError c m r x) = c" "rpc_Message (rpcError c m r x) = m"
  by (simp_all add: rpcError_def)

lemma rpcError_reason:
  "x ''reason'' = None \<Longrightarrow> rpc_Data (rpcError c m r x) ''reason'' = Some (RpcString r)"
  by (simp add: rpcError_def map_add_def)

lemma rpcError_documented:
  assumes "(c, r) \<in> set documented_errors" "x ''reason'' = None"
  shows "\<exists>r'. rpc_Data (rpcError c m r x) ''reason'' = Some (RpcString r') \<and>
    (rpc_Code (rpcError c m r x), r') \<in> set documented_errors"
  using assms by (simp add: rpcError_reason)

lemma documented_pairs:
  "(CodeInvalidParams, reasonInvalidArgument) \<in> set documented_errors"
  "(CodeUnauthorized, reasonUnauthorized) \<in> set documented_errors"
  "(CodeForbidden, reasonForbidden) \<in> set documented_errors"
  "(CodeNotFound, reasonNotFound) \<in> set documented_errors"
  "(CodeAlreadyExists, reasonAlreadyExists) \<in> set documented_errors"
  "(CodeInsufficientBalance, reasonInsufficientFunds) \<in> set documented_errors"
  "(CodeInternal, reasonInternal) \<in> set documented_errors"
  by (simp_all add: documented_errors_def code_defs reason_defs)

lemma map_error_documented:
  "\<exists>r. rpc_Data (map_error_nonnil err) ''reason'' = Some (RpcString r) \<and>
       (rpc_Code (map_error_nonnil err), r) \<in> set documented_errors"
  unfolding map_error_nonnil_def
  by (simp add: rpcError_documented documented_pairs del: rpcError_sel split: option.split)

text \<open>The message of an error that carries no sentinel never reaches the client.\<close>

lemma map_error_hides:
  assumes "\<And>s. \<not> errors_Is err s"
  shows "map_error_nonnil err = rpcError CodeInternal ''internal server error'' reasonInternal Map.empty"
  using assms no_sentinel_no_validation [of err] by (simp add: map_error_nonnil_def)

section \<open>Errors written by the middleware\<close>

text \<open>
  The body of an error response; \<open>id\<close> is the raw JSON of the request id, \<open>data\<close> is omitted
  when there is no reason. \<open>http_Status\<close> and \<open>http_ContentType\<close> are what the handler sets on
  the response writer.
\<close>

record rpc_error_body =
  body_Version :: string
  body_ID :: string
  body_Error :: rpc_error
  body_HasData :: bool

record http_error_response =
  http_Status :: nat
  http_ContentType :: string
  http_Body :: rpc_error_body

definition WriteErrorStatus ::
  "nat \<Rightarrow> string \<Rightarrow> int \<Rightarrow> string \<Rightarrow> string \<Rightarrow> http_error_response" where
  "WriteErrorStatus status reqid code message reason =
     \<lparr>http_Status = status, http_ContentType = ''application/json'',
      http_Body =
        \<lparr>body_Version = ''2.0'',
         body_ID = (if reqid = [] then ''null'' else reqid),
         body_Error =
           \<lparr>rpc_Code = code, rpc_Message = message,
            rpc_Data = (if reason \<noteq> [] then [''reason'' \<mapsto> RpcString reason] else Map.empty)\<rparr>,
         body_HasData = (reason \<noteq> [])\<rparr>\<rparr>"

definition WriteError :: "string \<Rightarrow> int \<Rightarrow> string \<Rightarrow> string \<Rightarrow> http_error_response" where
  "WriteError reqid code message reason = WriteErrorStatus 200 reqid code message reason"

text \<open>A reader of the envelope cannot tell which layer rejected the request.\<close>

lemma WriteError_same_shape:
  "reason \<noteq> [] \<Longrightarrow>
   body_Error (http_Body (WriteError reqid code message reason)) = rpcError code message reason Map.empty"
  by (simp add: WriteError_def WriteErrorStatus_def rpcError_def)

end
