(* ===== verification/GoText.thy ===== *)
theory GoText
  imports Errs
begin

text \<open>
  The string functions of Go's standard library that the program calls (\<open>strings\<close>, \<open>strconv\<close>,
  the \<open>%d\<close> and \<open>%q\<close> verbs of \<open>fmt\<close>), on byte strings, with the facts about decimal digits that
  the timestamp codec uses.
\<close>

section \<open>Decimal digits\<close>

definition digit_char :: "int \<Rightarrow> char" where
  "digit_char n = char_of (48 + nat n)"

definition is_digit :: "char \<Rightarrow> bool" where
  "is_digit c \<longleftrightarrow> 48 \<le> (of_char c :: nat) \<and> (of_char c :: nat) \<le> 57"

definition digit_int :: "char \<Rightarrow> int" where
  "digit_int c = int (of_char c) - 48"

text \<open>The last \<open>k\<close> decimal digits of a number, and the number of a digit list.\<close>

fun ndigits :: "nat \<Rightarrow> int \<Rightarrow> int list" where
  "ndigits 0 n = []"
| "ndigits (Suc k) n = ndigits k (n div 10) @ [n mod 10]"

definition dval :: "int list \<Rightarrow> int" where
  "dval ds = foldl (\<lambda>a d. 10 * a + d) 0 ds"

lemma digit_char_digit:
  assumes "0 \<le> n" "n < 10"
  shows "is_digit (digit_char n)" "digit_int (digit_char n) = n"
proof -
  have "(of_char (digit_char n) :: nat) = 48 + nat n"
    using assms by (simp add: digit_char_def)
  then show "is_digit (digit_char n)" "digit_int (digit_char n) = n"
    using assms by (simp_all add: is_digit_def digit_int_def)
qed

lemma length_ndigits [simp]: "length (ndigits k n) = k"
  by (induction k arbitrary: n) auto

lemma ndigits_range: "x \<in> set (ndigits k n) \<Longrightarrow> 0 \<le> x \<and> x < 10"
  by (induction k arbitrary: n) auto

lemma dval_snoc [simp]: "dval (ds @ [d]) = 10 * dval ds + d"
  by (simp add: dval_def)

lemma dval_Nil [simp]: "dval [] = 0"
  by (simp add: dval_def)

lemma dval_ndigits: "dval (ndigits k n) = n mod 10 ^ k"
proof (induction k arbitrary: n)
  case (Suc k)
  have "n mod 10 ^ Suc k = 10 * (n div 10 mod 10 ^ k) + n mod 10"
    by (simp add: zmod_zmult2_eq)
  with Suc show ?case by simp
qed simp

lemma dval_zeros: "dval (ds @ replicate k 0) = dval ds * 10 ^ k"
  by (induction k) (simp_all add: replicate_append_same [symmetric] flip: append_assoc)


lemma dval_digits_bound: "(\<And>x. x \<in> set ds \<Longrightarrow> 0 \<le> x \<and> x < 10) \<Longrightarrow> 0 \<le> dval ds \<and> dval ds < 10 ^ length ds"
proof (induction ds rule: rev_induct)
  case (snoc d ds)
  then have "0 \<le> dval ds" "dval ds < 10 ^ length ds" "0 \<le> d" "d < 10" by auto
  then show ?case by simp
qed simp

section \<open>Decimal numbers\<close>

fun dec :: "nat \<Rightarrow> string" where
  "dec n = (if n < 10 then [digit_char (int n)] else dec (n div 10) @ [digit_char (int (n mod 10))])"

declare dec.simps [simp del]

text \<open>\<open>strconv.Itoa\<close> and \<open>%d\<close>\<close>

definition strconv_Itoa :: "int \<Rightarrow> string" where
  "strconv_Itoa n = (if n < 0 then CHR ''-'' # dec (nat (- n)) else dec (nat n))"

text \<open>\<open>strconv.ParseInt(s, 10, 64)\<close>: an optional sign, at least one digit, and the 64-bit range.\<close>

definition strconv_ParseInt :: "string \<Rightarrow> int64 option" where
  "strconv_ParseInt s =
     (let neg = (s \<noteq> [] \<and> hd s = CHR ''-'');
          ds = (if s \<noteq> [] \<and> (hd s = CHR ''-'' \<or> hd s = CHR ''+'') then tl s else s);
          n = (if neg then - dval (map digit_int ds) else dval (map digit_int ds))
      in if ds \<noteq> [] \<and> list_all is_digit ds \<and> fits64 n then Some (word_of_int n) else None)"

section \<open>Splitting and trimming\<close>

text \<open>\<open>strings.Split\<close> with a one-byte separator, and \<open>strings.SplitN\<close> with \<open>n = 2\<close>.\<close>

fun strings_Split :: "string \<Rightarrow> char \<Rightarrow> string list" where
  "strings_Split [] sep = [[]]"
| "strings_Split (c # s) sep =
     (if c = sep then [] # strings_Split s sep
      else (case strings_Split s sep of [] \<Rightarrow> [[c]] | p # ps \<Rightarrow> (c # p) # ps))"

definition strings_SplitN2 :: "string \<Rightarrow> char \<Rightarrow> string list" where
  "strings_SplitN2 s sep =
     (case dropWhile (\<lambda>c. c \<noteq> sep) s of
        [] \<Rightarrow> [s]
      | _ # rest \<Rightarrow> [takeWhile (\<lambda>c. c \<noteq> sep) s, rest])"

definition strings_ContainsByte :: "string \<Rightarrow> char \<Rightarrow> bool" where
  "strings_ContainsByte s c \<longleftrightarrow> c \<in> set s"

text \<open>\<open>strings.TrimSpace\<close> on ASCII text.\<close>

definition is_space :: "char \<Rightarrow> bool" where
  "is_space c \<longleftrightarrow> c \<in> set [CHR '' '', CHR 0x09, CHR 0x0A, CHR 0x0B, CHR 0x0C, CHR 0x0D]"

definition strings_TrimSpace :: "string \<Rightarrow> string" where
  "strings_TrimSpace s = rev (dropWhile is_space (rev (dropWhile is_space s)))"

text \<open>Text in single quotes, as some error messages have it.\<close>

definition squote :: "string \<Rightarrow> string" where
  "squote s = [CHR 0x27] @ s @ [CHR 0x27]"

text \<open>\<open>strings.CutPrefix\<close>: the rest of the string when it starts with the prefix.\<close>

fun strings_CutPrefix :: "string \<Rightarrow> string \<Rightarrow> string option" where
  "strings_CutPrefix s [] = Some s"
| "strings_CutPrefix [] (p # ps) = None"
| "strings_CutPrefix (c # s) (p # ps) = (if c = p then strings_CutPrefix s ps else None)"

definition newline :: char where "newline = CHR 0x0A"

text \<open>The order of Go strings.\<close>

fun bytes_less :: "string \<Rightarrow> string \<Rightarrow> bool" where
  "bytes_less s [] = False"
| "bytes_less [] (d # t) = True"
| "bytes_less (c # s) (d # t) = ((of_char c :: nat) < of_char d \<or> c = d \<and> bytes_less s t)"

section \<open>Quoting\<close>

text \<open>
  \<open>%q\<close> (\<open>strconv.Quote\<close>): backslash escapes for the quote, the backslash and control bytes. Bytes
  from 128 on are kept, as Go keeps printable UTF-8.
\<close>

definition hex_char :: "nat \<Rightarrow> char" where
  "hex_char n = (if n < 10 then char_of (48 + n) else char_of (87 + n))"

definition quote_char :: "char \<Rightarrow> string" where
  "quote_char c =
     (let k = (of_char c :: nat) in
      if k = 34 then [CHR 0x5C, CHR 0x22] else if k = 92 then [CHR 0x5C, CHR 0x5C]
      else if k = 7 then CHR 0x5C # ''a'' else if k = 8 then CHR 0x5C # ''b''
      else if k = 12 then CHR 0x5C # ''f'' else if k = 10 then CHR 0x5C # ''n''
      else if k = 13 then CHR 0x5C # ''r'' else if k = 9 then CHR 0x5C # ''t''
      else if k = 11 then CHR 0x5C # ''v''
      else if k < 32 \<or> k = 127 then [CHR 0x5C, CHR ''x'', hex_char (k div 16), hex_char (k mod 16)]
      else [c])"

definition strconv_Quote :: "string \<Rightarrow> string" where
  "strconv_Quote s = [CHR 0x22] @ concat (map quote_char s) @ [CHR 0x22]"

section \<open>Facts\<close>

lemma strings_Split_nonempty [simp]: "strings_Split s sep \<noteq> []"
  by (induction s) (auto split: list.splits)

lemma strings_CutPrefix_append [simp]: "strings_CutPrefix (p @ s) p = Some s"
  by (induction p) auto

lemma strings_CutPrefix_Some: "strings_CutPrefix s p = Some r \<longleftrightarrow> s = p @ r"
  by (induction s p rule: strings_CutPrefix.induct) auto

lemma strings_SplitN2_append:
  "sep \<notin> set a \<Longrightarrow> strings_SplitN2 (a @ sep # b) sep = [a, b]"
  by (simp add: strings_SplitN2_def takeWhile_append dropWhile_append)

end
