(* ===== verification/Csv.thy ===== *)
theory Csv
  imports GoText
begin

text \<open>
  Go's \<open>encoding/csv\<close> reader with its default settings (comma, no comment character, strict
  quotes), as \<open>ParseCSV\<close> uses it. The reader holds the bytes it has not read yet, what happens
  after them (the end of the file, or a read error, which stays), the line count and
  \<open>FieldsPerRecord\<close>.
\<close>

record csv_reader =
  csv_Rest :: string
  csv_Fail :: "string option"
  csv_NumLine :: int
  csv_FieldsPerRecord :: int

definition csv_NewReader :: "string \<Rightarrow> string option \<Rightarrow> csv_reader" where
  "csv_NewReader bytes failing = \<lparr>csv_Rest = bytes, csv_Fail = failing, csv_NumLine = 0, csv_FieldsPerRecord = 0\<rparr>"

datatype read_end = NoError | AtEOF | ReadError string

definition carriage :: char where "carriage = CHR 0x0D"
definition dquote :: char where "dquote = CHR 0x22"
definition comma :: char where "comma = CHR '',''"

definition lengthNL :: "string \<Rightarrow> nat" where
  "lengthNL line = (if line \<noteq> [] \<and> last line = newline then 1 else 0)"

text \<open>A line with its newline; \<open>\r\n\<close> becomes \<open>\n\<close>, and a last line may lack the newline.\<close>

definition drop_carriage :: "string \<Rightarrow> string" where
  "drop_carriage line = (if line \<noteq> [] \<and> last line = carriage then butlast line else line)"

definition readLine :: "csv_reader \<Rightarrow> (string \<times> read_end) \<times> csv_reader" where
  "readLine r =
     (let before = takeWhile (\<lambda>c. c \<noteq> newline) (csv_Rest r);
          after = dropWhile (\<lambda>c. c \<noteq> newline) (csv_Rest r);
          r = r\<lparr>csv_NumLine := csv_NumLine r + 1\<rparr>
      in if after \<noteq> [] then ((drop_carriage before @ [newline], NoError), r\<lparr>csv_Rest := tl after\<rparr>)
         else (case csv_Fail r of
             None \<Rightarrow> if before = [] then (([], AtEOF), r) else ((drop_carriage before, NoError), r\<lparr>csv_Rest := []\<rparr>)
           | Some m \<Rightarrow> ((before, ReadError m), r\<lparr>csv_Rest := []\<rparr>)))"

lemma readLine_length:
  assumes "readLine r = ((line, e), r')"
  shows "length line + length (csv_Rest r') \<le> length (csv_Rest r)"
    "e = NoError \<Longrightarrow> length (csv_Rest r') < length (csv_Rest r)" "csv_Fail r' = csv_Fail r"
    "csv_FieldsPerRecord r' = csv_FieldsPerRecord r"
proof -
  let ?b = "takeWhile (\<lambda>c. c \<noteq> newline) (csv_Rest r)" and ?a = "dropWhile (\<lambda>c. c \<noteq> newline) (csv_Rest r)"
  have len: "length ?b + length ?a = length (csv_Rest r)"
    by (metis length_append takeWhile_dropWhile_id)
  have "length (drop_carriage b) \<le> length b" for b by (simp add: drop_carriage_def)
  note dc = this [of ?b]
  show "length line + length (csv_Rest r') \<le> length (csv_Rest r)" "csv_Fail r' = csv_Fail r"
    "csv_FieldsPerRecord r' = csv_FieldsPerRecord r"
    using assms len dc by (cases ?a; auto simp: readLine_def Let_def split: if_splits option.splits)+
  show "length (csv_Rest r') < length (csv_Rest r)" if "e = NoError"
    using assms that len by (cases ?a) (auto simp: readLine_def Let_def split: if_splits option.splits)
qed

lemma readLine_shrinks:
  "readLine r = ((line', e), r') \<Longrightarrow> line \<noteq> [] \<Longrightarrow> length line' + length (csv_Rest r') < length line + length (csv_Rest r)"
  using readLine_length(1) [of r line' e r'] by (cases line) auto

text \<open>Reading the first line of a record skips empty lines.\<close>

function nextLine :: "csv_reader \<Rightarrow> (string \<times> read_end) \<times> csv_reader" where
  "nextLine r =
     (case readLine r of ((line, e), r') \<Rightarrow>
        if e = NoError \<and> length line = lengthNL line then nextLine r' else ((line, e), r'))"
  by pat_completeness auto
termination
  by (relation "measure (\<lambda>r. length (csv_Rest r))") (auto dest: readLine_length(2) [OF sym])

declare nextLine.simps [simp del]

section \<open>The fields of a record\<close>

datatype csv_problem = ErrBareQuote | ErrQuote | ErrFieldCount

datatype csv_error = ParseError int int int csv_problem | IOError string

fun csv_problem_text :: "csv_problem \<Rightarrow> string" where
  "csv_problem_text ErrBareQuote = ''bare '' @ [dquote] @ '' in non-quoted field''"
| "csv_problem_text ErrQuote = ''extraneous or missing '' @ [dquote] @ '' in quoted field''"
| "csv_problem_text ErrFieldCount = ''wrong number of fields''"

fun csv_error_text :: "csv_error \<Rightarrow> string" where
  "csv_error_text (ParseError start line col p) =
     (if p = ErrFieldCount then ''record on line '' @ strconv_Itoa line @ '': '' @ csv_problem_text p
      else if start \<noteq> line then
        ''record on line '' @ strconv_Itoa start @ ''; parse error on line '' @ strconv_Itoa line @
        '', column '' @ strconv_Itoa col @ '': '' @ csv_problem_text p
      else ''parse error on line '' @ strconv_Itoa line @ '', column '' @ strconv_Itoa col @ '': '' @ csv_problem_text p)"
| "csv_error_text (IOError m) = m"

fun error_at :: "read_end \<Rightarrow> csv_error option" where
  "error_at NoError = None"
| "error_at AtEOF = None"
| "error_at (ReadError m) = Some (IOError m)"

lemma length_pos_member: "c \<in> set line \<Longrightarrow> 0 < length line"
  by (cases line) auto

text \<open>
  The field loop of \<open>readRecord\<close>. \<open>q\<close> is \<open>None\<close> at the start of a field and \<open>Some acc\<close> inside a
  quoted one; \<open>pline\<close> and \<open>col\<close> are the position, \<open>fs\<close> the fields so far, \<open>e\<close> how the last read ended.
\<close>

function csv_fields ::
    "int \<Rightarrow> string option \<Rightarrow> string \<Rightarrow> int \<Rightarrow> int \<Rightarrow> string list \<Rightarrow> read_end \<Rightarrow> csv_reader \<Rightarrow>
     (string list \<times> csv_error option) \<times> csv_reader" where
  "csv_fields start None line pline col fs e r =
     (if line = [] \<or> hd line \<noteq> dquote then
        (let field = (if comma \<in> set line then takeWhile (\<lambda>c. c \<noteq> comma) line else take (length line - lengthNL line) line)
         in if dquote \<in> set field then
              ((fs, Some (ParseError start (csv_NumLine r) (col + int (length (takeWhile (\<lambda>c. c \<noteq> dquote) field))) ErrBareQuote)), r)
            else if comma \<in> set line then
              csv_fields start None (drop (length field + 1) line) pline (col + int (length field) + 1) (fs @ [field]) e r
            else ((fs @ [field], error_at e), r))
      else csv_fields start (Some []) (tl line) pline (col + 1) fs e r)"
| "csv_fields start (Some acc) line pline col fs e r =
     (if dquote \<in> set line then
        (let part = takeWhile (\<lambda>c. c \<noteq> dquote) line; rest = drop (length part + 1) line;
             col = col + int (length part) + 1
         in if rest \<noteq> [] \<and> hd rest = dquote then
              csv_fields start (Some (acc @ part @ [dquote])) (tl rest) pline (col + 1) fs e r
            else if rest \<noteq> [] \<and> hd rest = comma then
              csv_fields start None (tl rest) pline (col + 1) (fs @ [acc @ part]) e r
            else if length rest = lengthNL rest then ((fs @ [acc @ part], error_at e), r)
            else ((fs, Some (ParseError start (csv_NumLine r) (col - 1) ErrQuote)), r))
      else if line \<noteq> [] then
        (if e \<noteq> NoError then ((fs, error_at e), r)
         else (case readLine r of ((next_line, e'), r') \<Rightarrow>
            csv_fields start (Some (acc @ line)) next_line (if next_line \<noteq> [] then pline + 1 else pline)
              (if next_line \<noteq> [] then 1 else col + int (length line)) fs (if e' = AtEOF then NoError else e') r'))
      else if e = NoError then ((fs, Some (ParseError start pline col ErrQuote)), r)
      else ((fs @ [acc], error_at e), r))"
  by pat_completeness auto

termination
  by (relation "measure (\<lambda>(start, q, line, pline, col, fs, e, r). length line + length (csv_Rest r))")
    (auto dest: length_pos_member readLine_shrinks [OF sym])

declare csv_fields.simps [simp del]

datatype csv_read = EndOfFile | Record "string list" | Malformed csv_error

definition csv_Read :: "csv_reader \<Rightarrow> csv_read \<times> csv_reader" where
  "csv_Read r =
     (case nextLine r of ((line, e), r) \<Rightarrow>
        if e = AtEOF then (EndOfFile, r)
        else (case csv_fields (csv_NumLine r) None line (csv_NumLine r) 1 [] e r of ((fs, err), r') \<Rightarrow>
          let n = int (length fs); expected = csv_FieldsPerRecord r';
              err = (if expected > 0 \<and> n \<noteq> expected \<and> err = None
                     then Some (ParseError (csv_NumLine r) (csv_NumLine r) 1 ErrFieldCount) else err);
              r' = (if expected = 0 then r'\<lparr>csv_FieldsPerRecord := n\<rparr> else r')
          in (case err of Some e \<Rightarrow> (Malformed e, r') | None \<Rightarrow> (Record fs, r'))))"

section \<open>Facts\<close>

lemma nextLine_facts:
  "nextLine r = ((line, e), r') \<Longrightarrow> csv_Fail r' = csv_Fail r \<and> csv_FieldsPerRecord r' = csv_FieldsPerRecord r \<and>
     length line + length (csv_Rest r') \<le> length (csv_Rest r) \<and> (e = NoError \<longrightarrow> line \<noteq> [])"
proof (induction r arbitrary: line e r' rule: nextLine.induct)
  case (1 r)
  obtain line1 e1 r1 where rl: "readLine r = ((line1, e1), r1)" by (metis prod.exhaust)
  note f = readLine_length [OF rl]
  show ?case
  proof (cases "e1 = NoError \<and> length line1 = lengthNL line1")
    case True
    then have "nextLine r1 = ((line, e), r')" using 1(2) rl by (simp add: nextLine.simps [of r])
    from 1(1) [OF rl [symmetric] refl True this] show ?thesis using f by auto
  next
    case False
    then have "line = line1" "e = e1" "r' = r1" using 1(2) rl by (auto simp: nextLine.simps [of r] split: if_splits)
    moreover have "e1 = NoError \<Longrightarrow> line1 \<noteq> []" using False by (auto simp: lengthNL_def)
    ultimately show ?thesis using f by simp
  qed
qed

definition fields_post :: "string list \<Rightarrow> csv_reader \<Rightarrow> (string list \<times> csv_error option) \<times> csv_reader \<Rightarrow> bool" where
  "fields_post fs r out \<longleftrightarrow> csv_Fail (snd out) = csv_Fail r \<and> csv_FieldsPerRecord (snd out) = csv_FieldsPerRecord r \<and>
     length (csv_Rest (snd out)) \<le> length (csv_Rest r) \<and> (snd (fst out) = None \<longrightarrow> length fs < length (fst (fst out)))"

lemma fields_post_step: "fields_post (fs @ [f]) r out \<Longrightarrow> fields_post fs r out"
  by (auto simp: fields_post_def)

lemma fields_post_read: "fields_post fs r' out \<Longrightarrow> readLine r = ((l, e), r') \<Longrightarrow> fields_post fs r out"
  using readLine_length [of r l e r'] by (auto simp: fields_post_def)

lemma fields_post_return: "fields_post fs r ((fs @ [f], x), r)" "fields_post fs r ((fs', Some y), r)"
  by (simp_all add: fields_post_def)

lemma csv_fields_post: "e \<noteq> AtEOF \<Longrightarrow> fields_post fs r (csv_fields start q line pline col fs e r)"
proof (induction start q line pline col fs e r rule: csv_fields.induct)
  case (1 start line pline col fs e r)
  let ?f = "takeWhile (\<lambda>c. c \<noteq> comma) line"
  have "fields_post fs r (csv_fields start None (drop (length ?f + 1) line) pline (col + int (length ?f) + 1) (fs @ [?f]) e r)"
    if "hd line \<noteq> dquote" "dquote \<notin> set ?f" "comma \<in> set line"
    using 1(1) [OF disjI2 [OF that(1)] refl] that(2,3) 1(3) fields_post_step by auto
  then show ?case
    using 1(2,3) by (subst csv_fields.simps) (auto simp: Let_def simp del: One_nat_def intro: fields_post_return)
next
  case (2 start acc line pline col fs e r)
  let ?part = "takeWhile (\<lambda>c. c \<noteq> dquote) line"
  let ?rest = "drop (length ?part + 1) line" and ?col = "col + int (length ?part) + 1"
  obtain line1 e1 r1 where rl: "readLine r = ((line1, e1), r1)" by (metis prod.exhaust)
  have quoted: "fields_post fs r (csv_fields start (Some (acc @ ?part @ [dquote])) (tl ?rest) pline (?col + 1) fs e r)"
    if "dquote \<in> set line" "?rest \<noteq> [] \<and> hd ?rest = dquote"
    using 2(1) [OF that(1) refl refl refl that(2) 2(4)] .
  have closed: "fields_post fs r (csv_fields start None (tl ?rest) pline (?col + 1) (fs @ [acc @ ?part]) e r)"
    if "dquote \<in> set line" "\<not> (?rest \<noteq> [] \<and> hd ?rest = dquote)" "?rest \<noteq> [] \<and> hd ?rest = comma"
    using 2(2) [OF that(1) refl refl refl that(2,3) 2(4)] by (rule fields_post_step)
  have more: "fields_post fs r (csv_fields start (Some (acc @ line)) line1 (if line1 \<noteq> [] then pline + 1 else pline)
      (if line1 \<noteq> [] then 1 else col + int (length line)) fs (if e1 = AtEOF then NoError else e1) r1)"
    if "dquote \<notin> set line" "line \<noteq> []" "\<not> e \<noteq> NoError"
    using 2(3) [OF that(1,2) that(3) rl [symmetric] refl] by (intro fields_post_read [OF _ rl]) simp
  have io: "e \<noteq> NoError \<Longrightarrow> fields_post fs r ((fs', error_at e), r)" for fs'
    using 2(4) by (cases e) (simp_all add: fields_post_return)
  show ?case
    using quoted closed more io
    by (subst csv_fields.simps) (simp add: Let_def rl fields_post_return del: One_nat_def)
qed

lemma nextLine_end:
  "nextLine r = ((line, e), r') \<Longrightarrow> (e = AtEOF \<longrightarrow> csv_Fail r = None) \<and> (csv_Fail r = None \<longrightarrow> e = NoError \<or> e = AtEOF)"
proof (induction r arbitrary: line e r' rule: nextLine.induct)
  case (1 r)
  obtain line1 e1 r1 where rl: "readLine r = ((line1, e1), r1)" by (metis prod.exhaust)
  have e1: "(e1 = AtEOF \<longrightarrow> csv_Fail r = None) \<and> (csv_Fail r = None \<longrightarrow> e1 = NoError \<or> e1 = AtEOF)"
    using rl by (auto simp: readLine_def Let_def split: if_splits option.splits)
  show ?case
  proof (cases "e1 = NoError \<and> length line1 = lengthNL line1")
    case True
    then have "nextLine r1 = ((line, e), r')" using 1(2) rl by (simp add: nextLine.simps [of r])
    from 1(1) [OF rl [symmetric] refl True this] show ?thesis using readLine_length(3) [OF rl] by simp
  next
    case False
    then show ?thesis using 1(2) rl e1 by (auto simp: nextLine.simps [of r] split: if_splits)
  qed
qed

lemma csv_Read_facts:
  assumes "csv_Read r = (x, r')"
  shows "csv_Fail r' = csv_Fail r"
    and "csv_Fail r = None \<Longrightarrow> x \<noteq> EndOfFile \<Longrightarrow> length (csv_Rest r') < length (csv_Rest r)"
    and "csv_Fail r \<noteq> None \<Longrightarrow> x \<noteq> EndOfFile"
    and "csv_FieldsPerRecord r > 0 \<Longrightarrow> csv_FieldsPerRecord r' = csv_FieldsPerRecord r"
    and "0 \<le> csv_FieldsPerRecord r \<Longrightarrow> x = Record fs \<Longrightarrow> fs \<noteq> [] \<and> csv_FieldsPerRecord r' = int (length fs)"
proof -
  obtain line e r1 where nl: "nextLine r = ((line, e), r1)" by (metis prod.exhaust)
  obtain out err r2 where cf: "csv_fields (csv_NumLine r1) None line (csv_NumLine r1) 1 [] e r1 = ((out, err), r2)"
    by (metis prod.exhaust)
  note n = nextLine_facts [OF nl] nextLine_end [OF nl]
  have post: "e \<noteq> AtEOF \<Longrightarrow> fields_post [] r1 ((out, err), r2)" using csv_fields_post [of e "[]" r1] cf by metis
  have x: "(x, r') = (if e = AtEOF then (EndOfFile, r1) else
      (let n = int (length out); err' = (if csv_FieldsPerRecord r2 > 0 \<and> n \<noteq> csv_FieldsPerRecord r2 \<and> err = None
         then Some (ParseError (csv_NumLine r1) (csv_NumLine r1) 1 ErrFieldCount) else err);
         r3 = (if csv_FieldsPerRecord r2 = 0 then r2\<lparr>csv_FieldsPerRecord := n\<rparr> else r2)
       in (case err' of Some e \<Rightarrow> (Malformed e, r3) | None \<Rightarrow> (Record out, r3))))"
    using assms by (simp only: csv_Read_def prod.case Let_def nl cf)
  show "csv_Fail r' = csv_Fail r" using x n post by (auto simp: Let_def fields_post_def split: if_splits option.splits)
  show "csv_Fail r \<noteq> None \<Longrightarrow> x \<noteq> EndOfFile" using x n by (auto simp: Let_def split: if_splits option.splits)
  show "csv_FieldsPerRecord r > 0 \<Longrightarrow> csv_FieldsPerRecord r' = csv_FieldsPerRecord r"
    using x n post by (auto simp: Let_def fields_post_def split: if_splits option.splits)
  show "length (csv_Rest r') < length (csv_Rest r)" if "csv_Fail r = None" "x \<noteq> EndOfFile"
  proof -
    have "e = NoError" using that n x by auto
    then have "length (csv_Rest r1) < length (csv_Rest r)" using n(1) by (cases line) auto
    then show ?thesis using x post \<open>e = NoError\<close> by (auto simp: Let_def fields_post_def split: if_splits option.splits)
  qed
  show "fs \<noteq> [] \<and> csv_FieldsPerRecord r' = int (length fs)" if "0 \<le> csv_FieldsPerRecord r" "x = Record fs"
    using x post that n by (auto simp: Let_def fields_post_def split: if_splits option.splits)
qed

section \<open>Plain records\<close>

definition plain_field :: "string \<Rightarrow> bool" where
  "plain_field f \<longleftrightarrow> set f \<inter> {dquote, comma, newline, carriage} = {}"

lemma special_distinct [simp]:
  "dquote \<noteq> comma" "comma \<noteq> dquote" "newline \<noteq> dquote" "dquote \<noteq> newline" "newline \<noteq> comma" "comma \<noteq> newline"
  "carriage \<noteq> comma" "comma \<noteq> carriage" "carriage \<noteq> newline" "newline \<noteq> carriage"
  by (simp_all add: dquote_def comma_def newline_def carriage_def)

lemma Join_Cons: "fs \<noteq> [] \<Longrightarrow> strings_Join (f # fs) sep = f @ sep @ strings_Join fs sep"
  by (cases fs) auto

lemma Join_plain: "list_all plain_field fs \<Longrightarrow> newline \<notin> set (strings_Join fs [comma]) \<and> carriage \<notin> set (strings_Join fs [comma])"
proof (induction fs)
  case (Cons f fs)
  then show ?case by (cases "fs = []") (auto simp: Join_Cons plain_field_def)
qed simp

lemma until_first:
  "c \<notin> set l \<Longrightarrow> takeWhile (\<lambda>x. x \<noteq> c) (l @ c # ys) = l" "c \<notin> set l \<Longrightarrow> dropWhile (\<lambda>x. x \<noteq> c) (l @ c # ys) = c # ys"
  by (induction l) auto

lemma csv_fields_plain:
  "list_all plain_field gs \<Longrightarrow> gs \<noteq> [] \<Longrightarrow>
   csv_fields start None (strings_Join gs [comma] @ [newline]) pline col fs NoError r = ((fs @ gs, None), r)"
proof (induction gs arbitrary: col fs)
  case (Cons g gs)
  have g: "dquote \<notin> set g" "comma \<notin> set g" "newline \<notin> set g" using Cons.prems by (auto simp: plain_field_def)
  show ?case
  proof (cases "gs = []")
    case True
    have "g @ [newline] = [] \<or> hd (g @ [newline]) \<noteq> dquote" using g by (cases g) auto
    then show ?thesis using True g by (simp add: csv_fields.simps lengthNL_def)
  next
    case False
    let ?line = "g @ comma # strings_Join gs [comma] @ [newline]"
    have "?line = [] \<or> hd ?line \<noteq> dquote" using g by (cases g) auto
    moreover have "takeWhile (\<lambda>c. c \<noteq> comma) ?line = g" using g(2) by (rule until_first)
    moreover have "drop (length g + 1) ?line = strings_Join gs [comma] @ [newline]" by simp
    ultimately have "csv_fields start None ?line pline col fs NoError r =
        csv_fields start None (strings_Join gs [comma] @ [newline]) pline (col + int (length g) + 1) (fs @ [g]) NoError r"
      using g by (subst csv_fields.simps) (simp add: Let_def)
    then show ?thesis using Cons False by (simp add: Join_Cons)
  qed
qed simp

lemma readLine_line:
  assumes "csv_Rest r = l @ newline # left" "newline \<notin> set l" "carriage \<notin> set l"
  shows "readLine r = ((l @ [newline], NoError), r\<lparr>csv_NumLine := csv_NumLine r + 1, csv_Rest := left\<rparr>)"
proof -
  have "takeWhile (\<lambda>c. c \<noteq> newline) (csv_Rest r) = l" "dropWhile (\<lambda>c. c \<noteq> newline) (csv_Rest r) = newline # left"
    using assms(1,2) by (simp_all add: until_first)
  moreover have "drop_carriage l = l" using assms(3) last_in_set by (fastforce simp: drop_carriage_def)
  ultimately show ?thesis by (simp add: readLine_def)
qed

lemma csv_Read_plain:
  assumes rest: "csv_Rest r = strings_Join fs [comma] @ newline # left" and plain: "list_all plain_field fs" "fs \<noteq> []"
    and some: "strings_Join fs [comma] \<noteq> []" and n: "csv_FieldsPerRecord r \<in> {0, int (length fs)}"
  shows "csv_Read r = (Record fs, r\<lparr>csv_NumLine := csv_NumLine r + 1, csv_Rest := left, csv_FieldsPerRecord := int (length fs)\<rparr>)"
proof -
  have rl: "readLine r = ((strings_Join fs [comma] @ [newline], NoError), r\<lparr>csv_NumLine := csv_NumLine r + 1, csv_Rest := left\<rparr>)"
    by (rule readLine_line [OF rest]) (use Join_plain [OF plain(1)] in auto)
  then have nl: "nextLine r = ((strings_Join fs [comma] @ [newline], NoError), r\<lparr>csv_NumLine := csv_NumLine r + 1, csv_Rest := left\<rparr>)"
    using some by (subst nextLine.simps) (simp add: lengthNL_def)
  have cf: "csv_fields start None (strings_Join fs [comma] @ [newline]) pline 1 [] NoError q = ((fs, None), q)" for start pline q
    using csv_fields_plain [OF plain, where fs = "[]"] by simp
  have "csv_FieldsPerRecord r = 0 \<or> csv_FieldsPerRecord r = int (length fs)" using n by simp
  then show ?thesis
    by (elim disjE) (simp_all only: csv_Read_def nl cf prod.case Let_def read_end.distinct if_False, simp_all)
qed

lemma csv_Read_end: "csv_Rest r = [] \<Longrightarrow> csv_Fail r = None \<Longrightarrow> fst (csv_Read r) = EndOfFile"
  by (simp add: csv_Read_def nextLine.simps readLine_def)

lemma csv_Read_failing: "csv_Rest r = [] \<Longrightarrow> csv_Fail r = Some m \<Longrightarrow>
    csv_Read r = (Malformed (IOError m), r\<lparr>csv_NumLine := csv_NumLine r + 1, csv_FieldsPerRecord :=
      (if csv_FieldsPerRecord r = 0 then 1 else csv_FieldsPerRecord r)\<rparr>)"
  by (simp add: csv_Read_def nextLine.simps readLine_def csv_fields.simps lengthNL_def)

end
