(* ===== verification/Times.thy ===== *)
theory Times
  imports GoText
begin

text \<open>
  Timestamps (\<open>pkg/time/time.go\<close>) and the part of Go's \<open>time\<close> package they rest on. A
  \<open>time.Time\<close> is its instant, in nanoseconds since the zero time (January 1, year 1, UTC):
  \<open>IsZero\<close>, \<open>Before\<close>, \<open>Equal\<close> and a format in UTC depend on nothing else. Dates follow the
  proleptic Gregorian calendar, computed by 400-, 100-, 4- and 1-year cycles as the package
  does. \<open>FormatTime\<close> and \<open>ParseTime\<close> are the RFC 3339 text stored in every \<open>*_at\<close> column.
\<close>

section \<open>Instants\<close>

type_synonym gotime = int

definition IsZero :: "gotime \<Rightarrow> bool" where
  "IsZero t \<longleftrightarrow> t = 0"

definition Before :: "gotime \<Rightarrow> gotime \<Rightarrow> bool" where
  "Before t u \<longleftrightarrow> t < u"

definition second :: int where "second = 1000000000"

definition hour :: int where "hour = 3600 * second"

text \<open>\<open>Unix()\<close>: seconds since 1970-01-01 (719162 days after the zero time), rounded down.\<close>

definition Unix :: "gotime \<Rightarrow> int" where
  "Unix t = t div second - 719162 * 86400"

section \<open>The calendar\<close>

definition is_leap :: "int \<Rightarrow> bool" where
  "is_leap y \<longleftrightarrow> y mod 4 = 0 \<and> (y mod 100 \<noteq> 0 \<or> y mod 400 = 0)"

text \<open>Days from the zero time to January 1 of a year.\<close>

definition days_before_year :: "int \<Rightarrow> int" where
  "days_before_year y = 365 * (y - 1) + (y - 1) div 4 - (y - 1) div 100 + (y - 1) div 400"

definition days_before_month :: "bool \<Rightarrow> int \<Rightarrow> int" where
  "days_before_month leap m =
     (if m = 1 then 0 else if m = 2 then 31
      else (if m = 3 then 59 else if m = 4 then 90 else if m = 5 then 120 else if m = 6 then 151
            else if m = 7 then 181 else if m = 8 then 212 else if m = 9 then 243
            else if m = 10 then 273 else if m = 11 then 304 else 334) + (if leap then 1 else 0))"

definition days_in :: "bool \<Rightarrow> int \<Rightarrow> int" where
  "days_in leap m =
     (if m = 2 then (if leap then 29 else 28)
      else if m = 4 \<or> m = 6 \<or> m = 9 \<or> m = 11 then 30 else 31)"

definition month_of :: "bool \<Rightarrow> int \<Rightarrow> int" where
  "month_of leap yday =
     (let l = (if leap then 1 else 0) in
      if yday < 31 then 1 else if yday < 59 + l then 2 else if yday < 90 + l then 3
      else if yday < 120 + l then 4 else if yday < 151 + l then 5 else if yday < 181 + l then 6
      else if yday < 212 + l then 7 else if yday < 243 + l then 8 else if yday < 273 + l then 9
      else if yday < 304 + l then 10 else if yday < 334 + l then 11 else 12)"

text \<open>Year and day of the year (from 0) of a day number.\<close>

definition year_yday :: "int \<Rightarrow> int \<times> int" where
  "year_yday d =
     (let n400 = d div 146097; d1 = d mod 146097;
          n100 = min 3 (d1 div 36524); d2 = d1 - 36524 * n100;
          n4 = d2 div 1461; d3 = d2 mod 1461;
          n1 = min 3 (d3 div 365)
      in (400 * n400 + 100 * n100 + 4 * n4 + n1 + 1, d3 - 365 * n1))"

definition civil_of_days :: "int \<Rightarrow> int \<times> int \<times> int" where
  "civil_of_days d =
     (let (y, yday) = year_yday d; m = month_of (is_leap y) yday
      in (y, m, yday - days_before_month (is_leap y) m + 1))"

definition days_of_civil :: "int \<Rightarrow> int \<Rightarrow> int \<Rightarrow> int" where
  "days_of_civil y m d = days_before_year y + days_before_month (is_leap y) m + d - 1"

lemma year_cycles:
  assumes "0 \<le> n100" "n100 \<le> 3" "0 \<le> n4" "n4 \<le> 24" "0 \<le> n1" "n1 \<le> 3"
  shows "days_before_year (400 * n400 + 100 * n100 + 4 * n4 + n1 + 1)
      = 146097 * n400 + 36524 * n100 + 1461 * n4 + 365 * n1"
proof -
  let ?y = "400 * n400 + 100 * n100 + 4 * n4 + n1"
  have "?y div 4 = 100 * n400 + 25 * n100 + n4"
    by (rule int_div_pos_eq [where r = n1]) (use assms in auto)
  moreover have "?y div 100 = 4 * n400 + n100"
    by (rule int_div_pos_eq [where r = "4 * n4 + n1"]) (use assms in auto)
  moreover have "?y div 400 = n400"
    by (rule int_div_pos_eq [where r = "100 * n100 + 4 * n4 + n1"]) (use assms in auto)
  ultimately show ?thesis by (simp add: days_before_year_def)
qed


lemma year_yday_range:
  assumes "year_yday d = (y, yday)"
  shows "days_before_year y + yday = d" "0 \<le> yday" "yday < (if is_leap y then 366 else 365)"
proof -
  define d1 where "d1 = d mod 146097"
  define n100 where "n100 = min 3 (d1 div 36524)"
  define d2 where "d2 = d1 - 36524 * n100"
  define n4 where "n4 = d2 div 1461"
  define d3 where "d3 = d2 mod 1461"
  define n1 where "n1 = min 3 (d3 div 365)"
  have "(y, yday) = (400 * (d div 146097) + 100 * n100 + 4 * n4 + n1 + 1, d3 - 365 * n1)"
    using assms [symmetric]
    unfolding year_yday_def Let_def n1_def d3_def n4_def d2_def n100_def d1_def by (simp only:)
  then have y: "y = 400 * (d div 146097) + 100 * n100 + 4 * n4 + n1 + 1" and yday: "yday = d3 - 365 * n1"
    by simp_all
  have d1: "0 \<le> d1" "d1 < 146097" by (simp_all add: d1_def)
  have n100: "0 \<le> n100" "n100 \<le> 3" using d1 by (auto simp: n100_def)
  define q where "q = d1 div 36524"
  have q: "0 \<le> q" "d1 = 36524 * q + d1 mod 36524" using d1 by (simp_all add: q_def)
  have r: "0 \<le> d1 mod 36524" "d1 mod 36524 < 36524" by simp_all
  have "q < 3 \<and> n100 = q \<or> 3 \<le> q \<and> n100 = 3" by (auto simp: n100_def q_def)
  then have d2: "0 \<le> d2" "d2 < 36525" "n100 < 3 \<Longrightarrow> d2 < 36524"
    using d1 q r unfolding d2_def by linarith+
  have n4: "0 \<le> n4" "n4 \<le> 24" using d2 by (auto simp: n4_def)
  have d3: "0 \<le> d3" "d3 < 1461" by (simp_all add: d3_def)
  have n1: "0 \<le> n1" "n1 \<le> 3" using d3 by (auto simp: n1_def)
  have parts: "d = 146097 * (d div 146097) + d1" "d1 = 36524 * n100 + d2" "d2 = 1461 * n4 + d3"
    by (simp_all add: d1_def d2_def n4_def d3_def)
  show "days_before_year y + yday = d"
    using year_cycles [OF n100 n4 n1, of "d div 146097"] parts unfolding y yday by linarith
  have d3q: "0 \<le> d3 mod 365" "d3 mod 365 < 365" "d3 = 365 * (d3 div 365) + d3 mod 365" by simp_all
  have "d3 div 365 < 3 \<and> n1 = d3 div 365 \<or> 3 \<le> d3 div 365 \<and> n1 = 3" by (auto simp: n1_def)
  then have yd: "0 \<le> yday" "n1 < 3 \<Longrightarrow> yday < 365" "yday < 366"
    using d3 d3q unfolding yday by linarith+
  then show "0 \<le> yday" by simp
  have leap: "is_leap y" if "n1 = 3" "yday = 365"
  proof -
    from that have y4: "y = 4 * (100 * (d div 146097) + 25 * n100 + n4 + 1)" by (simp add: y)
    show ?thesis
    proof (cases "n4 = 24")
      case True
      with that parts d2 n100 have "n100 = 3" by (cases "n100 < 3") (auto simp: yday)
      with True that have "y = 400 * (d div 146097 + 1)" by (simp add: y)
      then show ?thesis by (simp add: is_leap_def)
    next
      case False
      with n4 have "y mod 100 = 4 * n4 + 4"
        using that by (intro int_mod_pos_eq [where q = "4 * (d div 146097) + n100"]) (auto simp: y)
      with n4 y4 show ?thesis by (simp add: is_leap_def)
    qed
  qed
  have "yday < 365 \<or> n1 = 3 \<and> yday = 365" using yd n1 by linarith
  with leap show "yday < (if is_leap y then 366 else 365)" by auto
qed


lemma month_of_range: "1 \<le> month_of leap yday" "month_of leap yday \<le> 12"
  by (simp_all add: month_of_def Let_def)

lemma month_of_inverse:
  assumes "0 \<le> yday" "yday < (if leap then 366 else 365)"
  shows "days_before_month leap (month_of leap yday) \<le> yday \<and>
    yday < days_before_month leap (month_of leap yday) + days_in leap (month_of leap yday)"
proof (cases leap)
  case True
  then show ?thesis using assms by (simp add: month_of_def days_before_month_def days_in_def)
next
  case False
  then show ?thesis using assms by (simp add: month_of_def days_before_month_def days_in_def)
qed

lemma civil_of_days_range:
  assumes "civil_of_days d = (y, m, k)"
  shows "1 \<le> m" "m \<le> 12" "1 \<le> k" "k \<le> days_in (is_leap y) m" "days_of_civil y m k = d"
proof -
  obtain yday where yy: "year_yday d = (y, yday)" and m: "m = month_of (is_leap y) yday"
    and k: "k = yday - days_before_month (is_leap y) m + 1"
    using assms by (auto simp: civil_of_days_def Let_def split: prod.splits)
  note r = year_yday_range [OF yy]
  note mi = month_of_inverse [OF r(2,3)]
  show "1 \<le> m" "m \<le> 12" unfolding m by (rule month_of_range)+
  show "1 \<le> k" "k \<le> days_in (is_leap y) m" using mi unfolding k m by linarith+
  show "days_of_civil y m k = d" using r(1) by (simp add: days_of_civil_def k)
qed

section \<open>Formatting\<close>

text \<open>\<open>appendInt\<close>: decimal, zero-padded to a width.\<close>

definition appendInt :: "nat \<Rightarrow> int \<Rightarrow> string" where
  "appendInt width x =
     (if x < 0 then ''-'' else []) @
     (if \<bar>x\<bar> < 10 ^ width then map digit_char (ndigits width \<bar>x\<bar>) else dec (nat \<bar>x\<bar>))"

text \<open>\<open>appendNano\<close> for \<open>.999999999\<close>: nine digits without trailing zeros, no point when all are zero.\<close>

definition trim_zeros :: "int list \<Rightarrow> int list" where
  "trim_zeros ds = rev (dropWhile (\<lambda>d. d = 0) (rev ds))"

definition appendNano :: "int \<Rightarrow> string" where
  "appendNano ns =
     (let ds = trim_zeros (ndigits 9 ns)
      in if ds = [] then [] else CHR ''.'' # map digit_char ds)"

text \<open>\<open>t.UTC().Format(time.RFC3339Nano)\<close>\<close>

definition FormatTime :: "gotime \<Rightarrow> string" where
  "FormatTime t =
     (let days = t div (24 * hour); (y, m, d) = civil_of_days days;
          secs = t div second mod 86400; ns = t mod second
      in appendInt 4 y @ ''-'' @ appendInt 2 m @ ''-'' @ appendInt 2 d @ ''T'' @
         appendInt 2 (secs div 3600) @ '':'' @ appendInt 2 (secs div 60 mod 60) @ '':'' @
         appendInt 2 (secs mod 60) @ appendNano ns @ ''Z'')"

section \<open>Parsing\<close>

text \<open>
  \<open>time.Parse\<close> with the layouts \<open>RFC3339\<close> and \<open>RFC3339Nano\<close>, which accept the same texts: the
  hour may have one digit, a fraction of a second may follow either layout with a point or a
  comma and is cut to nine digits, and the zone is \<open>Z\<close> or a signed \<open>hh:mm\<close>.
\<close>

definition getnum :: "nat \<Rightarrow> string \<Rightarrow> (int \<times> string) option" where
  "getnum k s =
     (if k \<le> length s \<and> list_all is_digit (take k s)
      then Some (dval (map digit_int (take k s)), drop k s) else None)"

definition skip_char :: "char \<Rightarrow> string \<Rightarrow> string option" where
  "skip_char c s = (case s of [] \<Rightarrow> None | a # s' \<Rightarrow> if a = c then Some s' else None)"

definition parse_hour :: "string \<Rightarrow> (int \<times> string) option" where
  "parse_hour s = (case getnum 2 s of Some r \<Rightarrow> Some r | None \<Rightarrow> getnum 1 s)"

definition parse_frac :: "string \<Rightarrow> int \<times> string" where
  "parse_frac s =
     (case s of
        p # d # r \<Rightarrow>
          if (p = CHR ''.'' \<or> p = CHR '','') \<and> is_digit d then
            (let ds = take 9 (takeWhile is_digit (d # r))
             in (dval (map digit_int ds) * 10 ^ (9 - length ds), dropWhile is_digit (d # r)))
          else (0, s)
      | _ \<Rightarrow> (0, s))"

text \<open>The zone offset in seconds, of the whole rest of the text.\<close>

definition parse_zone :: "string \<Rightarrow> int option" where
  "parse_zone s =
     (if s = ''Z'' then Some 0
      else (case s of
        [] \<Rightarrow> None
      | sign # r \<Rightarrow>
          Option.bind (getnum 2 r) (\<lambda>(hh, r). Option.bind (skip_char CHR '':'' r) (\<lambda>r.
          Option.bind (getnum 2 r) (\<lambda>(mm, r).
            if r = [] \<and> hh \<le> 24 \<and> mm \<le> 60 then
              (if sign = CHR ''+'' then Some ((hh * 60 + mm) * 60)
               else if sign = CHR ''-'' then Some (- ((hh * 60 + mm) * 60)) else None)
            else None)))))"

definition time_Parse :: "string \<Rightarrow> gotime option" where
  "time_Parse s =
     Option.bind (getnum 4 s) (\<lambda>(y, s). Option.bind (skip_char CHR ''-'' s) (\<lambda>s.
     Option.bind (getnum 2 s) (\<lambda>(m, s). Option.bind (skip_char CHR ''-'' s) (\<lambda>s.
     Option.bind (getnum 2 s) (\<lambda>(d, s). Option.bind (skip_char CHR ''T'' s) (\<lambda>s.
     Option.bind (parse_hour s) (\<lambda>(hh, s). Option.bind (skip_char CHR '':'' s) (\<lambda>s.
     Option.bind (getnum 2 s) (\<lambda>(mi, s). Option.bind (skip_char CHR '':'' s) (\<lambda>s.
     Option.bind (getnum 2 s) (\<lambda>(se, s).
       let (ns, s) = parse_frac s in Option.bind (parse_zone s) (\<lambda>off.
         if 1 \<le> m \<and> m \<le> 12 \<and> 1 \<le> d \<and> d \<le> days_in (is_leap y) m
            \<and> hh < 24 \<and> mi < 60 \<and> se < 60
         then Some ((days_of_civil y m d * 86400 + hh * 3600 + mi * 60 + se - off) * second + ns)
         else None))))))))))))"

text \<open>The text of Go's \<open>ParseError\<close> after the quoted value is not reproduced.\<close>

definition ParseTime :: "string \<Rightarrow> go_error + gotime" where
  "ParseTime s =
     (case time_Parse s of
        None \<Rightarrow> Inl (Wrapped (''could not parse timestamp '' @ strconv_Quote s)
                      (Plain (''parsing time '' @ strconv_Quote s)))
      | Some t \<Rightarrow> Inr t)"


section \<open>The text round trip\<close>

text \<open>The instants whose UTC year has four digits: what the stored text can represent.\<close>

definition four_digit_year :: "gotime \<Rightarrow> bool" where
  "four_digit_year t \<longleftrightarrow> (case civil_of_days (t div (24 * hour)) of (y, m, d) \<Rightarrow> 0 \<le> y \<and> y \<le> 9999)"

lemma map_digit_int_char:
  "(\<And>x. x \<in> set ds \<Longrightarrow> 0 \<le> x \<and> x < 10) \<Longrightarrow> map (digit_int \<circ> digit_char) ds = ds"
  by (induction ds) (auto simp: digit_char_digit)

lemma list_all_digit_char:
  "(\<And>x. x \<in> set ds \<Longrightarrow> 0 \<le> x \<and> x < 10) \<Longrightarrow> list_all is_digit (map digit_char ds)"
  by (auto simp: list_all_iff digit_char_digit)

lemma getnum_appendInt:
  "0 \<le> x \<Longrightarrow> x < 10 ^ k \<Longrightarrow> getnum k (appendInt k x @ s) = Some (x, s)"
  using ndigits_range [of _ k x]
  by (simp add: getnum_def appendInt_def list_all_digit_char map_digit_int_char dval_ndigits)

lemma skip_char_Cons [simp]: "skip_char c (c # s) = Some s"
  by (simp add: skip_char_def)

lemma parse_hour_appendInt: "0 \<le> x \<Longrightarrow> x < 100 \<Longrightarrow> parse_hour (appendInt 2 x @ s) = Some (x, s)"
  by (simp add: parse_hour_def getnum_appendInt)

lemma trim_zeros_replicate: "\<exists>k. ds = trim_zeros ds @ replicate k 0"
proof (induction ds rule: rev_induct)
  case (snoc d ds)
  show ?case
  proof (cases "d = 0")
    case True
    from snoc obtain k where "ds = trim_zeros ds @ replicate k 0" by blast
    then have "ds @ [0] = trim_zeros ds @ replicate (Suc k) 0"
      by (metis append.assoc replicate_Suc replicate_append_same)
    moreover have "trim_zeros (ds @ [0]) = trim_zeros ds" by (simp add: trim_zeros_def)
    ultimately have "ds @ [d] = trim_zeros (ds @ [d]) @ replicate (Suc k) 0"
      using True by metis
    then show ?thesis by blast
  qed (auto simp: trim_zeros_def intro: exI [of _ 0])
qed (simp add: trim_zeros_def)

lemma set_trim_zeros: "x \<in> set (trim_zeros ds) \<Longrightarrow> x \<in> set ds"
  using set_dropWhileD [of x "\<lambda>d. d = 0" "rev ds"] by (simp add: trim_zeros_def)

lemma dval_trim_zeros:
  "dval (trim_zeros ds) * 10 ^ (length ds - length (trim_zeros ds)) = dval ds"
  "length (trim_zeros ds) \<le> length ds"
proof -
  obtain k where k: "ds = trim_zeros ds @ replicate k 0" using trim_zeros_replicate by blast
  then have "length ds = length (trim_zeros ds) + k" by (metis length_append length_replicate)
  moreover from k have "dval ds = dval (trim_zeros ds) * 10 ^ k" by (metis dval_zeros)
  ultimately show "dval (trim_zeros ds) * 10 ^ (length ds - length (trim_zeros ds)) = dval ds"
    "length (trim_zeros ds) \<le> length ds" by simp_all
qed

lemma takeWhile_digits:
  assumes "list_all is_digit ds" "\<not> is_digit c"
  shows "takeWhile is_digit (ds @ c # s) = ds" "dropWhile is_digit (ds @ c # s) = c # s"
  using assms by (simp_all add: list_all_iff takeWhile_append2 dropWhile_append2)

lemma parse_frac_appendNano:
  assumes "0 \<le> ns" "ns < second"
  shows "parse_frac (appendNano ns @ ''Z'') = (ns, ''Z'')"
proof -
  define ds where "ds = trim_zeros (ndigits 9 ns)"
  have rng: "0 \<le> x \<and> x < 10" if "x \<in> set ds" for x
    using that ndigits_range [of x 9 ns] set_trim_zeros by (auto simp: ds_def)
  have val: "dval ds * 10 ^ (9 - length ds) = ns" and len: "length ds \<le> 9"
    using dval_trim_zeros [of "ndigits 9 ns"] assms by (simp_all add: ds_def dval_ndigits second_def)
  have an: "appendNano ns = (if ds = [] then [] else CHR ''.'' # map digit_char ds)"
    by (simp add: appendNano_def ds_def Let_def)
  show ?thesis
  proof (cases ds)
    case Nil
    with an val have "appendNano ns = []" "ns = 0" by simp_all
    then show ?thesis by (simp add: parse_frac_def)
  next
    case (Cons e es)
    have "list_all is_digit (map digit_char es)" using rng Cons by (intro list_all_digit_char) auto
    moreover have "\<not> is_digit CHR ''Z''" by (simp add: is_digit_def)
    ultimately have tw: "takeWhile is_digit (map digit_char es @ ''Z'') = map digit_char es"
      "dropWhile is_digit (map digit_char es @ ''Z'') = ''Z''"
      by (rule takeWhile_digits)+
    have "is_digit (digit_char e)" using rng [of e] Cons by (simp add: digit_char_digit)
    moreover have "map (digit_int \<circ> digit_char) ds = ds" using rng by (rule map_digit_int_char)
    ultimately show ?thesis
      using tw Cons len val by (simp add: an parse_frac_def Let_def)
  qed
qed

lemma time_split:
  "t = (t div (24 * hour) * 86400 + (t div second mod 86400)) * second + t mod second"
proof -
  have "t div (24 * hour) = t div second div 86400"
    by (simp add: hour_def second_def zdiv_zmult2_eq [symmetric])
  then show ?thesis by simp
qed

lemma hms_split: "(s :: int) = s div 3600 * 3600 + s div 60 mod 60 * 60 + s mod 60"
proof -
  have "s div 60 div 60 = s div 3600" by (simp add: zdiv_zmult2_eq [symmetric])
  moreover have "s div 60 = s div 60 div 60 * 60 + s div 60 mod 60" "s = s div 60 * 60 + s mod 60"
    by simp_all
  ultimately show ?thesis by linarith
qed

lemma parse_format:
  assumes "four_digit_year t"
  shows "ParseTime (FormatTime t) = Inr t"
proof -
  define days where "days = t div (24 * hour)"
  define secs where "secs = t div second mod 86400"
  obtain y m d where c: "civil_of_days days = (y, m, d)" by (cases "civil_of_days days") auto
  note r = civil_of_days_range [OF c]
  have y: "0 \<le> y" "y \<le> 9999" using assms c by (simp_all add: four_digit_year_def days_def)
  have d: "d < 100" using r(4) by (auto simp: days_in_def split: if_splits)
  have secs: "0 \<le> secs" "secs < 86400" by (simp_all add: secs_def)
  have ns: "0 \<le> t mod second" "t mod second < second" by (simp_all add: second_def)
  have hms: "0 \<le> secs div 3600" "secs div 3600 < 24"
    using secs by (simp_all add: pos_imp_zdiv_nonneg_iff)
  have fmt: "FormatTime t = appendInt 4 y @ ''-'' @ appendInt 2 m @ ''-'' @ appendInt 2 d @ ''T'' @
         appendInt 2 (secs div 3600) @ '':'' @ appendInt 2 (secs div 60 mod 60) @ '':'' @
         appendInt 2 (secs mod 60) @ appendNano (t mod second) @ ''Z''"
    using c by (simp add: FormatTime_def days_def secs_def Let_def)
  have "time_Parse (FormatTime t) =
      Some ((days_of_civil y m d * 86400 + secs div 3600 * 3600 + secs div 60 mod 60 * 60 + secs mod 60)
             * second + t mod second)"
    using r y d hms parse_frac_appendNano [OF ns]
    by (simp add: fmt time_Parse_def getnum_appendInt parse_hour_appendInt parse_zone_def)
  also have "days_of_civil y m d * 86400 + secs div 3600 * 3600 + secs div 60 mod 60 * 60 + secs mod 60
      = days * 86400 + secs"
    using r(5) hms_split [of secs] by simp
  also have "(days * 86400 + secs) * second + t mod second = t"
    using time_split [of t] by (simp add: days_def secs_def)
  finally show ?thesis by (simp add: ParseTime_def)
qed

text \<open>
  C40: A timestamp stored by the program is read back as the same instant, to the nanosecond,
  whenever its UTC year has four digits. The repositories, the page cursor and the audit trail
  all rest on this round trip.
\<close>

theorem ParseTime_FormatTime: "four_digit_year t \<Longrightarrow> ParseTime (FormatTime t) = Inr t"
  by (rule parse_format)

theorem ParseTime_FormatTime_witness: "ParseTime (FormatTime (63871234567 * second + 500)) = Inr (63871234567 * second + 500)"
proof -
  have "four_digit_year (63871234567 * second + 500)" by code_simp
  then show ?thesis by (rule ParseTime_FormatTime)
qed

lemma digit_char_01: "digit_char 0 = CHR ''0''" "digit_char 1 = CHR ''1''"
  by code_simp+

lemma format_10000: "FormatTime (days_of_civil 10000 1 1 * (24 * hour)) = ''10000-01-01T00:00:00Z''"
proof -
  have "dec 10000 = ''10000''" by (simp add: dec.simps digit_char_01)
  then have "appendInt 2 1 = ''01''" "appendInt 2 0 = ''00''" "appendInt 4 10000 = ''10000''"
    by (simp_all add: appendInt_def numeral_2_eq_2 digit_char_01)
  moreover have "trim_zeros (ndigits 9 0) = []" by (simp add: trim_zeros_def numeral_eq_Suc)
  moreover have "civil_of_days (days_of_civil 10000 1 1) = (10000, 1, 1)" by code_simp
  ultimately show ?thesis by (simp add: FormatTime_def hour_def second_def appendNano_def)
qed

lemma parse_10000: "time_Parse ''10000-01-01T00:00:00Z'' = None"
  by code_simp

text \<open>
  A timestamp whose UTC year has five digits is formatted, so it can be stored, but the stored
  text does not parse: every later read of that row fails.
\<close>

theorem year_10000_unreadable:
  "\<exists>t. FormatTime t = ''10000-01-01T00:00:00Z'' \<and> (\<exists>e. ParseTime (FormatTime t) = Inl e)"
proof -
  have "\<exists>e. ParseTime ''10000-01-01T00:00:00Z'' = Inl e" by (simp add: ParseTime_def parse_10000)
  with format_10000 show ?thesis by metis
qed

text \<open>
  The stored form is not ordered like the instants: dropping the trailing zeros of the
  fraction puts an instant half a second later before the earlier one in byte order.
\<close>

theorem format_not_lexicographic:
  "\<exists>s t. s < t \<and> FormatTime s = ''2024-01-01T00:00:01Z'' \<and> FormatTime t = ''2024-01-01T00:00:01.5Z'' \<and>
     (of_char (FormatTime t ! 19) :: nat) < of_char (FormatTime s ! 19) \<and>
     take 19 (FormatTime s) = take 19 (FormatTime t)"
proof -
  let ?s = "(days_of_civil 2024 1 1 * 86400 + 1) * second"
  have "FormatTime ?s = ''2024-01-01T00:00:01Z''" by code_simp
  moreover have "FormatTime (?s + 500000000) = ''2024-01-01T00:00:01.5Z''" by code_simp
  ultimately have "?s < ?s + 500000000 \<and> FormatTime ?s = ''2024-01-01T00:00:01Z'' \<and>
      FormatTime (?s + 500000000) = ''2024-01-01T00:00:01.5Z'' \<and>
     (of_char (FormatTime (?s + 500000000) ! 19) :: nat) < of_char (FormatTime ?s ! 19) \<and>
     take 19 (FormatTime ?s) = take 19 (FormatTime (?s + 500000000))"
    by simp
  then show ?thesis by blast
qed

end
