(* ===== verification/ZonedTime.thy ===== *)
theory ZonedTime
  imports Times
begin

text \<open>
  Timestamps with the zone they were written in, as the batch client holds them between reading a
  file and building the request: the parse that keeps the offset, the format \<open>time.RFC3339\<close>, and
  what the server reads back from that text.
\<close>

text \<open>\<open>BuildRequest\<close> formats a time in the zone it was written in: the instant and the offset in seconds.\<close>

record Time =
  tm_Instant :: gotime
  tm_Offset :: int

definition zero_Time :: Time where
  "zero_Time = \<lparr>tm_Instant = 0, tm_Offset = 0\<rparr>"

text \<open>\<open>time.Parse(time.RFC3339, s)\<close>, keeping the offset.\<close>

definition time_ParseZoned :: "string \<Rightarrow> Time option" where
  "time_ParseZoned s =
     Option.bind (getnum 4 s) (\<lambda>(y, s). Option.bind (skip_char CHR ''-'' s) (\<lambda>s.
     Option.bind (getnum 2 s) (\<lambda>(m, s). Option.bind (skip_char CHR ''-'' s) (\<lambda>s.
     Option.bind (getnum 2 s) (\<lambda>(d, s). Option.bind (skip_char CHR ''T'' s) (\<lambda>s.
     Option.bind (parse_hour s) (\<lambda>(hh, s). Option.bind (skip_char CHR '':'' s) (\<lambda>s.
     Option.bind (getnum 2 s) (\<lambda>(mi, s). Option.bind (skip_char CHR '':'' s) (\<lambda>s.
     Option.bind (getnum 2 s) (\<lambda>(se, s).
       let (ns, s) = parse_frac s in Option.bind (parse_zone s) (\<lambda>off.
         if 1 \<le> m \<and> m \<le> 12 \<and> 1 \<le> d \<and> d \<le> days_in (is_leap y) m
            \<and> hh < 24 \<and> mi < 60 \<and> se < 60
         then Some \<lparr>tm_Instant = (days_of_civil y m d * 86400 + hh * 3600 + mi * 60 + se - off) * second + ns,
                    tm_Offset = off\<rparr>
         else None))))))))))))"

lemma map_option_bind: "map_option f (Option.bind m g) = Option.bind m (\<lambda>x. map_option f (g x))"
  by (cases m) auto

lemma time_ParseZoned_instant: "map_option tm_Instant (time_ParseZoned s) = time_Parse s"
  unfolding time_ParseZoned_def time_Parse_def
  by (simp add: map_option_bind prod.case_distrib [of "map_option tm_Instant"] if_distrib [of "map_option tm_Instant"] Let_def
      cong: if_cong)

text \<open>\<open>t.Format(time.RFC3339)\<close>: local date and time without a fraction, then \<open>Z\<close> or the offset.\<close>

definition format_zone :: "int \<Rightarrow> string" where
  "format_zone off =
     (if off = 0 then ''Z''
      else (if off \<le> - 60 then ''-'' else ''+'') @ appendInt 2 (\<bar>off\<bar> div 60 div 60) @ '':'' @ appendInt 2 (\<bar>off\<bar> div 60 mod 60))"

definition time_FormatRFC3339 :: "Time \<Rightarrow> string" where
  "time_FormatRFC3339 t =
     (let local = tm_Instant t + tm_Offset t * second; days = local div (24 * hour); (y, m, d) = civil_of_days days;
          secs = local div second mod 86400
      in appendInt 4 y @ ''-'' @ appendInt 2 m @ ''-'' @ appendInt 2 d @ ''T'' @
         appendInt 2 (secs div 3600) @ '':'' @ appendInt 2 (secs div 60 mod 60) @ '':'' @
         appendInt 2 (secs mod 60) @ format_zone (tm_Offset t))"

section \<open>What the server reads back\<close>

lemma div_step:
  assumes "0 < (k :: int)" shows "y div k = (y - 1) div k + (if y mod k = 0 then 1 else 0)"
proof (cases "y mod k = 0")
  case True
  then have "y - 1 = k * (y div k - 1) + (k - 1)" using div_mult_mod_eq [of y k] by (simp add: algebra_simps)
  from int_div_pos_eq [OF this] assms True show ?thesis by simp
next
  case False
  then have "1 \<le> y mod k" "y mod k - 1 < k" using pos_mod_sign [OF assms, of y] pos_mod_bound [OF assms, of y] by linarith+
  moreover have "y - 1 = k * (y div k) + (y mod k - 1)" using div_mult_mod_eq [of y k] by (simp add: algebra_simps)
  ultimately show ?thesis using int_div_pos_eq [of "y - 1" k "y div k" "y mod k - 1"] False by simp
qed

lemma leap_sum:
  "(a :: int) = a' + (if p then 1 else 0) \<Longrightarrow> b = b' + (if q then 1 else 0) \<Longrightarrow> c = c' + (if r then 1 else 0) \<Longrightarrow>
   (q \<longrightarrow> p) \<Longrightarrow> (r \<longrightarrow> q) \<Longrightarrow>
   365 * y + a - b + c = 365 * (y - 1) + a' - b' + c' + (if p \<and> (\<not> q \<or> r) then 366 else 365)"
  by (cases p; cases q; cases r) (simp_all only: if_True if_False simp_thms, simp_all)

lemma leap_step: "days_before_year (y + 1) = days_before_year y + (if is_leap y then 366 else 365)"
proof -
  have "y mod 100 = 0 \<longrightarrow> y mod 4 = 0" using mod_mod_cancel [of 4 100 y] by auto
  moreover have "y mod 400 = 0 \<longrightarrow> y mod 100 = 0" using mod_mod_cancel [of 100 400 y] by auto
  ultimately have "365 * y + y div 4 - y div 100 + y div 400 = days_before_year y + (if is_leap y then 366 else 365)"
    unfolding days_before_year_def is_leap_def by (intro leap_sum div_step) simp_all
  then show ?thesis by (simp add: days_before_year_def [of "y + 1"])
qed

lemma days_before_year_mono: "y < y' \<Longrightarrow> days_before_year (y + 1) \<le> days_before_year y'"
proof (induction y' rule: int_gr_induct [where k = y])
  case (step i)
  then show ?case using leap_step [of i] by (auto split: if_splits)
qed simp_all

lemma day_of_year_bound:
  assumes "1 \<le> m" "m \<le> 12" "1 \<le> d" "d \<le> days_in leap m"
  shows "0 \<le> days_before_month leap m + d - 1" "days_before_month leap m + d - 1 < (if leap then 366 else 365)"
  using assms by (auto simp: days_before_month_def days_in_def split: if_splits)

lemma month_of_days:
  assumes "1 \<le> m" "m \<le> 12" "1 \<le> d" "d \<le> days_in leap m"
  shows "month_of leap (days_before_month leap m + d - 1) = m"
proof -
  have "m \<in> {1, 2, 3, 4, 5, 6, 7, 8, 9, 10, 11, 12}" using assms(1,2) by simp arith
  then show ?thesis using assms(3,4)
    by (elim insertE emptyE) (simp_all add: days_before_month_def days_in_def month_of_def Let_def split: if_splits)
qed

lemma civil_of_days_of_civil:
  assumes "1 \<le> m" "m \<le> 12" "1 \<le> d" "d \<le> days_in (is_leap y) m"
  shows "civil_of_days (days_of_civil y m d) = (y, m, d)"
proof -
  obtain y' m' d' where c: "civil_of_days (days_of_civil y m d) = (y', m', d')" by (metis prod.exhaust)
  note r = civil_of_days_range [OF c]
  note b = day_of_year_bound [OF assms] and b' = day_of_year_bound [OF r(1-4)]
  have "y = y'"
  proof (rule linorder_cases [of y y'])
    assume "y < y'"
    then show ?thesis using days_before_year_mono [of y y'] leap_step [of y] b b' r(5) by (simp add: days_of_civil_def split: if_splits)
  next
    assume "y' < y"
    then show ?thesis using days_before_year_mono [of y' y] leap_step [of y'] b b' r(5) by (simp add: days_of_civil_def split: if_splits)
  qed
  moreover have "m = m'"
    using month_of_days [OF assms] month_of_days [OF r(1-4)] r(5) calculation by (simp add: days_of_civil_def)
  ultimately show ?thesis using c r(5) by (simp add: days_of_civil_def)
qed

lemma getnum_bounds: "getnum k s = Some (n, s') \<Longrightarrow> 0 \<le> n \<and> n < 10 ^ k"
proof -
  assume *: "getnum k s = Some (n, s')"
  have "0 \<le> x \<and> x < 10" if "x \<in> set (map digit_int (take k s))" for x
    using * that by (auto simp: getnum_def list_all_iff is_digit_def digit_int_def split: if_splits)
  then have "0 \<le> dval (map digit_int (take k s)) \<and> dval (map digit_int (take k s)) < 10 ^ length (map digit_int (take k s))"
    by (rule dval_digits_bound)
  then show ?thesis using * by (auto simp: getnum_def min_def split: if_splits)
qed

lemma parse_hour_bounds: "parse_hour s = Some (n, s') \<Longrightarrow> 0 \<le> n"
  by (auto simp: parse_hour_def dest: getnum_bounds split: option.splits)

lemma parse_frac_bounds: "0 \<le> fst (parse_frac s)" "fst (parse_frac s) < second"
proof -
  have "0 \<le> dval (map digit_int ds) * 10 ^ (9 - length ds) \<and> dval (map digit_int ds) * 10 ^ (9 - length ds) < 10 ^ 9"
    if "list_all is_digit ds" "length ds \<le> 9" for ds
  proof -
    have "0 \<le> x \<and> x < 10" if "x \<in> set (map digit_int ds)" for x
      using that \<open>list_all is_digit ds\<close> by (auto simp: list_all_iff is_digit_def digit_int_def)
    then have b: "0 \<le> dval (map digit_int ds) \<and> dval (map digit_int ds) < 10 ^ length (map digit_int ds)"
      by (rule dval_digits_bound)
    then have "dval (map digit_int ds) * 10 ^ (9 - length ds) < 10 ^ length ds * 10 ^ (9 - length ds)" by simp
    also have "\<dots> = 10 ^ 9" using that(2) by (simp flip: power_add)
    finally show ?thesis using b by simp
  qed
  note bound = this
  have "list_all is_digit (take 9 (takeWhile is_digit r))" for r
    by (auto simp: list_all_iff dest!: in_set_takeD set_takeWhileD)
  then have digits: "0 \<le> dval (map digit_int (take 9 (takeWhile is_digit r))) * 10 ^ (9 - length (take 9 (takeWhile is_digit r))) \<and>
      dval (map digit_int (take 9 (takeWhile is_digit r))) * 10 ^ (9 - length (take 9 (takeWhile is_digit r))) < 10 ^ 9" for r
    by (intro bound) simp_all
  have "0 \<le> fst (parse_frac s) \<and> fst (parse_frac s) < second"
  proof (cases "\<exists>p d r. s = p # d # r \<and> (p = CHR ''.'' \<or> p = CHR '','') \<and> is_digit d")
    case True
    then obtain p d r where "s = p # d # r" "p = CHR ''.'' \<or> p = CHR '',''" "is_digit d" by blast
    then have "fst (parse_frac s) = (let ds = take 9 (takeWhile is_digit (d # r)) in dval (map digit_int ds) * 10 ^ (9 - length ds))"
      by (simp only: parse_frac_def list.case if_True simp_thms Let_def fst_conv)
    then show ?thesis using digits [of "d # r"] by (simp only: Let_def second_def, simp)
  next
    case False
    then have "parse_frac s = (0, s)" unfolding parse_frac_def by (auto split: list.split)
    then show ?thesis by (simp add: second_def)
  qed
  then show "0 \<le> fst (parse_frac s)" "fst (parse_frac s) < second" by simp_all
qed

definition zone_offset :: "int \<Rightarrow> bool" where
  "zone_offset off \<longleftrightarrow> (\<exists>q. off = 60 * q \<and> \<bar>q\<bar> \<le> 1500)"

lemma parse_zone_offset: "parse_zone s = Some off \<Longrightarrow> zone_offset off"
proof -
  have "zone_offset ((hh * 60 + mm) * 60) \<and> zone_offset (- ((hh * 60 + mm) * 60))"
    if "0 \<le> hh" "hh \<le> 24" "0 \<le> mm" "mm \<le> 60" for hh mm :: int
    unfolding zone_offset_def using that
    by (intro conjI exI [of _ "hh * 60 + mm"] exI [of _ "- (hh * 60 + mm)"]) (simp_all add: abs_le_iff)
  then show "parse_zone s = Some off \<Longrightarrow> zone_offset off"
    by (auto simp: parse_zone_def zone_offset_def [of 0] bind_eq_Some_conv dest!: getnum_bounds split: if_splits list.splits)
qed

lemma parse_zone_text:
  assumes "0 \<le> hh" "hh < 100" "0 \<le> mm" "mm \<le> 60"
  shows "parse_zone (c # appendInt 2 hh @ '':'' @ appendInt 2 mm) =
    (if hh \<le> 24 then (if c = CHR ''+'' then Some ((hh * 60 + mm) * 60)
       else if c = CHR ''-'' then Some (- ((hh * 60 + mm) * 60)) else None) else None)"
  using assms getnum_appendInt [of mm 2 "[]"] by (simp add: parse_zone_def getnum_appendInt)

lemma parse_format_zone:
  assumes "zone_offset off"
  shows "parse_frac (format_zone off) = (0, format_zone off)"
    "parse_zone (format_zone off) = (if \<bar>off\<bar> = 90000 then None else Some off)"
proof -
  obtain q where q: "off = 60 * q" "\<bar>q\<bar> \<le> 1500" using assms by (auto simp: zone_offset_def)
  have oq: "\<bar>off\<bar> div 60 = \<bar>q\<bar>" using q(1) by (simp add: abs_mult)
  have hm: "0 \<le> \<bar>q\<bar> div 60" "\<bar>q\<bar> div 60 < 100" "0 \<le> \<bar>q\<bar> mod 60" "\<bar>q\<bar> mod 60 \<le> 60"
    and q2: "\<bar>q\<bar> = \<bar>q\<bar> div 60 * 60 + \<bar>q\<bar> mod 60"
    using q(2) by (simp_all add: pos_imp_zdiv_nonneg_iff)
  have h24: "\<bar>q\<bar> div 60 \<le> 24 \<longleftrightarrow> \<bar>off\<bar> \<noteq> 90000" using q by (auto simp: abs_mult)
  show "parse_frac (format_zone off) = (0, format_zone off)"
    by (simp add: format_zone_def parse_frac_def split: list.split)
  show "parse_zone (format_zone off) = (if \<bar>off\<bar> = 90000 then None else Some off)"
  proof (cases "q = 0")
    case False
    then have "off \<le> - 60 \<longleftrightarrow> q < 0" "off \<noteq> 0" using q(1) by arith+
    then have "format_zone off = (if q < 0 then CHR ''-'' else CHR ''+'') # appendInt 2 (\<bar>q\<bar> div 60) @ '':'' @ appendInt 2 (\<bar>q\<bar> mod 60)"
      by (simp add: format_zone_def oq)
    moreover have "(\<bar>q\<bar> div 60 * 60 + \<bar>q\<bar> mod 60) * 60 = (if q < 0 then - off else off)"
      unfolding q2 [symmetric] using q(1) by simp
    ultimately show ?thesis by (simp only: parse_zone_text [OF hm] h24) simp
  qed (simp add: q format_zone_def parse_zone_def)
qed

lemma time_ParseZoned_parts:
  assumes "time_ParseZoned s = Some t"
  obtains y m d sod ns off where "0 \<le> y" "y < 10000" "1 \<le> m" "m \<le> 12" "1 \<le> d" "d \<le> days_in (is_leap y) m"
    "0 \<le> sod" "sod < 86400" "0 \<le> ns" "ns < second" "zone_offset off"
    "t = \<lparr>tm_Instant = (days_of_civil y m d * 86400 + sod - off) * second + ns, tm_Offset = off\<rparr>"
proof -
  from assms obtain y s1 m d s5 hh s7 mi s9 se s10 s11 s12 off where
    p: "getnum 4 s = Some (y, s1)" "parse_hour s5 = Some (hh, s7)" "getnum 2 s9 = Some (mi, s10)"
      "getnum 2 s11 = Some (se, s12)" "parse_zone (snd (parse_frac s12)) = Some off"
    and v: "1 \<le> m" "m \<le> 12" "1 \<le> d" "d \<le> days_in (is_leap y) m" "hh < 24" "mi < 60" "se < 60"
    and t: "t = \<lparr>tm_Instant = (days_of_civil y m d * 86400 + hh * 3600 + mi * 60 + se - off) * second + fst (parse_frac s12), tm_Offset = off\<rparr>"
    unfolding time_ParseZoned_def bind_eq_Some_conv case_prod_unfold Let_def by (auto split: if_splits)
  note bounds = getnum_bounds [OF p(1)] parse_hour_bounds [OF p(2)] getnum_bounds [OF p(3)] getnum_bounds [OF p(4)]
    parse_frac_bounds [of s12] parse_zone_offset [OF p(5)]
  show thesis
    by (rule that [of y m d "hh * 3600 + mi * 60 + se" "fst (parse_frac s12)" off])
      (use bounds v t in \<open>simp_all add: add.assoc\<close>)
qed

lemma time_Parse_text:
  assumes "0 \<le> y" "y < 10000" "1 \<le> m" "m \<le> 12" "1 \<le> d" "d \<le> days_in (is_leap y) m" "0 \<le> sod" "sod < 86400" "zone_offset off"
  shows "time_Parse (appendInt 4 y @ ''-'' @ appendInt 2 m @ ''-'' @ appendInt 2 d @ ''T'' @
      appendInt 2 (sod div 3600) @ '':'' @ appendInt 2 (sod div 60 mod 60) @ '':'' @ appendInt 2 (sod mod 60) @ format_zone off) =
    (if \<bar>off\<bar> = 90000 then None else Some ((days_of_civil y m d * 86400 + sod - off) * second))"
proof -
  have hms: "0 \<le> sod div 3600" "sod div 3600 < 24" using assms(7,8) by (simp_all add: pos_imp_zdiv_nonneg_iff)
  have "d < 100" using assms(6) by (auto simp: days_in_def split: if_splits)
  then show ?thesis
    using assms hms hms_split [of sod]
    by (simp add: time_Parse_def getnum_appendInt parse_hour_appendInt parse_format_zone)
qed

lemma time_of_day:
  assumes "0 \<le> sod" "sod < 86400" "0 \<le> ns" "ns < second"
  shows "((days * 86400 + sod) * second + ns) div (24 * hour) = days"
    "((days * 86400 + sod) * second + ns) div second mod 86400 = sod"
    "((days * 86400 + sod) * second + ns) mod second = ns"
proof -
  have s: "((days * 86400 + sod) * second + ns) div second = days * 86400 + sod"
    by (rule int_div_pos_eq [where r = ns]) (use assms(3,4) in \<open>simp_all add: second_def\<close>)
  then show "((days * 86400 + sod) * second + ns) div second mod 86400 = sod" using assms(1,2) by simp
  have h: "24 * hour = second * 86400" by (simp add: hour_def)
  show "((days * 86400 + sod) * second + ns) div (24 * hour) = days"
    unfolding h zdiv_zmult2_eq [of 86400 _ second, simplified] s using assms(1,2) by simp
  show "((days * 86400 + sod) * second + ns) mod second = ns" using assms(3,4) by simp
qed

lemma read_back:
  assumes "time_ParseZoned s = Some t"
  shows "time_Parse (time_FormatRFC3339 t) =
    (if \<bar>tm_Offset t\<bar> = 90000 then None else Some (tm_Instant t - tm_Instant t mod second))"
  using assms
proof (rule time_ParseZoned_parts)
  fix y m d sod ns off
  assume v: "0 \<le> y" "y < 10000" "1 \<le> m" "m \<le> 12" "1 \<le> d" "d \<le> days_in (is_leap y) m"
    and sod: "0 \<le> sod" "sod < 86400" and ns: "0 \<le> ns" "ns < second" and off: "zone_offset off"
    and t: "t = \<lparr>tm_Instant = (days_of_civil y m d * 86400 + sod - off) * second + ns, tm_Offset = off\<rparr>"
  have loc: "tm_Instant t + tm_Offset t * second = (days_of_civil y m d * 86400 + sod) * second + ns"
    by (simp add: t algebra_simps)
  have fmt: "time_FormatRFC3339 t = appendInt 4 y @ ''-'' @ appendInt 2 m @ ''-'' @ appendInt 2 d @ ''T'' @
      appendInt 2 (sod div 3600) @ '':'' @ appendInt 2 (sod div 60 mod 60) @ '':'' @ appendInt 2 (sod mod 60) @ format_zone off"
    unfolding time_FormatRFC3339_def Let_def loc time_of_day [OF sod ns] civil_of_days_of_civil [OF v(3-6)]
    by (simp add: t)
  have "tm_Instant t mod second = ns" using ns by (simp add: t)
  then show ?thesis unfolding fmt time_Parse_text [OF v sod off] by (simp add: t)
qed

end
