(* ===== verification/StableSort.thy ===== *)
theory StableSort
  imports Prelude "HOL-Library.Multiset"
begin

text \<open>
  Stable sorting by a strict comparison, the contract of Go's \<open>sort.SliceStable\<close> and of an SQL
  \<open>ORDER BY\<close>: the result is a permutation, it has no inversion, and rows that the comparison
  does not separate keep their order. The locale \<open>stable_order\<close> states what is asked of the
  comparison (a strict weak order) and shows that these three facts determine the result, so any
  stable algorithm gives the list computed here.
\<close>

fun insert_by :: "('r \<Rightarrow> 'r \<Rightarrow> bool) \<Rightarrow> 'r \<Rightarrow> 'r list \<Rightarrow> 'r list" where
  "insert_by lt x [] = [x]"
| "insert_by lt x (y # ys) = (if lt y x then y # insert_by lt x ys else x # y # ys)"

primrec sort_SliceStable :: "('r \<Rightarrow> 'r \<Rightarrow> bool) \<Rightarrow> 'r list \<Rightarrow> 'r list" where
  "sort_SliceStable lt [] = []"
| "sort_SliceStable lt (x # xs) = insert_by lt x (sort_SliceStable lt xs)"

lemma mset_insert_by [simp]: "mset (insert_by lt x ys) = add_mset x (mset ys)"
  by (induction ys) auto

lemma mset_sort_SliceStable [simp]: "mset (sort_SliceStable lt xs) = mset xs"
  by (induction xs) auto

lemma set_sort_SliceStable [simp]: "set (sort_SliceStable lt xs) = set xs"
  by (metis mset_sort_SliceStable set_mset_mset)

lemma length_sort_SliceStable [simp]: "length (sort_SliceStable lt xs) = length xs"
  by (metis mset_sort_SliceStable size_mset)

locale stable_order =
  fixes lt :: "'r \<Rightarrow> 'r \<Rightarrow> bool"
  assumes irrefl: "\<not> lt x x"
    and trans: "lt x y \<Longrightarrow> lt y z \<Longrightarrow> lt x z"
    and incomparable: "\<not> lt x y \<Longrightarrow> \<not> lt y x \<Longrightarrow> lt x z \<Longrightarrow> lt y z"
begin

definition tied :: "'r \<Rightarrow> 'r \<Rightarrow> bool" where
  "tied x y \<longleftrightarrow> \<not> lt x y \<and> \<not> lt y x"

lemma asym: "lt y x \<Longrightarrow> \<not> lt x y"
  using trans irrefl by blast

lemma not_lt_trans: "\<not> lt y x \<Longrightarrow> \<not> lt z y \<Longrightarrow> \<not> lt z x"
  using irrefl trans incomparable by metis

lemma tied_equiv: "tied x x" "tied x y \<Longrightarrow> tied y x" "tied x y \<Longrightarrow> tied y z \<Longrightarrow> tied x z"
  using not_lt_trans by (auto simp: tied_def irrefl)

lemma sorted_insert_by:
  "sorted_wrt (\<lambda>a b. \<not> lt b a) ys \<Longrightarrow> sorted_wrt (\<lambda>a b. \<not> lt b a) (insert_by lt x ys)"
proof (induction ys)
  case (Cons y ys)
  have *: "set (insert_by lt x ys) = insert x (set ys)" by (metis mset_insert_by set_mset_add_mset_insert set_mset_mset)
  show ?case
  proof (cases "lt y x")
    case True
    then show ?thesis using Cons * asym by auto
  next
    case False
    then show ?thesis using Cons.prems not_lt_trans [OF False] by auto
  qed
qed simp

lemma sorted_sort: "sorted_wrt (\<lambda>a b. \<not> lt b a) (sort_SliceStable lt xs)"
  by (induction xs) (auto intro: sorted_insert_by)

lemma filter_insert_by:
  "filter (tied z) (insert_by lt x ys) = (if tied z x then x # filter (tied z) ys else filter (tied z) ys)"
  if "sorted_wrt (\<lambda>a b. \<not> lt b a) ys"
  using that
proof (induction ys)
  case (Cons y ys)
  have "\<not> tied z y" if "lt y x" "tied z x"
    using that tied_equiv by (metis tied_def)
  with Cons show ?case by auto
qed simp

lemma sort_stable: "filter (tied z) (sort_SliceStable lt xs) = filter (tied z) xs"
  by (induction xs) (simp_all add: filter_insert_by sorted_sort)

lemma sorted_head_min:
  assumes "sorted_wrt (\<lambda>a b. \<not> lt b a) (x # xs)" "y \<in> set (x # xs)" shows "\<not> lt y x"
  using assms irrefl by auto

lemma stable_unique:
  assumes "sorted_wrt (\<lambda>a b. \<not> lt b a) ys" "sorted_wrt (\<lambda>a b. \<not> lt b a) zs"
    and "\<And>z. filter (tied z) ys = filter (tied z) zs"
  shows "ys = zs"
  using assms
proof (induction ys arbitrary: zs)
  case Nil
  have "z \<notin> set zs" for z
    using Nil(3) [of z] tied_equiv(1) by (metis filter.simps(1) filter_empty_conv)
  then show ?case by (cases zs) auto
next
  case (Cons y ys)
  from Cons.prems(3) [of y] tied_equiv(1) have ys: "y # filter (tied y) ys = filter (tied y) zs" by simp
  then obtain z zs' where zs: "zs = z # zs'" by (cases zs) auto
  have "z \<in> set (filter (tied z) zs)" using tied_equiv(1) zs by simp
  then have mem: "z \<in> set (y # ys)" unfolding Cons.prems(3) [symmetric] by (simp only: set_filter mem_Collect_eq)
  have "y \<in> set (filter (tied y) zs)" unfolding ys [symmetric] by simp
  then have "y \<in> set zs" by (simp only: set_filter mem_Collect_eq)
  then have "\<not> lt y z" using Cons.prems(2) sorted_head_min unfolding zs by blast
  moreover have "\<not> lt z y" using mem Cons.prems(1) sorted_head_min by blast
  ultimately have "tied y z" by (simp add: tied_def)
  with ys zs have "y = z" by simp
  moreover have "ys = zs'"
  proof (rule Cons.IH)
    show "sorted_wrt (\<lambda>a b. \<not> lt b a) ys" "sorted_wrt (\<lambda>a b. \<not> lt b a) zs'"
      using Cons.prems zs by auto
    show "filter (tied w) ys = filter (tied w) zs'" for w
      using Cons.prems(3) [of w] zs \<open>y = z\<close> by (auto split: if_splits)
  qed
  ultimately show ?case using zs by simp
qed

lemma sort_determined:
  assumes "sorted_wrt (\<lambda>a b. \<not> lt b a) ys" "\<And>z. filter (tied z) ys = filter (tied z) xs"
  shows "ys = sort_SliceStable lt xs"
  by (rule stable_unique [OF assms(1) sorted_sort]) (simp only: assms(2) sort_stable)

lemma sort_idem: "sorted_wrt (\<lambda>a b. \<not> lt b a) xs \<Longrightarrow> sort_SliceStable lt xs = xs"
  by (rule sort_determined [symmetric]) simp_all

end

text \<open>A strict comparison of keys from a linear order is always such an order.\<close>

lemma stable_order_key: "stable_order (\<lambda>x y. (k x :: 'k :: linorder) < k y)"
  by unfold_locales auto

end
