(* ===== verification/Ingest.thy ===== *)
theory Ingest
  imports Csv ZonedTime StableSort
begin

text \<open>
  The batch client (\<open>cmd/cli/pkg/ingest\<close>): \<open>ParseCSV\<close> with the loop over the reader, \<open>SortRows\<close>,
  \<open>BuildRequest\<close>, \<open>Summarize\<close>, \<open>Format\<close>, and the counts of \<open>Preview\<close>. The loop of \<open>ParseCSV\<close>
  ends when the reader does, so it is a partial function into \<open>option\<close>; an index out of range is
  the outcome \<open>IndexPanic\<close>.
\<close>

section \<open>Rows\<close>

definition ExpectedHeader :: string where
  "ExpectedHeader = ''ref,account_id,kind,points,occurred_at''"

record Row =
  row_Line :: int
  row_Ref :: string
  row_AccountID :: string
  row_Kind :: string
  row_Points :: int64
  row_OccurredAt :: Time

record RowError =
  rer_Line :: int
  rer_Ref :: string
  rer_Reason :: string

datatype row_outcome = GoodRow Row | BadRow RowError | RowPanic

text \<open>The loop body once a record was read; every index is checked as Go checks it.\<close>

definition parse_record :: "int \<Rightarrow> string list \<Rightarrow> row_outcome" where
  "parse_record line record =
     (if length record \<le> 0 then RowPanic
      else let ref = record ! 0 in
      if length record \<le> 3 then RowPanic
      else (case strconv_ParseInt (strings_TrimSpace (record ! 3)) of
          None \<Rightarrow> BadRow \<lparr>rer_Line = line, rer_Ref = ref, rer_Reason = ''invalid points: '' @ strconv_Quote (record ! 3)\<rparr>
        | Some points \<Rightarrow>
          if length record \<le> 4 then RowPanic
          else let raw = strings_TrimSpace (record ! 4) in
          (case (if raw \<noteq> [] then time_ParseZoned raw else Some zero_Time) of
             None \<Rightarrow> BadRow \<lparr>rer_Line = line, rer_Ref = ref,
               rer_Reason = ''invalid occurred_at: '' @ strconv_Quote (record ! 4) @ '' (want RFC 3339)''\<rparr>
           | Some occurredAt \<Rightarrow>
               GoodRow \<lparr>row_Line = line, row_Ref = ref, row_AccountID = record ! 1, row_Kind = record ! 2,
                 row_Points = points, row_OccurredAt = occurredAt\<rparr>)))"

datatype parse_outcome = IndexPanic | ParseFailed string | Parsed "Row list" "RowError list"

partial_function (option) csv_loop :: "csv_reader \<Rightarrow> int \<Rightarrow> Row list \<Rightarrow> RowError list \<Rightarrow> parse_outcome option" where
  "csv_loop r line rows rowErrors =
     (case csv_Read r of (x, r) \<Rightarrow>
       (case x of
          EndOfFile \<Rightarrow> Some (Parsed rows rowErrors)
        | Malformed err \<Rightarrow>
            csv_loop r (line + 1) rows (rowErrors @ [\<lparr>rer_Line = line + 1, rer_Ref = [],
              rer_Reason = ''malformed row: '' @ csv_error_text err\<rparr>])
        | Record record \<Rightarrow>
            (case parse_record (line + 1) record of
               RowPanic \<Rightarrow> Some IndexPanic
             | BadRow e \<Rightarrow> csv_loop r (line + 1) rows (rowErrors @ [e])
             | GoodRow row \<Rightarrow> csv_loop r (line + 1) (rows @ [row]) rowErrors)))"

declare csv_loop.simps [code]

definition ParseCSV :: "string \<Rightarrow> string option \<Rightarrow> parse_outcome option" where
  "ParseCSV bytes failing =
     (case csv_Read (csv_NewReader bytes failing) of (x, r) \<Rightarrow>
       (case x of
          EndOfFile \<Rightarrow> Some (ParseFailed ''could not read CSV header: EOF'')
        | Malformed err \<Rightarrow> Some (ParseFailed (''could not read CSV header: '' @ csv_error_text err))
        | Record header \<Rightarrow>
            let got = strings_Join header '','' in
            if got \<noteq> ExpectedHeader then
              Some (ParseFailed (''invalid CSV header: got '' @ strconv_Quote got @ '', want '' @ strconv_Quote ExpectedHeader))
            else csv_loop r 0 [] []))"

section \<open>Sorting and the request\<close>

definition row_before :: "Row \<Rightarrow> Row \<Rightarrow> bool" where
  "row_before a b \<longleftrightarrow>
     (if tm_Instant (row_OccurredAt a) = tm_Instant (row_OccurredAt b) then row_Line a < row_Line b
      else Before (tm_Instant (row_OccurredAt a)) (tm_Instant (row_OccurredAt b)))"

definition SortRows :: "Row list \<Rightarrow> Row list" where
  "SortRows rows = sort_SliceStable row_before rows"

record transactionParams =
  tp_Ref :: string
  tp_AccountID :: string
  tp_Kind :: string
  tp_Points :: int64
  tp_OccurredAt :: string

record batchParams =
  bp_Transactions :: "transactionParams list"

record Request =
  rq_Version :: string
  rq_Method :: string
  rq_Params :: "batchParams list"
  rq_ID :: int

definition row_params :: "Row \<Rightarrow> transactionParams" where
  "row_params row =
     \<lparr>tp_Ref = row_Ref row, tp_AccountID = row_AccountID row, tp_Kind = row_Kind row, tp_Points = row_Points row,
      tp_OccurredAt = (if \<not> IsZero (tm_Instant (row_OccurredAt row)) then time_FormatRFC3339 (row_OccurredAt row) else [])\<rparr>"

definition BuildRequest :: "Row list \<Rightarrow> string \<Rightarrow> Request" where
  "BuildRequest rows names =
     \<lparr>rq_Version = ''2.0'', rq_Method = names, rq_Params = [\<lparr>bp_Transactions = map row_params rows\<rparr>], rq_ID = 1\<rparr>"

section \<open>The summary\<close>

record Rejection =
  rj_Line :: int
  rj_Ref :: string
  rj_Reason :: string

record Summary =
  sm_File :: string
  sm_Sent :: int
  sm_Accepted :: int
  sm_Duplicates :: int
  sm_Rejected :: int
  sm_LocalErrors :: int
  sm_Rejections :: "Rejection list"

record RPCError =
  rpe_Code :: int
  rpe_Message :: string

record Response =
  rsp_ID :: int
  rsp_Result :: string
  rsp_Error :: "RPCError option"

record batch_line =
  bl_Ref :: string
  bl_Status :: string
  bl_Reason :: string

record batchResult =
  br_Results :: "batch_line list"
  br_Accepted :: int
  br_Duplicate :: int
  br_Rejected :: int

definition lineByRef :: "Row list \<Rightarrow> string \<rightharpoonup> int" where
  "lineByRef rows = fold (\<lambda>row m. m(row_Ref row \<mapsto> row_Line row)) rows Map.empty"

text \<open>\<open>json_Unmarshal\<close> is the decoding of the result into \<open>batchResult\<close>.\<close>

definition Summarize ::
    "(string \<Rightarrow> string + batchResult) \<Rightarrow> string \<Rightarrow> Row list \<Rightarrow> RowError list \<Rightarrow> Response option \<Rightarrow> Summary" where
  "Summarize json_Unmarshal file rows localErrors response =
     (let summary = \<lparr>sm_File = file, sm_Sent = int (length rows), sm_Accepted = 0, sm_Duplicates = 0, sm_Rejected = 0,
            sm_LocalErrors = int (length localErrors),
            sm_Rejections = map (\<lambda>e. \<lparr>rj_Line = rer_Line e, rj_Ref = rer_Ref e, rj_Reason = rer_Reason e\<rparr>) localErrors\<rparr>;
          all_rejected = (\<lambda>reason. summary\<lparr>sm_Rejected := int (length rows),
            sm_Rejections := sm_Rejections summary @
              map (\<lambda>row. \<lparr>rj_Line = row_Line row, rj_Ref = row_Ref row, rj_Reason = reason\<rparr>) rows\<rparr>)
      in (case response of
            None \<Rightarrow> summary
          | Some resp \<Rightarrow>
            (case rsp_Error resp of
               Some err \<Rightarrow> all_rejected (rpe_Message err)
             | None \<Rightarrow>
               (case json_Unmarshal (rsp_Result resp) of
                  Inl err \<Rightarrow> all_rejected (''could not decode batch result: '' @ err)
                | Inr result \<Rightarrow>
                    summary\<lparr>sm_Accepted := br_Accepted result, sm_Duplicates := br_Duplicate result,
                      sm_Rejected := br_Rejected result,
                      sm_Rejections := sm_Rejections summary @
                        map (\<lambda>e. \<lparr>rj_Line = (case lineByRef rows (bl_Ref e) of Some n \<Rightarrow> n | None \<Rightarrow> 0),
                                  rj_Ref = bl_Ref e, rj_Reason = bl_Reason e\<rparr>)
                          (filter (\<lambda>e. bl_Status e = ''rejected'') (br_Results result))\<rparr>))))"

definition rejection_line :: "Rejection \<Rightarrow> string" where
  "rejection_line r = ''  row '' @ strconv_Itoa (rj_Line r) @ '' (ref '' @ (if rj_Ref r = [] then ''-'' else rj_Ref r) @
     ''): '' @ rj_Reason r @ [newline]"

text \<open>The three bytes are the UTF-8 encoding of the dash.\<close>

definition Summary_Format :: "Summary \<Rightarrow> bool \<Rightarrow> string" where
  "Summary_Format s dryRun =
     (if dryRun then ''DRY RUN '' @ [CHR 0xE2, CHR 0x80, CHR 0x94] @ '' no changes written'' @ [newline] else []) @
     ''file:         '' @ sm_File s @ [newline] @
     (if dryRun then ''rows to send: '' @ strconv_Itoa (sm_Sent s) @ [newline]
      else ''processed:    '' @ strconv_Itoa (sm_Sent s) @ [newline] @
           ''accepted:     '' @ strconv_Itoa (sm_Accepted s) @ [newline] @
           ''duplicates:   '' @ strconv_Itoa (sm_Duplicates s) @ [newline] @
           ''rejected:     '' @ strconv_Itoa (sm_Rejected s) @ [newline]) @
     (if sm_LocalErrors s > 0 then ''local errors: '' @ strconv_Itoa (sm_LocalErrors s) @ [newline] else []) @
     (if sm_Rejections s \<noteq> [] then [newline] @ ''rejections:'' @ [newline] @ concat (map rejection_line (sm_Rejections s)) else [])"

section \<open>The counts of the preview\<close>

definition signedPoints :: "Row \<Rightarrow> string" where
  "signedPoints row = (if row_Kind row = ''spend'' then ''-'' else ''+'') @ strconv_Itoa (sint (row_Points row))"

record breakdown =
  bd_Accounts :: "string list"
  bd_EarnCount :: int
  bd_SpendCount :: int
  bd_Stamped :: int
  bd_EarnPts :: int64
  bd_SpendPts :: int64
  bd_RefCounts :: "string \<rightharpoonup> int"

text \<open>The set of accounts as a list without repetitions.\<close>

definition count_row :: "Row \<Rightarrow> breakdown \<Rightarrow> breakdown" where
  "count_row row b =
     (let b = b\<lparr>bd_Accounts := List.insert (row_AccountID row) (bd_Accounts b),
            bd_RefCounts := (bd_RefCounts b)(row_Ref row \<mapsto> (case bd_RefCounts b (row_Ref row) of Some n \<Rightarrow> n | None \<Rightarrow> 0) + 1)\<rparr>;
          b = (if IsZero (tm_Instant (row_OccurredAt row)) then b\<lparr>bd_Stamped := bd_Stamped b + 1\<rparr> else b)
      in if row_Kind row = ''spend''
         then b\<lparr>bd_SpendCount := bd_SpendCount b + 1, bd_SpendPts := bd_SpendPts b + row_Points row\<rparr>
         else b\<lparr>bd_EarnCount := bd_EarnCount b + 1, bd_EarnPts := bd_EarnPts b + row_Points row\<rparr>)"

definition count_rows :: "Row list \<Rightarrow> breakdown" where
  "count_rows rows = fold count_row rows
     \<lparr>bd_Accounts = [], bd_EarnCount = 0, bd_SpendCount = 0, bd_Stamped = 0, bd_EarnPts = 0, bd_SpendPts = 0,
      bd_RefCounts = Map.empty\<rparr>"

text \<open>The refs that occur more than once, sorted.\<close>

definition dupRefs :: "Row list \<Rightarrow> string list" where
  "dupRefs rows =
     sort_SliceStable bytes_less
       (filter (\<lambda>ref. case bd_RefCounts (count_rows rows) ref of Some n \<Rightarrow> n > 1 | None \<Rightarrow> False) (remdups (map row_Ref rows)))"

definition Preview_breakdown :: "Row list \<Rightarrow> string" where
  "Preview_breakdown rows =
     (let b = count_rows rows; dups = dupRefs rows in
      [newline] @ ''batch breakdown:'' @ [newline] @
      ''  accounts:       '' @ strconv_Itoa (int (length (bd_Accounts b))) @ [newline] @
      ''  earns:          '' @ strconv_Itoa (bd_EarnCount b) @ ''  (+'' @ strconv_Itoa (sint (bd_EarnPts b)) @ '' pts)'' @ [newline] @
      ''  spends:         '' @ strconv_Itoa (bd_SpendCount b) @ ''  (-'' @ strconv_Itoa (sint (bd_SpendPts b)) @ '' pts)'' @ [newline] @
      (if bd_Stamped b > 0 then
         ''  server-stamped: '' @ strconv_Itoa (bd_Stamped b) @ ''  (blank occurred_at)'' @ [newline] else []) @
      (if dups \<noteq> [] then
         ''  duplicate refs: '' @ strconv_Itoa (int (length dups)) @ ''  ('' @ strings_Join dups '', '' @ '')'' @ [newline]
       else []))"


section \<open>The preview\<close>

text \<open>The table as it is written; \<open>tabwriter\<close> (of \<open>text/tabwriter\<close>) aligns its columns.\<close>

definition tab :: string where "tab = [CHR 0x09]"

definition preview_line :: "int \<Rightarrow> Row \<Rightarrow> string" where
  "preview_line i row =
     ''  '' @ strconv_Itoa i @ tab @ row_Ref row @ tab @ row_AccountID row @ tab @ row_Kind row @ tab @ signedPoints row @ tab @
     (if \<not> IsZero (tm_Instant (row_OccurredAt row)) then time_FormatRFC3339 (row_OccurredAt row) else ''(server-stamped)'') @ [newline]"

definition Preview :: "(string \<Rightarrow> string) \<Rightarrow> Row list \<Rightarrow> string" where
  "Preview tabwriter rows =
     [newline] @ ''apply order (server processes top to bottom):'' @ [newline] @
     tabwriter (''  #'' @ tab @ ''ref'' @ tab @ ''account_id'' @ tab @ ''kind'' @ tab @ ''points'' @ tab @ ''occurred_at'' @ [newline] @
       concat (map (\<lambda>(i, row). preview_line i row) (zip [1..int (length rows)] rows))) @
     Preview_breakdown rows"

section \<open>Sending the request\<close>

record http_post =
  post_URL :: string
  post_Body :: string
  post_Headers :: "(string \<times> string) list"

text \<open>
  The collaborators of \<open>Send\<close>: the JSON codec, the check of the URL, and the exchange over the
  network, which yields an error, or a status and a body that may break off with an error.
\<close>

record http_client =
  json_Marshal :: "Request \<Rightarrow> string + string"
  bad_URL :: "string \<Rightarrow> string option"
  client_Do :: "http_post \<Rightarrow> string + int \<times> (string + string)"
  json_Response :: "string \<Rightarrow> Response option"

definition Send :: "http_client \<Rightarrow> string \<Rightarrow> string \<Rightarrow> Request \<Rightarrow> string + Response" where
  "Send client url token request =
     (case json_Marshal client request of
        Inl err \<Rightarrow> Inl (''could not marshal request: '' @ err)
      | Inr body \<Rightarrow>
       (case bad_URL client url of
          Some err \<Rightarrow> Inl (''could not build request: '' @ err)
        | None \<Rightarrow>
         (case client_Do client \<lparr>post_URL = url, post_Body = body, post_Headers =
                  [(''Content-Type'', ''application/json'')] @
                  (if token \<noteq> [] then [(''Authorization'', ''Bearer '' @ token)] else [])\<rparr> of
            Inl err \<Rightarrow> Inl (''could not reach '' @ url @ '': '' @ err)
          | Inr (status, Inl err) \<Rightarrow> Inl (''could not read response: '' @ err)
          | Inr (status, Inr respBody) \<Rightarrow>
             (case json_Response client respBody of
                None \<Rightarrow> Inl (''unexpected response (HTTP '' @ strconv_Itoa status @ ''): '' @ respBody)
              | Some response \<Rightarrow> Inr response))))"

section \<open>The command\<close>

text \<open>\<open>filepath.Base\<close>: the last element of the path, without trailing slashes.\<close>

definition filepath_Base :: "string \<Rightarrow> string" where
  "filepath_Base path =
     (if path = [] then ''.''
      else let stripped = rev (dropWhile (\<lambda>c. c = CHR ''/'') (rev path)) in
        if stripped = [] then ''/'' else rev (takeWhile (\<lambda>c. c \<noteq> CHR ''/'') (rev stripped)))"

record ingest_flags =
  fl_Path :: string
  fl_DryRun :: bool
  fl_Method :: string
  fl_URL :: string
  fl_Token :: string

datatype ingest_result = Crash | Failure string | Output string

text \<open>
  \<open>os_Open\<close> yields an error or the bytes of the file with the read error that follows them, if any;
  \<open>json_Indent\<close> is \<open>json.MarshalIndent\<close>. A run that does not end is \<open>None\<close>.
\<close>

definition runIngest ::
    "(string \<Rightarrow> string + string \<times> string option) \<Rightarrow> (Request \<Rightarrow> string + string) \<Rightarrow> (string \<Rightarrow> string) \<Rightarrow>
     (string \<Rightarrow> string + batchResult) \<Rightarrow> http_client \<Rightarrow> ingest_flags \<Rightarrow> ingest_result option" where
  "runIngest os_Open json_Indent tabwriter json_Unmarshal client flags =
     (case os_Open (fl_Path flags) of
        Inl err \<Rightarrow> Some (Failure (''could not open '' @ fl_Path flags @ '': '' @ err))
      | Inr (bytes, failing) \<Rightarrow>
       (case ParseCSV bytes failing of
          None \<Rightarrow> None
        | Some IndexPanic \<Rightarrow> Some Crash
        | Some (ParseFailed err) \<Rightarrow> Some (Failure err)
        | Some (Parsed rows rowErrors) \<Rightarrow>
            let rows = SortRows rows; request = BuildRequest rows (fl_Method flags); base = filepath_Base (fl_Path flags) in
            Some (if fl_DryRun flags then
                (case json_Indent request of
                   Inl err \<Rightarrow> Failure (''could not encode request: '' @ err)
                 | Inr encoded \<Rightarrow> Output (encoded @ [newline] @
                     Summary_Format (Summarize json_Unmarshal base rows rowErrors None) True @ Preview tabwriter rows))
              else
                (case Send client (fl_URL flags) (fl_Token flags) request of
                   Inl err \<Rightarrow> Failure err
                 | Inr response \<Rightarrow>
                     Output (Summary_Format (Summarize json_Unmarshal base rows rowErrors (Some response)) False)))))"

end
