(* ===== verification/IngestProperties.thy ===== *)
theory IngestProperties
  imports Ingest "HOL-Library.Product_Lexorder"
begin

text \<open>
  The properties of the batch client. The loop of the parser is compared with a reference: the records the
  reader yields, malformed ones included, each judged on its own under its number. Parsing a complete file
  ends and accounts for every record; a failing reader and a short header are the exceptions. The order
  sent to the server does not depend on the order in the file; what the formatted timestamp keeps; and
  under which line the summary reports a ref that occurs twice.
\<close>

section \<open>Every record is accounted for\<close>

definition accounts_for :: "int \<Rightarrow> int \<Rightarrow> Row list \<Rightarrow> RowError list \<Rightarrow> bool" where
  "accounts_for a b rows errs \<longleftrightarrow> mset (map row_Line rows @ map rer_Line errs) = mset [a..b] \<and>
     sorted_wrt (<) (map row_Line rows) \<and> sorted_wrt (<) (map rer_Line errs)"

lemma accounts_for_lines: "accounts_for a b rows errs \<Longrightarrow> set (map row_Line rows) \<union> set (map rer_Line errs) = {a..b}"
  unfolding accounts_for_def by (metis set_append set_mset_mset set_upto)

lemma accounts_for_range:
  assumes "accounts_for a b rows errs"
  shows "row \<in> set rows \<Longrightarrow> a \<le> row_Line row \<and> row_Line row \<le> b" "e \<in> set errs \<Longrightarrow> a \<le> rer_Line e \<and> rer_Line e \<le> b"
  using accounts_for_lines [OF assms] by auto

lemma accounts_for_Nil: "accounts_for (n + 1) n [] []"
  by (simp add: accounts_for_def)

lemma accounts_for_row:
  assumes "accounts_for (n + 2) m rows errs" "row_Line row = n + 1" "n + 1 \<le> m"
  shows "accounts_for (n + 1) m (row # rows) errs"
proof -
  have "[n + 1..m] = (n + 1) # [n + 2..m]" using assms(3) by (simp add: upto_rec1 add.commute)
  moreover have "\<forall>l \<in> set (map row_Line rows). n + 1 < l" using accounts_for_range(1) [OF assms(1)] by force
  ultimately show ?thesis using assms(1,2) by (simp add: accounts_for_def)
qed

lemma accounts_for_error:
  assumes "accounts_for (n + 2) m rows errs" "rer_Line e = n + 1" "n + 1 \<le> m"
  shows "accounts_for (n + 1) m rows (e # errs)"
proof -
  have "[n + 1..m] = (n + 1) # [n + 2..m]" using assms(3) by (simp add: upto_rec1 add.commute)
  moreover have "\<forall>l \<in> set (map rer_Line errs). n + 1 < l" using accounts_for_range(2) [OF assms(1)] by force
  ultimately show ?thesis using assms(1,2) by (simp add: accounts_for_def)
qed

lemma parse_record_cases:
  "case parse_record n fs of GoodRow row \<Rightarrow> row_Line row = n | BadRow e \<Rightarrow> rer_Line e = n | RowPanic \<Rightarrow> length fs < 5"
  by (simp add: parse_record_def Let_def split: option.split)

lemma parse_record_line:
  "parse_record n fs = GoodRow row \<Longrightarrow> row_Line row = n"
  "parse_record n fs = BadRow e \<Longrightarrow> rer_Line e = n"
  "parse_record n fs = RowPanic \<Longrightarrow> length fs < 5"
  using parse_record_cases [of n fs] by simp_all

lemma parse_record_panics:
  "parse_record n fs = RowPanic \<longleftrightarrow> length fs < 4 \<or> length fs = 4 \<and> strconv_ParseInt (strings_TrimSpace (fs ! 3)) \<noteq> None"
  by (auto simp: parse_record_def Let_def split: option.split)

definition read_row :: "Row \<Rightarrow> bool" where
  "read_row row \<longleftrightarrow> row_OccurredAt row = zero_Time \<or> (\<exists>s. time_ParseZoned s = Some (row_OccurredAt row))"

lemma parse_record_read_row: "parse_record n fs = GoodRow row \<Longrightarrow> read_row row"
proof -
  have "case parse_record n fs of GoodRow row \<Rightarrow> read_row row | _ \<Rightarrow> True"
    by (auto simp: parse_record_def Let_def read_row_def split: option.split)
  then show "parse_record n fs = GoodRow row \<Longrightarrow> read_row row" by simp
qed

text \<open>
  The reference: everything the reader yields up to the end of a complete file, the malformed records
  included, and what each of them means on its own under its number.
\<close>

function csv_records :: "csv_reader \<Rightarrow> csv_read list" where
  "csv_records r =
     (if csv_Fail r \<noteq> None then []
      else (case csv_Read r of (x, r') \<Rightarrow> if x = EndOfFile then [] else x # csv_records r'))"
  by auto

termination
  by (relation "measure (\<lambda>r. length (csv_Rest r))") (auto dest: csv_Read_facts(2) [OF sym])

declare csv_records.simps [simp del]

definition file_records :: "string \<Rightarrow> csv_read list" where
  "file_records bytes = csv_records (snd (csv_Read (csv_NewReader bytes None)))"

definition judge :: "int \<Rightarrow> csv_read \<Rightarrow> row_outcome" where
  "judge line x =
     (case x of
        Record fs \<Rightarrow> parse_record line fs
      | Malformed err \<Rightarrow> BadRow \<lparr>rer_Line = line, rer_Ref = [], rer_Reason = ''malformed row: '' @ csv_error_text err\<rparr>
      | EndOfFile \<Rightarrow> RowPanic)"

definition judged :: "int \<Rightarrow> csv_read list \<Rightarrow> row_outcome list" where
  "judged n xs = map (\<lambda>(line, x). judge line x) (zip [n + 1..n + int (length xs)] xs)"

fun good_rows :: "row_outcome list \<Rightarrow> Row list" where
  "good_rows [] = []"
| "good_rows (GoodRow row # xs) = row # good_rows xs"
| "good_rows (_ # xs) = good_rows xs"

fun bad_rows :: "row_outcome list \<Rightarrow> RowError list" where
  "bad_rows [] = []"
| "bad_rows (BadRow e # xs) = e # bad_rows xs"
| "bad_rows (_ # xs) = bad_rows xs"

lemma judged_Nil [simp]: "judged n [] = []"
  by (simp add: judged_def)

lemma judged_Cons [simp]: "judged n (x # xs) = judge (n + 1) x # judged (n + 1) xs"
proof -
  have "[n + 1..n + int (length (x # xs))] = (n + 1) # [n + 1 + 1..n + 1 + int (length xs)]"
    by (simp add: upto_rec1 algebra_simps)
  then show ?thesis by (simp only: judged_def zip_Cons_Cons list.map prod.case)
qed

lemma judge_line: "judge n x = GoodRow row \<Longrightarrow> row_Line row = n \<and> read_row row" "judge n x = BadRow e \<Longrightarrow> rer_Line e = n"
  by (auto simp: judge_def parse_record_line parse_record_read_row split: csv_read.splits)

lemma judged_accounts:
  "RowPanic \<notin> set (judged n xs) \<Longrightarrow> accounts_for (n + 1) (n + int (length xs)) (good_rows (judged n xs)) (bad_rows (judged n xs)) \<and>
     list_all read_row (good_rows (judged n xs))"
proof (induction xs arbitrary: n)
  case Nil
  show ?case using accounts_for_Nil [of n] by simp
next
  case (Cons x xs)
  let ?out = "judged (n + 1) xs"
  have IH: "accounts_for (n + 2) (n + int (length (x # xs))) (good_rows ?out) (bad_rows ?out)" "list_all read_row (good_rows ?out)"
    using Cons.IH [of "n + 1"] Cons.prems by (simp_all add: algebra_simps)
  show ?case
  proof (cases "judge (n + 1) x")
    case (GoodRow row)
    then show ?thesis using accounts_for_row [OF IH(1)] judge_line(1) [OF GoodRow] IH(2) by simp
  next
    case (BadRow e)
    then show ?thesis using accounts_for_error [OF IH(1)] judge_line(2) [OF BadRow] IH(2) by simp
  next
    case RowPanic
    then show ?thesis using Cons.prems by simp
  qed
qed

text \<open>The loop of the code is the reference, on every complete file.\<close>

definition parse_result :: "row_outcome list \<Rightarrow> Row list \<Rightarrow> RowError list \<Rightarrow> parse_outcome" where
  "parse_result out rows errs = (if RowPanic \<in> set out then IndexPanic else Parsed (rows @ good_rows out) (errs @ bad_rows out))"

lemma csv_loop_records:
  "csv_Fail r = None \<Longrightarrow> csv_loop r n rows errs = Some (parse_result (judged n (csv_records r)) rows errs)"
proof (induction r arbitrary: n rows errs rule: csv_records.induct)
  case (1 r)
  obtain x r' where rd: "csv_Read r = (x, r')" by fastforce
  have r': "csv_Fail r' = None" using csv_Read_facts(1) [OF rd] 1(2) by simp
  show ?case
  proof (cases "x = EndOfFile")
    case True
    then show ?thesis using rd 1(2) by (simp add: csv_loop.simps csv_records.simps parse_result_def)
  next
    case False
    have rs: "csv_records r = x # csv_records r'" using rd False 1(2) by (simp add: csv_records.simps [of r])
    note IH = 1(1) [OF _ rd [symmetric] False r'] 
    have IH: "csv_loop r' (n + 1) rows' errs' = Some (parse_result (judged (n + 1) (csv_records r')) rows' errs')" for rows' errs'
      using IH 1(2) by simp
    show ?thesis
    proof (cases x)
      case (Record fs)
      then show ?thesis
        by (subst csv_loop.simps, cases "parse_record (n + 1) fs") (simp_all add: rd rs IH parse_result_def judge_def)
    next
      case (Malformed err)
      then show ?thesis by (subst csv_loop.simps) (simp add: rd rs IH parse_result_def judge_def)
    qed (use False in simp)
  qed
qed

lemma csv_records_width:
  "0 < csv_FieldsPerRecord r \<Longrightarrow> Record fs \<in> set (csv_records r) \<Longrightarrow> int (length fs) = csv_FieldsPerRecord r"
proof (induction r rule: csv_records.induct)
  case (1 r)
  obtain x r' where rd: "csv_Read r = (x, r')" by fastforce
  note f = csv_Read_facts(4,5) [OF rd]
  have ok: "csv_Fail r = None" "x \<noteq> EndOfFile" "Record fs = x \<or> Record fs \<in> set (csv_records r')"
    using 1(3) rd by (auto simp: csv_records.simps [of r] split: if_splits)
  show ?case using ok f 1(1) [OF _ rd [symmetric] ok(2)] 1(2) by auto
qed

lemma no_end_among_records: "EndOfFile \<notin> set (csv_records r)"
proof (induction r rule: csv_records.induct)
  case (1 r)
  then show ?case by (subst csv_records.simps) (auto split: prod.split)
qed

lemma ParseCSV_header:
  assumes "csv_Read (csv_NewReader bytes None) = (Record header, r)" "strings_Join header '','' = ExpectedHeader"
  shows "ParseCSV bytes None = Some (parse_result (judged 0 (file_records bytes)) [] [])" "file_records bytes = csv_records r"
    "csv_FieldsPerRecord r = int (length header)" "header \<noteq> []"
proof -
  note f = csv_Read_facts [OF assms(1)]
  have "csv_Fail r = None" using f(1) by (simp add: csv_NewReader_def)
  then show "ParseCSV bytes None = Some (parse_result (judged 0 (file_records bytes)) [] [])"
    using assms csv_loop_records [of r 0 "[]" "[]"] by (simp add: ParseCSV_def file_records_def)
  show "file_records bytes = csv_records r" using assms(1) by (simp add: file_records_def)
  show "csv_FieldsPerRecord r = int (length header)" "header \<noteq> []" using f(5) [of header] by (simp_all add: csv_NewReader_def)
qed

lemma ParseCSV_other_header:
  assumes "\<And>header r. csv_Read (csv_NewReader bytes None) = (Record header, r) \<Longrightarrow> strings_Join header '','' \<noteq> ExpectedHeader"
  shows "\<exists>m. ParseCSV bytes None = Some (ParseFailed m)"
  using assms by (auto simp: ParseCSV_def Let_def split: csv_read.splits prod.splits)

lemma ParseCSV_Parsed:
  assumes "ParseCSV bytes None = Some (Parsed rows errs)"
  shows "accounts_for 1 (int (length (file_records bytes))) rows errs" "list_all read_row rows"
proof -
  obtain header r where h: "csv_Read (csv_NewReader bytes None) = (Record header, r)" "strings_Join header '','' = ExpectedHeader"
    using ParseCSV_other_header [of bytes] assms by fastforce
  have out: "RowPanic \<notin> set (judged 0 (file_records bytes))" "rows = good_rows (judged 0 (file_records bytes))"
      "errs = bad_rows (judged 0 (file_records bytes))"
    using ParseCSV_header(1) [OF h] assms by (auto simp: parse_result_def split: if_splits)
  show "accounts_for 1 (int (length (file_records bytes))) rows errs" "list_all read_row rows"
    using judged_accounts [OF out(1)] out(2,3) by simp_all
qed

text \<open>
  C25: Parsing any complete file ends, with the outcome that its records have one by one. Behind the
  expected header, the rows are the records that read and the local errors all the others, the
  malformed ones included, each under its own number: together they have every number from 1 to the
  count of the records exactly once, and both are in file order. A record on which an index is out of
  range is a panic, and any other header an error.
\<close>

theorem parse_csv_accounts_for_every_record:
  "case csv_Read (csv_NewReader bytes None) of (first, r) \<Rightarrow>
     (case first of
        Record header \<Rightarrow>
          if strings_Join header '','' \<noteq> ExpectedHeader then \<exists>m. ParseCSV bytes None = Some (ParseFailed m)
          else (let out = judged 0 (csv_records r) in
            if RowPanic \<in> set out then ParseCSV bytes None = Some IndexPanic
            else ParseCSV bytes None = Some (Parsed (good_rows out) (bad_rows out)) \<and>
              mset (map row_Line (good_rows out) @ map rer_Line (bad_rows out)) = mset [1..int (length (csv_records r))] \<and>
              sorted_wrt (<) (map row_Line (good_rows out)) \<and> sorted_wrt (<) (map rer_Line (bad_rows out)))
      | _ \<Rightarrow> \<exists>m. ParseCSV bytes None = Some (ParseFailed m))"
proof (cases "\<exists>header r. csv_Read (csv_NewReader bytes None) = (Record header, r) \<and> strings_Join header '','' = ExpectedHeader")
  case True
  then obtain header r where h: "csv_Read (csv_NewReader bytes None) = (Record header, r)" "strings_Join header '','' = ExpectedHeader"
    by blast
  note out = ParseCSV_header [OF h]
  show ?thesis
    using out(1) judged_accounts [of 0 "csv_records r"] by (simp add: h out(2) parse_result_def accounts_for_def Let_def)
next
  case False
  then show ?thesis using ParseCSV_other_header [of bytes] by (auto split: prod.split csv_read.split)
qed

section \<open>A reader that fails\<close>

lemma csv_loop_failing:
  "csv_loop r n rows errs = Some out \<Longrightarrow> csv_Fail r = None \<or> csv_FieldsPerRecord r < 5"
proof (rule csv_loop.raw_induct [where P = "\<lambda>r n rows errs out. csv_Fail r = None \<or> csv_FieldsPerRecord r < 5"])
  fix loop r n rows errs out
  assume IH: "\<And>r n rows errs out. loop r n rows errs = Some out \<Longrightarrow> csv_Fail r = None \<or> csv_FieldsPerRecord r < 5"
    and eq: "(case csv_Read r of (EndOfFile, r) \<Rightarrow> Some (Parsed rows errs)
      | (Record fs, r) \<Rightarrow> (case parse_record (n + 1) fs of
            GoodRow row \<Rightarrow> loop r (n + 1) (rows @ [row]) errs
          | BadRow e \<Rightarrow> loop r (n + 1) rows (errs @ [e])
          | RowPanic \<Rightarrow> Some IndexPanic)
      | (Malformed err, r) \<Rightarrow> loop r (n + 1) rows (errs @ [\<lparr>rer_Line = n + 1, rer_Ref = [],
            rer_Reason = ''malformed row: '' @ csv_error_text err\<rparr>])) = Some out"
  obtain x r' where rd: "csv_Read r = (x, r')" by fastforce
  note f = csv_Read_facts [OF rd]
  show "csv_Fail r = None \<or> csv_FieldsPerRecord r < 5"
  proof (rule ccontr)
    assume neg: "\<not> (csv_Fail r = None \<or> csv_FieldsPerRecord r < 5)"
    then have r': "\<not> (csv_Fail r' = None \<or> csv_FieldsPerRecord r' < 5)" using f(1,4) by simp
    have stuck: "loop r' n' rows' errs' \<noteq> Some out" for n' rows' errs' using IH r' by blast
    have width: "5 \<le> length fs" if "x = Record fs" for fs using f(5) [of fs] that neg r' by simp
    show False
    proof (cases x)
      case EndOfFile
      then show ?thesis using f(3) neg by simp
    next
      case (Malformed err)
      then show ?thesis using eq rd stuck by simp
    next
      case (Record fs)
      then show ?thesis using eq rd stuck parse_record_line(3) [of "n + 1" fs] width
        by (cases "parse_record (n + 1) fs") simp_all
    qed
  qed
qed

text \<open>A file that starts with the plain header: the loop starts behind it.\<close>

lemma ParseCSV_after_header:
  obtains r where "ParseCSV (ExpectedHeader @ newline # bytes) failing = csv_loop r 0 [] []" "csv_Fail r = failing"
    "csv_FieldsPerRecord r = 5" "csv_Rest r = bytes"
proof -
  let ?fs = "[''ref'', ''account_id'', ''kind'', ''points'', ''occurred_at'']"
  let ?r = "csv_NewReader (ExpectedHeader @ newline # bytes) failing"
  have join: "strings_Join ?fs [comma] = ExpectedHeader" by (simp add: ExpectedHeader_def comma_def)
  have "csv_Read ?r = (Record ?fs, ?r\<lparr>csv_NumLine := csv_NumLine ?r + 1, csv_Rest := bytes, csv_FieldsPerRecord := int (length ?fs)\<rparr>)"
    by (rule csv_Read_plain)
      (simp_all add: csv_NewReader_def join, simp_all add: ExpectedHeader_def plain_field_def dquote_def comma_def newline_def carriage_def)
  then have "ParseCSV (ExpectedHeader @ newline # bytes) failing = csv_loop
      (?r\<lparr>csv_NumLine := csv_NumLine ?r + 1, csv_Rest := bytes, csv_FieldsPerRecord := int (length ?fs)\<rparr>) 0 [] []"
    using join by (simp add: ParseCSV_def comma_def)
  then show thesis by (rule that) (simp_all add: csv_NewReader_def)
qed

text \<open>
  C27: A file whose reads start to fail after the header (an input/output error) makes the loop run
  for ever: no outcome, whatever had been read before. The code has no exit for an error that
  stays.
\<close>

theorem parse_csv_never_ends_on_read_error:
  "ParseCSV (ExpectedHeader @ newline # bytes) (Some m) = None"
proof -
  obtain r where r: "ParseCSV (ExpectedHeader @ newline # bytes) (Some m) = csv_loop r 0 [] []" "csv_Fail r = Some m"
    "csv_FieldsPerRecord r = 5"
    by (rule ParseCSV_after_header)
  then have "csv_loop r 0 [] [] = None" using csv_loop_failing [of r 0 "[]" "[]"] by (cases "csv_loop r 0 [] []") auto
  with r(1) show ?thesis by simp
qed

text \<open>
  C28: The header is compared after joining its fields, so a header with a quoted comma passes with
  fewer than five fields. Exactly then the program can crash with an index out of range: on the first
  record of that width that gets as far as the missing field. With four fields that is a record whose
  points are a number; with fewer, every well-formed record.
\<close>

theorem short_header_panics:
  assumes "csv_Read (csv_NewReader bytes None) = (Record header, r)" "strings_Join header '','' = ExpectedHeader"
  shows "ParseCSV bytes None = Some IndexPanic \<longleftrightarrow> length header < 5 \<and>
    (\<exists>fs. Record fs \<in> set (csv_records r) \<and>
      (length header = 4 \<longrightarrow> strconv_ParseInt (strings_TrimSpace (fs ! 3)) \<noteq> None))"
proof -
  note out = ParseCSV_header [OF assms]
  have width: "length fs = length header" if "Record fs \<in> set (csv_records r)" for fs
    using csv_records_width [OF _ that] out(3,4) by simp
  have "RowPanic \<in> set (judged n xs) \<longleftrightarrow> (\<exists>fs. Record fs \<in> set xs \<and>
      (length fs < 4 \<or> length fs = 4 \<and> strconv_ParseInt (strings_TrimSpace (fs ! 3)) \<noteq> None))"
    if "EndOfFile \<notin> set xs" for n xs
    using that
  proof (induction xs arbitrary: n)
    case (Cons x xs)
    then show ?case
      by (cases x) (auto simp: judge_def parse_record_panics eq_commute [of RowPanic])
  qed simp
  then have "ParseCSV bytes None = Some IndexPanic \<longleftrightarrow> (\<exists>fs. Record fs \<in> set (csv_records r) \<and>
      (length fs < 4 \<or> length fs = 4 \<and> strconv_ParseInt (strings_TrimSpace (fs ! 3)) \<noteq> None))"
    using no_end_among_records [of r] by (simp add: out(1,2) parse_result_def)
  moreover have "(length fs < 4 \<or> length fs = 4 \<and> P) \<longleftrightarrow> length header < 5 \<and> (length header = 4 \<longrightarrow> P)"
    if "Record fs \<in> set (csv_records r)" for fs P
    using width [OF that] by auto
  ultimately show ?thesis by blast
qed

definition quoted_header_file :: string where
  "quoted_header_file = [dquote] @ ''ref,account_id'' @ [dquote] @ '',kind,points,occurred_at'' @ [newline] @
     ''r1,acc,earn,5'' @ [newline]"

definition quoted_header_reader :: csv_reader where
  "quoted_header_reader = snd (csv_Read (csv_NewReader quoted_header_file None))"

theorem short_header_panics_witness: "ParseCSV quoted_header_file None = Some IndexPanic"
proof -
  let ?header = "[''ref,account_id'', ''kind'', ''points'', ''occurred_at'']" and ?fs = "[''r1'', ''acc'', ''earn'', ''5'']"
  have h: "csv_Read (csv_NewReader quoted_header_file None) = (Record ?header, quoted_header_reader)"
    unfolding quoted_header_reader_def by (rule prod_eqI) (code_simp, simp)
  have j: "strings_Join ?header '','' = ExpectedHeader" by code_simp
  have rd: "csv_Read quoted_header_reader = (Record ?fs, snd (csv_Read quoted_header_reader))"
    by (rule prod_eqI) (code_simp, simp)
  have "csv_Fail quoted_header_reader = None" by code_simp
  then have fs: "Record ?fs \<in> set (csv_records quoted_header_reader)"
    by (subst csv_records.simps) (subst rd, simp)
  have points: "strconv_ParseInt (strings_TrimSpace (?fs ! 3)) \<noteq> None" by code_simp
  show ?thesis unfolding short_header_panics [OF h j] by (intro conjI exI [of _ ?fs] fs impI points) simp
qed

section \<open>Plain files\<close>

definition plain_file :: "string list list \<Rightarrow> string" where
  "plain_file records = ExpectedHeader @ newline # concat (map (\<lambda>fs. strings_Join fs [comma] @ [newline]) records)"

definition plain_record :: "string list \<Rightarrow> bool" where
  "plain_record fs \<longleftrightarrow> length fs = 5 \<and> list_all plain_field fs"

lemma plain_record_read:
  assumes "plain_record fs" "csv_Rest r = (strings_Join fs [comma] @ [newline]) @ left" "csv_FieldsPerRecord r \<in> {0, 5}"
  shows "csv_Read r = (Record fs, r\<lparr>csv_NumLine := csv_NumLine r + 1, csv_Rest := left, csv_FieldsPerRecord := 5\<rparr>)"
proof -
  have len: "length fs = 5" and plain: "list_all plain_field fs" using assms(1) by (simp_all add: plain_record_def)
  obtain a b fs' where "fs = a # b # fs'" using len by (cases fs; cases "tl fs") auto
  then have "strings_Join fs [comma] \<noteq> []" "fs \<noteq> []" by simp_all
  from csv_Read_plain [OF _ plain this(2,1), of r left] assms(2,3) len show ?thesis by simp
qed

lemma csv_records_plain:
  "list_all plain_record records \<Longrightarrow> csv_Fail r = None \<Longrightarrow> csv_FieldsPerRecord r = 5 \<Longrightarrow>
   csv_Rest r = concat (map (\<lambda>fs. strings_Join fs [comma] @ [newline]) records) \<Longrightarrow> csv_records r = map Record records"
proof (induction records arbitrary: r)
  case Nil
  then have "fst (csv_Read r) = EndOfFile" by (simp add: csv_Read_end)
  then show ?case by (cases "csv_Read r") (simp add: csv_records.simps [of r])
next
  case (Cons fs records)
  let ?r = "r\<lparr>csv_NumLine := csv_NumLine r + 1,
      csv_Rest := concat (map (\<lambda>fs. strings_Join fs [comma] @ [newline]) records), csv_FieldsPerRecord := 5\<rparr>"
  have read: "csv_Read r = (Record fs, ?r)" by (rule plain_record_read) (use Cons.prems in simp_all)
  have "csv_records ?r = map Record records" by (rule Cons.IH) (use Cons.prems in simp_all)
  then show ?case using Cons.prems(2) by (subst csv_records.simps) (simp add: read)
qed

lemma plain_no_panic: "list_all plain_record records \<Longrightarrow> RowPanic \<notin> set (judged n (map Record records))"
  by (induction records arbitrary: n)
    (auto simp: plain_record_def judge_def parse_record_panics eq_commute [of RowPanic])

text \<open>
  In a file of plain records (five fields, no quote, comma or line break inside a field) every
  record is judged on its own: the rows are the records that parse, the local errors the others, each
  under its line number and in file order. No record can hide or change another.
\<close>

theorem plain_file_judged_by_record:
  assumes "list_all plain_record records"
  shows "ParseCSV (plain_file records) None =
    Some (Parsed (good_rows (judged 0 (map Record records))) (bad_rows (judged 0 (map Record records))))"
proof -
  obtain r where r: "ParseCSV (plain_file records) None = csv_loop r 0 [] []" "csv_Fail r = None"
    "csv_FieldsPerRecord r = 5" "csv_Rest r = concat (map (\<lambda>fs. strings_Join fs [comma] @ [newline]) records)"
    unfolding plain_file_def by (rule ParseCSV_after_header)
  show ?thesis unfolding r(1) csv_loop_records [OF r(2)] csv_records_plain [OF assms r(2-4)]
    using plain_no_panic [OF assms] by (simp add: parse_result_def)
qed

theorem plain_file_judged_by_record_witness:
  "ParseCSV (plain_file [[''r1'', ''a'', ''earn'', ''5'', []], [''r2'', ''a'', ''spend'', ''x'', []]]) None =
     Some (Parsed [\<lparr>row_Line = 1, row_Ref = ''r1'', row_AccountID = ''a'', row_Kind = ''earn'', row_Points = 5, row_OccurredAt = zero_Time\<rparr>]
       [\<lparr>rer_Line = 2, rer_Ref = ''r2'', rer_Reason = ''invalid points: '' @ strconv_Quote ''x''\<rparr>])"
proof -
  let ?records = "[[''r1'', ''a'', ''earn'', ''5'', []], [''r2'', ''a'', ''spend'', ''x'', []]]"
  have "list_all plain_record ?records"
    by (simp add: plain_record_def plain_field_def dquote_def comma_def newline_def carriage_def)
  moreover have "parse_record 1 [''r1'', ''a'', ''earn'', ''5'', []] = GoodRow \<lparr>row_Line = 1, row_Ref = ''r1'', row_AccountID = ''a'',
      row_Kind = ''earn'', row_Points = 5, row_OccurredAt = zero_Time\<rparr>"
    by code_simp
  moreover have "parse_record 2 [''r2'', ''a'', ''spend'', ''x'', []] =
      BadRow \<lparr>rer_Line = 2, rer_Ref = ''r2'', rer_Reason = ''invalid points: '' @ strconv_Quote ''x''\<rparr>"
    by code_simp
  ultimately show ?thesis using plain_file_judged_by_record [of ?records] by (simp add: judge_def)
qed

section \<open>The order sent to the server\<close>

lemma row_before_key:
  "row_before = (\<lambda>a b. (tm_Instant (row_OccurredAt a), row_Line a) < (tm_Instant (row_OccurredAt b), row_Line b))"
  by (intro ext) (auto simp: row_before_def Before_def)

interpretation rows: stable_order row_before
  unfolding row_before_key by (rule stable_order_key)

lemma rows_separated:
  assumes "distinct (map row_Line rs)" "a \<in> set rs" "b \<in> set rs" "\<not> row_before a b" "\<not> row_before b a"
  shows "a = b"
  using assms by (auto simp: row_before_key less_prod_def distinct_map dest: inj_onD)

lemma sorted_strictly:
  assumes "distinct (map row_Line rs)" "mset ys = mset rs"
  shows "sorted_wrt (\<lambda>a b. \<not> row_before b a) ys \<longleftrightarrow> sorted_wrt row_before ys"
proof -
  have "distinct (map row_Line ys)" using assms by (metis mset_eq_imp_distinct_iff mset_map)
  then show ?thesis
  proof (induction ys)
    case (Cons y ys)
    have "\<not> row_before z y \<longleftrightarrow> row_before y z" if "z \<in> set ys" for z
      using rows_separated [OF Cons.prems, of y z] Cons.prems that rows.asym by (auto simp: rev_image_eqI)
    with Cons show ?case by auto
  qed simp
qed

definition sample_row :: "int \<Rightarrow> int \<Rightarrow> Row" where
  "sample_row line instant = \<lparr>row_Line = line, row_Ref = ''r'', row_AccountID = ''a'', row_Kind = ''earn'', row_Points = 1,
     row_OccurredAt = \<lparr>tm_Instant = instant, tm_Offset = 0\<rparr>\<rparr>"

text \<open>
  For rows of one file (their lines differ) the order sent to the server is the only arrangement
  of those rows in ascending time, ties by line. It does not depend on the order in which they were
  passed, nor on how the sort works.
\<close>

theorem sort_rows_unique:
  assumes "distinct (map row_Line rs)"
  shows "mset ys = mset rs \<and> sorted_wrt row_before ys \<longleftrightarrow> ys = SortRows rs"
proof
  assume *: "mset ys = mset rs \<and> sorted_wrt row_before ys"
  let ?k = "\<lambda>row. (tm_Instant (row_OccurredAt row), row_Line row)"
  have keys: "sorted_wrt (<) (map ?k xs)" if "sorted_wrt row_before xs" for xs
    using that by (simp add: sorted_wrt_map row_before_key)
  have sets: "set ys = set rs" using * by (metis set_mset_mset)
  have "sorted_wrt row_before (SortRows rs)"
    using sorted_strictly [OF assms, of "SortRows rs"] rows.sorted_sort [of rs] by (simp add: SortRows_def)
  then have "map ?k ys = map ?k (SortRows rs)"
    by (intro strict_sorted_equal keys) (use * sets in \<open>simp_all add: SortRows_def\<close>)
  moreover have "inj_on ?k (set ys \<union> set (SortRows rs))"
    using assms sets by (auto simp: SortRows_def distinct_map inj_on_def)
  ultimately show "ys = SortRows rs" by (simp only: inj_on_map_eq_map)
next
  assume "ys = SortRows rs"
  then show "mset ys = mset rs \<and> sorted_wrt row_before ys"
    using sorted_strictly [OF assms, of ys] rows.sorted_sort [of rs] by (simp add: SortRows_def)
qed

theorem sort_rows_unique_witness:
  "SortRows [sample_row 2 5, sample_row 3 1, sample_row 1 5] = [sample_row 3 1, sample_row 1 5, sample_row 2 5]"
proof -
  have "distinct (map row_Line [sample_row 2 5, sample_row 3 1, sample_row 1 5])" by (simp add: sample_row_def)
  from sort_rows_unique [OF this, of "[sample_row 3 1, sample_row 1 5, sample_row 2 5]"]
  show ?thesis by (simp add: sample_row_def row_before_key)
qed

section \<open>The timestamps sent\<close>

text \<open>
  C26: A timestamp of the file is sent in its own zone, without the fraction of a second: it reads
  back as the same instant cut to the second. The zero instant is sent as blank, and the offset
  24:60, which the parser accepts, is written as 25:00, which does not parse.
\<close>

theorem sent_timestamp_reads_back:
  assumes "time_ParseZoned s = Some (row_OccurredAt row)"
  shows "if tm_Instant (row_OccurredAt row) = 0 then tp_OccurredAt (row_params row) = []
    else time_Parse (tp_OccurredAt (row_params row)) =
      (if \<bar>tm_Offset (row_OccurredAt row)\<bar> = 90000 then None
       else Some (tm_Instant (row_OccurredAt row) - tm_Instant (row_OccurredAt row) mod second))"
  using read_back [OF assms] by (simp add: row_params_def IsZero_def)

theorem sent_timestamp_reads_back_witness:
  "time_Parse (tp_OccurredAt (row_params ((sample_row 1 0)\<lparr>row_OccurredAt :=
     \<lparr>tm_Instant = 63871198567 * second + 500000000, tm_Offset = 7200\<rparr>\<rparr>))) = Some (63871198567 * second)"
proof -
  let ?row = "(sample_row 1 0)\<lparr>row_OccurredAt := \<lparr>tm_Instant = 63871198567 * second + 500000000, tm_Offset = 7200\<rparr>\<rparr>"
  have "time_ParseZoned ''2024-12-31T01:36:07.5+02:00'' = Some (row_OccurredAt ?row)" by code_simp
  from sent_timestamp_reads_back [OF this] show ?thesis by (simp add: second_def)
qed

section \<open>The summary\<close>

lemma lineByRef_last: "lineByRef rows ref = map_option row_Line (find (\<lambda>row. row_Ref row = ref) (rev rows))"
proof (induction rows rule: rev_induct)
  case (snoc row rows)
  then show ?case by (auto simp: lineByRef_def)
qed (simp add: lineByRef_def)

lemma lineByRef_own: "distinct (map row_Ref rows) \<Longrightarrow> row \<in> set rows \<Longrightarrow> lineByRef rows (row_Ref row) = Some (row_Line row)"
proof (induction rows rule: rev_induct)
  case (snoc r rows)
  then show ?case by (auto simp: lineByRef_def rev_image_eqI)
qed simp

definition ok_reply :: "string \<Rightarrow> Response" where
  "ok_reply result = \<lparr>rsp_ID = 1, rsp_Result = result, rsp_Error = None\<rparr>"

definition rejected_lines :: "batchResult \<Rightarrow> batch_line list" where
  "rejected_lines result = filter (\<lambda>e. bl_Status e = ''rejected'') (br_Results result)"

lemma Summarize_ok:
  assumes "decode result = Inr answer"
  shows "Summarize decode name rows errs (Some (ok_reply result)) =
    \<lparr>sm_File = name, sm_Sent = int (length rows), sm_Accepted = br_Accepted answer, sm_Duplicates = br_Duplicate answer,
     sm_Rejected = br_Rejected answer, sm_LocalErrors = int (length errs),
     sm_Rejections = map (\<lambda>e. \<lparr>rj_Line = rer_Line e, rj_Ref = rer_Ref e, rj_Reason = rer_Reason e\<rparr>) errs @
       map (\<lambda>e. \<lparr>rj_Line = (case lineByRef rows (bl_Ref e) of Some n \<Rightarrow> n | None \<Rightarrow> 0), rj_Ref = bl_Ref e, rj_Reason = bl_Reason e\<rparr>)
         (rejected_lines answer)\<rparr>"
  using assms by (simp add: Summarize_def ok_reply_def rejected_lines_def Let_def)

text \<open>
  C29: A ref that occurs more than once in the file. When the server answers every row and rejects an
  earlier use of the ref, the summary reports that rejection under the line of the last use, with the
  reason of the earlier one; and no rejection of the report bears the line of the earlier use, whatever
  else was rejected.
\<close>

theorem summary_blames_last_row:
  assumes rows: "rows = xs @ early # ys @ late # zs" "row_Ref early = row_Ref late" "row_Ref late \<notin> row_Ref ` set zs"
    and lines: "distinct (map row_Line rows)" "row_Line early \<notin> rer_Line ` set errs"
    and answer: "decode result = Inr answer" "map bl_Ref (br_Results answer) = map row_Ref rows"
    and rejected: "bl_Status (br_Results answer ! length xs) = ''rejected''"
    and s: "s = Summarize decode name rows errs (Some (ok_reply result))"
  shows "\<lparr>rj_Line = row_Line late, rj_Ref = row_Ref early, rj_Reason = bl_Reason (br_Results answer ! length xs)\<rparr> \<in> set (sm_Rejections s) \<and>
    row_Line early \<notin> rj_Line ` set (sm_Rejections s)"
proof -
  let ?e = "br_Results answer ! length xs"
  have len: "length xs < length (br_Results answer)" using arg_cong [OF answer(2), of length] rows(1) by simp
  have ref: "bl_Ref ?e = row_Ref early"
    using arg_cong [OF answer(2), of "\<lambda>refs. refs ! length xs"] len rows(1) by (simp add: nth_append)
  have skip: "find (\<lambda>row. row_Ref row = row_Ref late) (rev zs) = None" using rows(3) by (auto simp: find_None_iff rev_image_eqI)
  have last_line: "lineByRef rows (row_Ref early) = Some (row_Line late)"
    unfolding lineByRef_last rows(1,2) by (simp add: find_append skip)
  have own: "\<exists>row \<in> set rows. row_Ref row = bl_Ref e \<and> lineByRef rows (bl_Ref e) = Some (row_Line row)" if "e \<in> set (br_Results answer)" for e
  proof -
    have "bl_Ref e \<in> row_Ref ` set rows" using that answer(2) by (metis image_eqI image_set)
    then obtain row where row: "find (\<lambda>row. row_Ref row = bl_Ref e) (rev rows) = Some row"
      by (cases "find (\<lambda>row. row_Ref row = bl_Ref e) (rev rows)") (auto simp: find_None_iff)
    then show ?thesis unfolding lineByRef_last using find_Some_filter [OF row] by auto
  qed
  have never: "lineByRef rows (bl_Ref e) \<noteq> Some (row_Line early)" if "e \<in> set (br_Results answer)" for e
  proof (rule notI)
    note mine = that
    assume eq: "lineByRef rows (bl_Ref e) = Some (row_Line early)"
    then obtain row where row: "row \<in> set rows" "row_Ref row = bl_Ref e" "row_Line row = row_Line early" using own [OF mine] by auto
    have "early \<in> set rows" using rows(1) by simp
    then have "row = early" using lines(1) row(1,3) by (metis distinct_map inj_onD)
    then have "row_Line late = row_Line early" using eq last_line row(2) by simp
    then show False using lines(1) rows(1) by simp
  qed
  have "?e \<in> set (rejected_lines answer)" using len rejected by (simp add: rejected_lines_def)
  then have hit: "\<lparr>rj_Line = row_Line late, rj_Ref = row_Ref early, rj_Reason = bl_Reason ?e\<rparr> \<in> set (sm_Rejections s)"
    unfolding s Summarize_ok [where decode = decode and result = result, OF answer(1)] using ref last_line by (force simp: image_iff)
  have "row_Line early \<notin> rj_Line ` set (sm_Rejections s)"
  proof
    assume "row_Line early \<in> rj_Line ` set (sm_Rejections s)"
    then obtain e where e: "e \<in> set (br_Results answer)"
        "row_Line early = (case lineByRef rows (bl_Ref e) of Some n \<Rightarrow> n | None \<Rightarrow> 0)"
      unfolding s Summarize_ok [where decode = decode and result = result, OF answer(1)] using lines(2) by (force simp: rejected_lines_def)
    then show False using own [OF e(1)] never [OF e(1)] by auto
  qed
  with hit show ?thesis ..
qed

theorem summary_blames_last_row_witness:
  "map rj_Line (sm_Rejections (Summarize
     (\<lambda>_. Inr \<lparr>br_Results = [\<lparr>bl_Ref = ''r'', bl_Status = ''rejected'', bl_Reason = ''overdraft''\<rparr>,
          \<lparr>bl_Ref = ''r'', bl_Status = ''accepted'', bl_Reason = []\<rparr>],
        br_Accepted = 1, br_Duplicate = 0, br_Rejected = 1\<rparr>)
     ''f'' [sample_row 1 5, sample_row 2 5] [] (Some (ok_reply [])))) = [2]"
proof -
  let ?answer = "\<lparr>br_Results = [\<lparr>bl_Ref = ''r'', bl_Status = ''rejected'', bl_Reason = ''overdraft''\<rparr>,
          \<lparr>bl_Ref = ''r'', bl_Status = ''accepted'', bl_Reason = []\<rparr>], br_Accepted = 1, br_Duplicate = 0, br_Rejected = 1\<rparr>"
  let ?s = "Summarize (\<lambda>_. Inr ?answer) ''f'' [sample_row 1 5, sample_row 2 5] [] (Some (ok_reply []))"
  have "length (sm_Rejections ?s) = 1" by (simp add: Summarize_ok [where answer = ?answer] rejected_lines_def)
  moreover have "\<lparr>rj_Line = 2, rj_Ref = ''r'', rj_Reason = ''overdraft''\<rparr> \<in> set (sm_Rejections ?s)"
    using summary_blames_last_row [of "[sample_row 1 5, sample_row 2 5]" "[]" "sample_row 1 5" "[]" "sample_row 2 5" "[]"
      "[]" "\<lambda>_. Inr ?answer" "[]" ?answer ?s "''f''"] by (simp add: sample_row_def)
  ultimately show ?thesis by (cases "sm_Rejections ?s") auto
qed

end
