(* ===== verification/Authorization.thy ===== *)
theory Authorization
  imports GoText
begin

text \<open>
  Who the caller is and what a role may do: the login claim and the request context
  (\<open>pkg/authentication/loginClaim.go\<close>, \<open>authContext.go\<close>), the scope parser (\<open>pkg/scope\<close>), the
  permissions of each role and the method policy (\<open>pkg/authorization\<close>). The lemmas give the whole
  access matrix of the default policy and relate the permission strings to the scope parser.
\<close>

section \<open>Roles, claims and the request context\<close>

definition RoleMember :: string where "RoleMember = ''member''"
definition RoleAdmin :: string where "RoleAdmin = ''admin''"

definition RootUserID :: string where "RootUserID = ''03AA99227R0000000000000000''"

record LoginClaim =
  claim_UserID :: string
  claim_ExpirationTime :: int
  claim_LastName :: string
  claim_Email :: string
  claim_Role :: string
  claim_Permissions :: "string list"
  claim_TokenVersion :: int64

text \<open>
  The values the program keeps in a \<open>context.Context\<close>: the login claim, and whether the context
  was made by \<open>RunInTx\<close> and so carries the open transaction.
\<close>

record go_context =
  ctx_LoginClaim :: "LoginClaim option"
  ctx_Tx :: bool

definition background :: go_context where
  "background = \<lparr>ctx_LoginClaim = None, ctx_Tx = False\<rparr>"

definition ContextWithLoginClaim :: "go_context \<Rightarrow> LoginClaim \<Rightarrow> go_context" where
  "ContextWithLoginClaim ctx claim = ctx\<lparr>ctx_LoginClaim := Some claim\<rparr>"

definition LoginClaimFromContext :: "go_context \<Rightarrow> LoginClaim option" where
  "LoginClaimFromContext ctx = ctx_LoginClaim ctx"

text \<open>The token of the \<open>Authorization\<close> header; an absent header reads as the empty string.\<close>

definition ExtractToken :: "string \<Rightarrow> string" where
  "ExtractToken authHeader =
     (if authHeader \<noteq> [] then
        (case strings_CutPrefix authHeader ''Bearer '' of Some token \<Rightarrow> token | None \<Rightarrow> [])
      else [])"

section \<open>Permission scopes\<close>

definition Scope_Own :: string where "Scope_Own = ''own''"
definition Scope_All :: string where "Scope_All = ''all''"

definition scope_Of :: "string \<Rightarrow> string option" where
  "scope_Of permission =
     (case strings_Split permission CHR '':'' of
        _ # _ # s # _ \<Rightarrow> if s = [] then None else Some s
      | _ \<Rightarrow> None)"

definition scope_IsAll :: "string \<Rightarrow> bool" where
  "scope_IsAll permission \<longleftrightarrow> scope_Of permission = Some Scope_All"

definition scope_IsOwn :: "string \<Rightarrow> bool" where
  "scope_IsOwn permission \<longleftrightarrow> scope_Of permission = Some Scope_Own"

section \<open>Permissions\<close>

definition PermAccountReadOwn :: string where "PermAccountReadOwn = ''account:read:own''"
definition PermAccountReadAll :: string where "PermAccountReadAll = ''account:read:all''"
definition PermAccountWriteOwn :: string where "PermAccountWriteOwn = ''account:write:own''"
definition PermAccountWriteAll :: string where "PermAccountWriteAll = ''account:write:all''"
definition PermAuditReadOwn :: string where "PermAuditReadOwn = ''audit:read:own''"
definition PermAuditReadAll :: string where "PermAuditReadAll = ''audit:read:all''"
definition PermTransactionReadOwn :: string where "PermTransactionReadOwn = ''transaction:read:own''"
definition PermTransactionReadAll :: string where "PermTransactionReadAll = ''transaction:read:all''"
definition PermUserReadOwn :: string where "PermUserReadOwn = ''user:read:own''"
definition PermUserReadAll :: string where "PermUserReadAll = ''user:read:all''"
definition PermWalletTransactOwn :: string where "PermWalletTransactOwn = ''wallet:transact:own''"
definition PermWalletTransactAll :: string where "PermWalletTransactAll = ''wallet:transact:all''"
definition PermWalletBatchAll :: string where "PermWalletBatchAll = ''wallet:batch:all''"
definition PermAuthLogout :: string where "PermAuthLogout = ''auth:logout''"

lemmas perm_defs =
  PermAccountReadOwn_def PermAccountReadAll_def PermAccountWriteOwn_def PermAccountWriteAll_def
  PermAuditReadOwn_def PermAuditReadAll_def PermTransactionReadOwn_def PermTransactionReadAll_def
  PermUserReadOwn_def PermUserReadAll_def PermWalletTransactOwn_def PermWalletTransactAll_def
  PermWalletBatchAll_def PermAuthLogout_def

definition RolePermissions :: "string \<rightharpoonup> string list" where
  "RolePermissions =
     [RoleMember \<mapsto>
        [PermAccountReadOwn, PermAccountWriteOwn, PermAuditReadOwn, PermTransactionReadOwn,
         PermUserReadOwn, PermWalletTransactOwn, PermAuthLogout],
      RoleAdmin \<mapsto>
        [PermAccountReadAll, PermAccountWriteAll, PermAuditReadAll, PermTransactionReadAll,
         PermUserReadAll, PermWalletTransactAll, PermWalletBatchAll, PermAuthLogout]]"

text \<open>Reading an absent key of a Go map gives the nil slice.\<close>

definition PermissionsForRole :: "string \<Rightarrow> string list" where
  "PermissionsForRole role = (case RolePermissions role of Some ps \<Rightarrow> ps | None \<Rightarrow> [])"

definition IsGranted :: "go_context \<Rightarrow> string \<Rightarrow> bool" where
  "IsGranted ctx permission =
     (case LoginClaimFromContext ctx of
        None \<Rightarrow> False
      | Some claim \<Rightarrow> list_ex (\<lambda>p. p = permission) (claim_Permissions claim))"

section \<open>The method policy\<close>

definition loginMethod :: string where "loginMethod = ''EmailPasswordAuthenticator.Login''"
definition registerMethod :: string where "registerMethod = ''UserRegistrationService.Register''"
definition processTransactionMethod :: string where
  "processTransactionMethod = ''Wallet.ProcessTransaction''"
definition processTransactionBatchMethod :: string where
  "processTransactionBatchMethod = ''Wallet.ProcessTransactionBatch''"
definition earnPointsMethod :: string where "earnPointsMethod = ''Wallet.EarnPoints''"
definition spendPointsMethod :: string where "spendPointsMethod = ''Wallet.SpendPoints''"
definition fetchMyAccountsMethod :: string where
  "fetchMyAccountsMethod = ''AccountService.FetchMyAccounts''"
definition getAccountMethod :: string where "getAccountMethod = ''AccountService.GetAccountByID''"
definition getAccountBalanceMethod :: string where
  "getAccountBalanceMethod = ''AccountService.GetAccountBalance''"
definition updateAccountNameMethod :: string where
  "updateAccountNameMethod = ''AccountService.UpdateAccountName''"
definition updateAccountBalanceMethod :: string where
  "updateAccountBalanceMethod = ''AccountService.UpdateAccountBalance''"
definition openAccountMethod :: string where "openAccountMethod = ''AccountOpener.OpenAccount''"
definition logoutMethod :: string where "logoutMethod = ''Session.Logout''"
definition listAuditByRefMethod :: string where
  "listAuditByRefMethod = ''AuditService.FetchTransactionAuditTrail''"

lemmas method_defs =
  loginMethod_def registerMethod_def processTransactionMethod_def
  processTransactionBatchMethod_def earnPointsMethod_def spendPointsMethod_def
  fetchMyAccountsMethod_def getAccountMethod_def getAccountBalanceMethod_def
  updateAccountNameMethod_def updateAccountBalanceMethod_def openAccountMethod_def
  logoutMethod_def listAuditByRefMethod_def

record Policy =
  policy_byMethod :: "string \<rightharpoonup> string list"
  policy_public :: "string \<rightharpoonup> bool"

definition DefaultPolicy :: Policy where
  "DefaultPolicy =
     \<lparr>policy_byMethod =
        [processTransactionMethod \<mapsto> [PermWalletTransactAll],
         earnPointsMethod \<mapsto> [PermWalletTransactOwn, PermWalletTransactAll],
         spendPointsMethod \<mapsto> [PermWalletTransactOwn, PermWalletTransactAll],
         processTransactionBatchMethod \<mapsto> [PermWalletBatchAll],
         fetchMyAccountsMethod \<mapsto> [PermAccountReadOwn, PermAccountReadAll],
         getAccountMethod \<mapsto> [PermAccountReadOwn, PermAccountReadAll],
         getAccountBalanceMethod \<mapsto> [PermAccountReadOwn, PermAccountReadAll],
         updateAccountNameMethod \<mapsto> [PermAccountWriteOwn, PermAccountWriteAll],
         updateAccountBalanceMethod \<mapsto> [PermAccountWriteAll],
         openAccountMethod \<mapsto> [PermAccountWriteOwn, PermAccountWriteAll],
         logoutMethod \<mapsto> [PermAuthLogout],
         listAuditByRefMethod \<mapsto> [PermAuditReadOwn, PermAuditReadAll]],
      policy_public = [loginMethod \<mapsto> True, registerMethod \<mapsto> True]\<rparr>"

definition Policy_IsPublic :: "Policy \<Rightarrow> string \<Rightarrow> bool" where
  "Policy_IsPublic p method = (case policy_public p method of Some b \<Rightarrow> b | None \<Rightarrow> False)"

definition Policy_Authorize :: "Policy \<Rightarrow> string list \<Rightarrow> string \<Rightarrow> bool" where
  "Policy_Authorize p callerPerms method =
     (case policy_byMethod p method of
        None \<Rightarrow> False
      | Some required \<Rightarrow>
          let held = fold (\<lambda>perm m. m(perm \<mapsto> True)) callerPerms Map.empty
          in list_ex (\<lambda>perm. held perm = Some True) required)"

section \<open>Facts\<close>

lemma held_map: "fold (\<lambda>perm m. m(perm \<mapsto> True)) ps m0 = (\<lambda>k. if k \<in> set ps then Some True else m0 k)"
  by (induction ps arbitrary: m0) (auto simp: fun_eq_iff)

lemma Policy_Authorize_iff:
  "Policy_Authorize p perms method \<longleftrightarrow>
     (\<exists>required. policy_byMethod p method = Some required \<and> set required \<inter> set perms \<noteq> {})"
  by (auto simp: Policy_Authorize_def held_map list_ex_iff Let_def split: option.splits if_splits)

lemma IsGranted_iff:
  "IsGranted ctx perm \<longleftrightarrow> (\<exists>c. ctx_LoginClaim ctx = Some c \<and> perm \<in> set (claim_Permissions c))"
  by (auto simp: IsGranted_def LoginClaimFromContext_def list_ex_iff split: option.splits)

lemma IsGranted_tx [simp]: "IsGranted (ctx\<lparr>ctx_Tx := b\<rparr>) perm = IsGranted ctx perm"
  by (simp add: IsGranted_def LoginClaimFromContext_def)

lemma PermissionsForRole_simps:
  "PermissionsForRole RoleMember =
     [PermAccountReadOwn, PermAccountWriteOwn, PermAuditReadOwn, PermTransactionReadOwn,
      PermUserReadOwn, PermWalletTransactOwn, PermAuthLogout]"
  "PermissionsForRole RoleAdmin =
     [PermAccountReadAll, PermAccountWriteAll, PermAuditReadAll, PermTransactionReadAll,
      PermUserReadAll, PermWalletTransactAll, PermWalletBatchAll, PermAuthLogout]"
  "r \<noteq> RoleMember \<Longrightarrow> r \<noteq> RoleAdmin \<Longrightarrow> PermissionsForRole r = []"
  by (simp_all add: PermissionsForRole_def RolePermissions_def RoleMember_def RoleAdmin_def)

text \<open>The methods a member may call, and those only an admin may.\<close>

definition member_methods :: "string list" where
  "member_methods =
     [earnPointsMethod, spendPointsMethod, fetchMyAccountsMethod, getAccountMethod,
      getAccountBalanceMethod, updateAccountNameMethod, openAccountMethod, logoutMethod,
      listAuditByRefMethod]"

definition admin_only_methods :: "string list" where
  "admin_only_methods =
     [processTransactionMethod, processTransactionBatchMethod, updateAccountBalanceMethod]"

lemma policy_methods:
  "policy_byMethod DefaultPolicy m = Some required \<Longrightarrow> m \<in> set (member_methods @ admin_only_methods)"
  by (auto simp: DefaultPolicy_def member_methods_def admin_only_methods_def split: if_splits)

lemma policy_entries:
  "policy_byMethod DefaultPolicy processTransactionMethod = Some [PermWalletTransactAll]"
  "policy_byMethod DefaultPolicy earnPointsMethod = Some [PermWalletTransactOwn, PermWalletTransactAll]"
  "policy_byMethod DefaultPolicy spendPointsMethod = Some [PermWalletTransactOwn, PermWalletTransactAll]"
  "policy_byMethod DefaultPolicy processTransactionBatchMethod = Some [PermWalletBatchAll]"
  "policy_byMethod DefaultPolicy fetchMyAccountsMethod = Some [PermAccountReadOwn, PermAccountReadAll]"
  "policy_byMethod DefaultPolicy getAccountMethod = Some [PermAccountReadOwn, PermAccountReadAll]"
  "policy_byMethod DefaultPolicy getAccountBalanceMethod = Some [PermAccountReadOwn, PermAccountReadAll]"
  "policy_byMethod DefaultPolicy updateAccountNameMethod = Some [PermAccountWriteOwn, PermAccountWriteAll]"
  "policy_byMethod DefaultPolicy updateAccountBalanceMethod = Some [PermAccountWriteAll]"
  "policy_byMethod DefaultPolicy openAccountMethod = Some [PermAccountWriteOwn, PermAccountWriteAll]"
  "policy_byMethod DefaultPolicy logoutMethod = Some [PermAuthLogout]"
  "policy_byMethod DefaultPolicy listAuditByRefMethod = Some [PermAuditReadOwn, PermAuditReadAll]"
  by (simp_all add: DefaultPolicy_def method_defs)

lemma Authorize_role:
  "m \<in> set member_methods \<Longrightarrow> Policy_Authorize DefaultPolicy (PermissionsForRole RoleMember) m"
  "m \<in> set admin_only_methods \<Longrightarrow> \<not> Policy_Authorize DefaultPolicy (PermissionsForRole RoleMember) m"
  "m \<in> set (member_methods @ admin_only_methods) \<Longrightarrow>
     Policy_Authorize DefaultPolicy (PermissionsForRole RoleAdmin) m"
  by (auto simp: member_methods_def admin_only_methods_def Policy_Authorize_iff policy_entries
      PermissionsForRole_simps perm_defs)

lemma Authorize_other_role:
  "r \<noteq> RoleMember \<Longrightarrow> r \<noteq> RoleAdmin \<Longrightarrow> \<not> Policy_Authorize DefaultPolicy (PermissionsForRole r) m"
  by (simp add: Policy_Authorize_iff PermissionsForRole_simps)

lemma Authorize_only_listed:
  "Policy_Authorize DefaultPolicy ps m \<Longrightarrow> m \<in> set (member_methods @ admin_only_methods)"
  unfolding Policy_Authorize_iff by (blast dest: policy_methods)

text \<open>
  C38: The default policy is exactly this matrix: a member may call the member methods and no
  other, an admin may call every listed method, and any other role may call nothing.
\<close>

theorem default_policy_matrix:
  "Policy_Authorize DefaultPolicy (PermissionsForRole role) meth \<longleftrightarrow>
     role = RoleMember \<and> meth \<in> set member_methods \<or>
     role = RoleAdmin \<and> meth \<in> set (member_methods @ admin_only_methods)"
proof -
  have "RoleMember \<noteq> RoleAdmin" by (simp add: RoleMember_def RoleAdmin_def)
  then show ?thesis
    using Authorize_role [of meth] Authorize_other_role [of role meth]
      Authorize_only_listed [of "PermissionsForRole role" meth] by (auto simp: disjoint_iff)
qed

lemma scope_of_perms:
  "\<forall>p \<in> set (PermissionsForRole RoleAdmin). p = PermAuthLogout \<or> scope_IsAll p"
  "\<forall>p \<in> set (PermissionsForRole RoleMember). p = PermAuthLogout \<or> scope_IsOwn p"
  by (simp_all add: PermissionsForRole_simps perm_defs scope_IsAll_def scope_IsOwn_def scope_Of_def
      Scope_All_def Scope_Own_def)

text \<open>
  Apart from the scope-less logout permission, every permission of an admin parses as
  all-scoped and every permission of a member parses as own-scoped; so a member holds no
  \<open>:all\<close> permission, on which the repositories' ownership scoping rests.
\<close>

theorem role_scopes:
  "p \<in> set (PermissionsForRole role) \<Longrightarrow>
     p = PermAuthLogout \<and> scope_Of p = None \<or>
     role = RoleAdmin \<and> scope_IsAll p \<or>
     role = RoleMember \<and> scope_IsOwn p \<and> \<not> scope_IsAll p"
  using scope_of_perms PermissionsForRole_simps(3) [of role]
  by (cases "role = RoleAdmin"; cases "role = RoleMember")
     (auto simp: perm_defs scope_Of_def scope_IsAll_def scope_IsOwn_def Scope_All_def Scope_Own_def)

theorem role_scopes_witness:
  "scope_IsOwn PermWalletTransactOwn \<and> \<not> scope_IsAll PermWalletTransactOwn"
proof -
  have "PermWalletTransactOwn \<in> set (PermissionsForRole RoleMember)"
    by (simp add: PermissionsForRole_simps)
  from role_scopes [OF this] show ?thesis
    by (auto simp: perm_defs RoleMember_def RoleAdmin_def)
qed

end
