(* ===== verification/Database.thy ===== *)
theory Database
  imports Times Authorization StableSort
begin

text \<open>
  The database as the program uses it: the tables of \<open>pkg/postgres/migrations/0001_init.sql\<close> with
  their constraints, the execution of one SQL statement on the pool or on the transaction of the
  context (\<open>pkg/sql/executor.go\<close>), and the unit of work \<open>RunInTx\<close> (\<open>pkg/postgres/tx.go\<close>).

  A statement is a function from the tables to an error or a result with new tables. What the
  program cannot decide comes from the environment: the clock, the UUID source and the driver. The
  driver may fail at any call, before the statement reached the server (\<open>LostRequest\<close>) or after it
  took effect (\<open>LostReply\<close>); every theorem that does not say otherwise holds for all such failures.
  Inside a transaction an error aborts the transaction, as in Postgres: every later statement
  fails until the rollback, and a commit rolls back.
\<close>

section \<open>Tables\<close>

record user_row =
  u_id :: string
  u_email :: string
  u_password_hash :: string
  u_role :: string
  u_created_at :: string
  u_token_version :: int64

record account_row =
  a_id :: string
  a_owner_id :: string
  a_name :: string
  a_balance :: int64
  a_created_at :: string

record transaction_row =
  t_id :: string
  t_ref :: string
  t_account_id :: string
  t_owner_id :: string
  t_kind :: string
  t_points :: int64
  t_occurred_at :: string
  t_recorded_at :: string
  t_created_by :: string

record audit_row =
  e_id :: int
  e_transaction_ref :: "string option"
  e_account_id :: "string option"
  e_owner_id :: "string option"
  e_kind :: "string option"
  e_points :: "int64 option"
  e_outcome :: string
  e_reason :: string
  e_user_id :: string
  e_created_at :: string

text \<open>\<open>audit_seq\<close> is the identity sequence of \<open>audit_entries\<close>: the next id it hands out.\<close>

record tables =
  users :: "user_row list"
  accounts :: "account_row list"
  transactions :: "transaction_row list"
  audit_entries :: "audit_row list"
  audit_seq :: int

definition empty_tables :: tables where
  "empty_tables = \<lparr>users = [], accounts = [], transactions = [], audit_entries = [], audit_seq = 1\<rparr>"

text \<open>The constraints the migration declares.\<close>

definition valid_role :: "string \<Rightarrow> bool" where
  "valid_role r \<longleftrightarrow> r \<in> set [''member'', ''admin'']"

definition valid_kind :: "string \<Rightarrow> bool" where
  "valid_kind k \<longleftrightarrow> k \<in> set [''earn'', ''spend'']"

definition valid_outcome :: "string \<Rightarrow> bool" where
  "valid_outcome out \<longleftrightarrow> out \<in> set [''accepted'', ''rejected'', ''duplicate'']"

definition users_ok :: "tables \<Rightarrow> bool" where
  "users_ok T \<longleftrightarrow> distinct (map u_id (users T)) \<and> distinct (map u_email (users T)) \<and>
     list_all (\<lambda>u. valid_role (u_role u)) (users T)"

definition accounts_ok :: "tables \<Rightarrow> bool" where
  "accounts_ok T \<longleftrightarrow> distinct (map a_id (accounts T)) \<and>
     list_all (\<lambda>a. 0 \<le> sint (a_balance a) \<and> a_owner_id a \<in> set (map u_id (users T))) (accounts T)"

definition transactions_ok :: "tables \<Rightarrow> bool" where
  "transactions_ok T \<longleftrightarrow> distinct (map t_id (transactions T)) \<and> distinct (map t_ref (transactions T)) \<and>
     list_all (\<lambda>x. valid_kind (t_kind x) \<and> t_account_id x \<in> set (map a_id (accounts T)) \<and>
       t_owner_id x \<in> set (map u_id (users T))) (transactions T)"

definition audit_ok :: "tables \<Rightarrow> bool" where
  "audit_ok T \<longleftrightarrow> sorted_wrt (<) (map e_id (audit_entries T)) \<and>
     list_all (\<lambda>e. e_id e < audit_seq T \<and> valid_outcome (e_outcome e)) (audit_entries T)"

definition schema_ok :: "tables \<Rightarrow> bool" where
  "schema_ok T \<longleftrightarrow> users_ok T \<and> accounts_ok T \<and> transactions_ok T \<and> audit_ok T"

section \<open>The environment and the connection state\<close>

datatype fault = LostRequest string | LostReply string

fun fault_text :: "fault \<Rightarrow> string" where
  "fault_text (LostRequest m) = m"
| "fault_text (LostReply m) = m"

record env =
  env_Now :: "nat \<Rightarrow> gotime"
  env_UUID :: "nat \<Rightarrow> string"
  env_Fault :: "nat \<Rightarrow> fault option"
  env_Fetched :: "nat \<Rightarrow> nat"
  env_text_le :: "string \<Rightarrow> string \<Rightarrow> bool"

record txn =
  tx_tables :: tables
  tx_aborted :: bool

record world =
  w_db :: tables
  w_tx :: "txn option"
  w_env :: env
  w_ticks :: nat
  w_uuids :: nat
  w_calls :: nat

type_synonym 'a stmt = "tables \<Rightarrow> go_error + ('a \<times> tables)"
type_synonym 'a op = "world \<Rightarrow> (go_error + 'a) \<times> world"

definition time_Now :: "world \<Rightarrow> gotime \<times> world" where
  "time_Now w = (env_Now (w_env w) (w_ticks w), w\<lparr>w_ticks := Suc (w_ticks w)\<rparr>)"

definition uuid_NewString :: "world \<Rightarrow> string \<times> world" where
  "uuid_NewString w = (env_UUID (w_env w) (w_uuids w), w\<lparr>w_uuids := Suc (w_uuids w)\<rparr>)"

definition fault_free :: "world \<Rightarrow> bool" where
  "fault_free w \<longleftrightarrow> env_Fault (w_env w) = (\<lambda>_. None)"

section \<open>Executing a statement\<close>

definition sqlStateUniqueViolation :: string where "sqlStateUniqueViolation = ''23505''"
definition sqlStateForeignKeyViolation :: string where "sqlStateForeignKeyViolation = ''23503''"

definition unique_violation :: "string \<Rightarrow> go_error" where
  "unique_violation con = PgError sqlStateUniqueViolation
     (''ERROR: duplicate key value violates unique constraint '' @ strconv_Quote con @ '' (SQLSTATE 23505)'')"

definition foreign_key_violation :: "string \<Rightarrow> string \<Rightarrow> go_error" where
  "foreign_key_violation tab con = PgError sqlStateForeignKeyViolation
     (''ERROR: insert or update on table '' @ strconv_Quote tab @
      '' violates foreign key constraint '' @ strconv_Quote con @ '' (SQLSTATE 23503)'')"

definition check_violation :: "string \<Rightarrow> string \<Rightarrow> go_error" where
  "check_violation tab con = PgError ''23514''
     (''ERROR: new row for relation '' @ strconv_Quote tab @
      '' violates check constraint '' @ strconv_Quote con @ '' (SQLSTATE 23514)'')"

definition bigint_out_of_range :: go_error where
  "bigint_out_of_range = PgError ''22003'' ''ERROR: bigint out of range (SQLSTATE 22003)''"

definition nul_in_text :: go_error where
  "nul_in_text = PgError ''22021''
     (''ERROR: invalid byte sequence for encoding '' @ strconv_Quote ''UTF8'' @ '': 0x00 (SQLSTATE 22021)'')"

definition tx_is_aborted :: go_error where
  "tx_is_aborted = PgError ''25P02''
     ''ERROR: current transaction is aborted, commands ignored until end of transaction block (SQLSTATE 25P02)''"

definition tx_done :: go_error where
  "tx_done = Plain ''sql: transaction has already been committed or rolled back''"

text \<open>A NUL byte is not valid in a \<open>TEXT\<close> parameter: the server rejects the statement.\<close>

definition bind_text :: "string list \<Rightarrow> 'a stmt \<Rightarrow> 'a stmt" where
  "bind_text args st T = (if list_all (\<lambda>s. CHR 0x00 \<notin> set s) args then st T else Inl nul_in_text)"

definition driver_call :: "world \<Rightarrow> fault option \<times> world" where
  "driver_call w = (env_Fault (w_env w) (w_calls w), w\<lparr>w_calls := Suc (w_calls w)\<rparr>)"

definition pool_exec :: "fault option \<Rightarrow> 'a stmt \<Rightarrow> 'a op" where
  "pool_exec f st w =
     (case f of
        Some (LostRequest m) \<Rightarrow> (Inl (Plain m), w)
      | Some (LostReply m) \<Rightarrow>
          (case st (w_db w) of
             Inl e \<Rightarrow> (Inl (Plain m), w)
           | Inr (x, T) \<Rightarrow> (Inl (Plain m), w\<lparr>w_db := T\<rparr>))
      | None \<Rightarrow>
          (case st (w_db w) of
             Inl e \<Rightarrow> (Inl e, w)
           | Inr (x, T) \<Rightarrow> (Inr x, w\<lparr>w_db := T\<rparr>)))"

definition tx_exec :: "fault option \<Rightarrow> 'a stmt \<Rightarrow> 'a op" where
  "tx_exec f st w =
     (case w_tx w of
        None \<Rightarrow> (Inl tx_done, w)
      | Some t \<Rightarrow>
          if tx_aborted t then (Inl tx_is_aborted, w)
          else (case f of
             Some fl \<Rightarrow> (Inl (Plain (fault_text fl)), w\<lparr>w_tx := Some (t\<lparr>tx_aborted := True\<rparr>)\<rparr>)
           | None \<Rightarrow>
               (case st (tx_tables t) of
                  Inl e \<Rightarrow> (Inl e, w\<lparr>w_tx := Some (t\<lparr>tx_aborted := True\<rparr>)\<rparr>)
                | Inr (x, T) \<Rightarrow> (Inr x, w\<lparr>w_tx := Some (t\<lparr>tx_tables := T\<rparr>)\<rparr>))))"

text \<open>
  \<open>ExecutorFromContext\<close>: the transaction of the context if there is one, else the pool. \<open>args\<close>
  are the text parameters of the statement.
\<close>

definition sql_exec :: "go_context \<Rightarrow> string list \<Rightarrow> 'a stmt \<Rightarrow> 'a op" where
  "sql_exec ctx args st w =
     (case driver_call w of (f, w) \<Rightarrow>
        if ctx_Tx ctx then tx_exec f (bind_text args st) w else pool_exec f (bind_text args st) w)"

text \<open>
  The row loop of a query: the driver may fail while the rows are fetched, after any number of them.
  The rows delivered so far and the error that \<open>rows.Err()\<close> reports:
\<close>

definition fetch_rows :: "go_context \<Rightarrow> 'r list \<Rightarrow> world \<Rightarrow> ('r list \<times> go_error option) \<times> world" where
  "fetch_rows ctx rows w =
     (case driver_call w of
        (None, w) \<Rightarrow> ((rows, None), w)
      | (Some fl, w) \<Rightarrow>
          ((take (env_Fetched (w_env w) (w_calls w)) rows, Some (Plain (fault_text fl))),
           if ctx_Tx ctx then w\<lparr>w_tx := map_option (\<lambda>t. t\<lparr>tx_aborted := True\<rparr>) (w_tx w)\<rparr> else w))"

section \<open>The unit of work\<close>

text \<open>What a rollback leaves: the committed tables, but sequence numbers already drawn stay drawn.\<close>

definition discard_tx :: "world \<Rightarrow> world" where
  "discard_tx w =
     (case w_tx w of
        None \<Rightarrow> w
      | Some t \<Rightarrow> w\<lparr>w_tx := None, w_db := (w_db w)\<lparr>audit_seq := audit_seq (tx_tables t)\<rparr>\<rparr>)"

definition keep_tx :: "world \<Rightarrow> world" where
  "keep_tx w =
     (case w_tx w of None \<Rightarrow> w | Some t \<Rightarrow> w\<lparr>w_tx := None, w_db := tx_tables t\<rparr>)"

definition begin_tx :: "unit op" where
  "begin_tx w =
     (case driver_call w of
        (Some fl, w) \<Rightarrow> (Inl (Plain (fault_text fl)), w)
      | (None, w) \<Rightarrow> (Inr (), w\<lparr>w_tx := Some \<lparr>tx_tables = w_db w, tx_aborted = False\<rparr>\<rparr>))"

definition rollback_tx :: "unit op" where
  "rollback_tx w =
     (case driver_call w of
        (Some fl, w) \<Rightarrow> (Inl (Plain (fault_text fl)), discard_tx w)
      | (None, w) \<Rightarrow> (Inr (), discard_tx w))"

definition commit_tx :: "unit op" where
  "commit_tx w =
     (case driver_call w of (f, w) \<Rightarrow>
        if (case w_tx w of None \<Rightarrow> True | Some t \<Rightarrow> tx_aborted t) then
          (Inl (Plain ''commit unexpectedly resulted in rollback''), discard_tx w)
        else (case f of
          Some (LostRequest m) \<Rightarrow> (Inl (Plain m), discard_tx w)
        | Some (LostReply m) \<Rightarrow> (Inl (Plain m), keep_tx w)
        | None \<Rightarrow> (Inr (), keep_tx w)))"

definition RunInTx :: "go_context \<Rightarrow> (go_context \<Rightarrow> 'a op) \<Rightarrow> 'a op" where
  "RunInTx ctx fn w =
     (if ctx_Tx ctx then fn ctx w
      else (case begin_tx w of
        (Inl err, w) \<Rightarrow> (Inl (Wrapped ''could not begin transaction'' err), w)
      | (Inr _, w) \<Rightarrow>
          (case fn (ctx\<lparr>ctx_Tx := True\<rparr>) w of
             (Inl err, w) \<Rightarrow>
               (case rollback_tx w of
                  (Inl rollbackErr, w) \<Rightarrow>
                    (Inl (Wrapped2 ''could not roll back transaction'' rollbackErr ''original error'' err), w)
                | (Inr _, w) \<Rightarrow> (Inl err, w))
           | (Inr a, w) \<Rightarrow>
               (case commit_tx w of
                  (Inl err, w) \<Rightarrow> (Inl (Wrapped ''could not commit transaction'' err), w)
                | (Inr _, w) \<Rightarrow> (Inr a, w)))))"

section \<open>Scopes and orders of a query\<close>

text \<open>
  A query is scoped when the caller does not hold the permission that reads or writes across
  owners: the \<open>WHERE\<close> clause then pins the owner column to the user, which is one more parameter.
\<close>

definition scope_arg :: "go_context \<Rightarrow> string \<Rightarrow> string \<Rightarrow> string option" where
  "scope_arg ctx perm userID = (if \<not> IsGranted ctx perm then Some userID else None)"

definition in_scope :: "string option \<Rightarrow> string \<Rightarrow> bool" where
  "in_scope sc owner \<longleftrightarrow> (case sc of None \<Rightarrow> True | Some u \<Rightarrow> owner = u)"

definition scope_args :: "string option \<Rightarrow> string list" where
  "scope_args sc = (case sc of None \<Rightarrow> [] | Some u \<Rightarrow> [u])"

text \<open>
  \<open>ORDER BY\<close> on text columns uses the collation of the database, a linear order on strings that
  the environment provides (\<open>env_text_le\<close>).
\<close>

definition text_lt :: "(string \<Rightarrow> string \<Rightarrow> bool) \<Rightarrow> string \<Rightarrow> string \<Rightarrow> bool" where
  "text_lt le s t \<longleftrightarrow> s \<noteq> t \<and> le s t"

definition collation :: "(string \<Rightarrow> string \<Rightarrow> bool) \<Rightarrow> bool" where
  "collation le \<longleftrightarrow> (\<forall>s t. le s t \<and> le t s \<longrightarrow> s = t) \<and> (\<forall>s t u. le s t \<and> le t u \<longrightarrow> le s u) \<and>
     (\<forall>s t. le s t \<or> le t s)"

lemma text_lt_facts:
  assumes "collation le"
  shows "\<not> text_lt le s s" "text_lt le s t \<Longrightarrow> text_lt le t u \<Longrightarrow> text_lt le s u"
    "text_lt le s t \<Longrightarrow> \<not> text_lt le t s" "text_lt le s t \<or> s = t \<or> text_lt le t s"
  using assms unfolding collation_def text_lt_def by blast+

text \<open>Byte order, the collation \<open>C\<close>.\<close>

fun byte_le :: "string \<Rightarrow> string \<Rightarrow> bool" where
  "byte_le [] t = True"
| "byte_le (c # s) [] = False"
| "byte_le (c # s) (d # t) = ((of_char c :: nat) < of_char d \<or> c = d \<and> byte_le s t)"

lemma collation_byte_le: "collation byte_le"
proof -
  have "byte_le s t \<Longrightarrow> byte_le t s \<Longrightarrow> s = t" for s t
    by (induction s t rule: byte_le.induct) (auto, (case_tac t; simp)?)
  moreover have "byte_le s t \<Longrightarrow> byte_le t u \<Longrightarrow> byte_le s u" for s t u
    by (induction s t arbitrary: u rule: byte_le.induct) (auto, (case_tac u; auto)+)
  moreover have "byte_le s t \<or> byte_le t s" for s t
    by (induction s t rule: byte_le.induct) (auto simp: not_less le_less)
  ultimately show ?thesis unfolding collation_def by blast
qed

text \<open>\<open>IsUniqueConstraintViolation\<close> and \<open>IsForeignKeyConstraintViolation\<close> (\<open>pkg/postgres/errors.go\<close>).\<close>

definition IsUniqueConstraintViolation :: "go_error \<Rightarrow> bool" where
  "IsUniqueConstraintViolation err \<longleftrightarrow> errors_As_Pg err = Some sqlStateUniqueViolation"

definition IsForeignKeyConstraintViolation :: "go_error \<Rightarrow> bool" where
  "IsForeignKeyConstraintViolation err \<longleftrightarrow> errors_As_Pg err = Some sqlStateForeignKeyViolation"


section \<open>How the state evolves\<close>

text \<open>
  \<open>connected\<close>: the context carries a transaction exactly when one is open. \<open>view\<close> is the tables
  a statement issued with this context sees. \<open>evolves R ctx w w'\<close> says that going from \<open>w\<close> to
  \<open>w'\<close> under the context keeps the connection state and moves the committed tables, the tables in
  view and the tables of an open transaction only along \<open>R\<close>. For a relation that is reflexive,
  transitive and stable under a rollback (locale \<open>table_relation\<close>) the statements, the unit of
  work and every operation built from them evolve along \<open>R\<close> as soon as the writing statements do.
\<close>

definition connected :: "go_context \<Rightarrow> world \<Rightarrow> bool" where
  "connected ctx w \<longleftrightarrow> ctx_Tx ctx = (w_tx w \<noteq> None)"

definition view :: "go_context \<Rightarrow> world \<Rightarrow> tables" where
  "view ctx w = (if ctx_Tx ctx then tx_tables (the (w_tx w)) else w_db w)"

definition set_view :: "go_context \<Rightarrow> tables \<Rightarrow> world \<Rightarrow> world" where
  "set_view ctx T w =
     (if ctx_Tx ctx then w\<lparr>w_tx := Some ((the (w_tx w))\<lparr>tx_tables := T\<rparr>)\<rparr> else w\<lparr>w_db := T\<rparr>)"

definition usable :: "go_context \<Rightarrow> world \<Rightarrow> bool" where
  "usable ctx w \<longleftrightarrow> connected ctx w \<and> (ctx_Tx ctx \<longrightarrow> \<not> tx_aborted (the (w_tx w)))"

definition tx_within :: "(tables \<Rightarrow> tables \<Rightarrow> bool) \<Rightarrow> world \<Rightarrow> bool" where
  "tx_within R w \<longleftrightarrow> (case w_tx w of None \<Rightarrow> True | Some t \<Rightarrow> R (w_db w) (tx_tables t))"

definition evolves :: "(tables \<Rightarrow> tables \<Rightarrow> bool) \<Rightarrow> go_context \<Rightarrow> world \<Rightarrow> world \<Rightarrow> bool" where
  "evolves R ctx w w' \<longleftrightarrow>
     w_env w' = w_env w \<and>
     (connected ctx w \<and> tx_within R w \<longrightarrow>
        connected ctx w' \<and> tx_within R w' \<and> R (w_db w) (w_db w') \<and> R (view ctx w) (view ctx w') \<and>
        (ctx_Tx ctx \<longrightarrow> w_db w' = w_db w))"

named_theorems evolves_intros "operations that move the tables along a relation"

lemma evolves_prod:
  assumes "evolves R ctx w (snd p)"
    and "\<And>s w'. p = (s, w') \<Longrightarrow> evolves R ctx w' (snd (body s w'))"
    and trans: "\<And>T U V. R T U \<Longrightarrow> R U V \<Longrightarrow> R T V"
  shows "evolves R ctx w (snd (case p of (s, w') \<Rightarrow> body s w'))"
proof (cases p)
  case (Pair s w')
  with assms(1,2) have "evolves R ctx w w'" "evolves R ctx w' (snd (body s w'))" by auto
  then show ?thesis unfolding Pair evolves_def by (auto intro: trans)
qed

lemma evolves_sum:
  "(\<And>e. s = Inl e \<Longrightarrow> evolves R ctx w (snd (f e))) \<Longrightarrow> (\<And>x. s = Inr x \<Longrightarrow> evolves R ctx w (snd (g x))) \<Longrightarrow>
   evolves R ctx w (snd (case s of Inl e \<Rightarrow> f e | Inr x \<Rightarrow> g x))"
  by (cases s) auto

lemma evolves_option:
  "(s = None \<Longrightarrow> evolves R ctx w (snd f)) \<Longrightarrow> (\<And>x. s = Some x \<Longrightarrow> evolves R ctx w (snd (g x))) \<Longrightarrow>
   evolves R ctx w (snd (case s of None \<Rightarrow> f | Some x \<Rightarrow> g x))"
  by (cases s) auto

lemma evolves_pair:
  "(\<And>a b. p = (a, b) \<Longrightarrow> evolves R ctx w (snd (f a b))) \<Longrightarrow> evolves R ctx w (snd (case p of (a, b) \<Rightarrow> f a b))"
  by (cases p) auto

lemma evolves_if:
  "(b \<Longrightarrow> evolves R ctx w (snd f)) \<Longrightarrow> (\<not> b \<Longrightarrow> evolves R ctx w (snd g)) \<Longrightarrow>
   evolves R ctx w (snd (if b then f else g))"
  by simp

locale table_relation =
  fixes R :: "tables \<Rightarrow> tables \<Rightarrow> bool"
  assumes R_refl: "R T T"
    and R_trans: "R T U \<Longrightarrow> R U V \<Longrightarrow> R T V"
    and R_discard: "R T U \<Longrightarrow> R T (T\<lparr>audit_seq := audit_seq U\<rparr>)"
begin

lemma evolves_refl: "evolves R ctx w w"
  by (simp add: evolves_def R_refl)

lemma evolves_return: "evolves R ctx w (snd (r, w))"
  by (simp add: evolves_refl)

lemma evolves_bind:
  assumes "evolves R ctx w (snd p)" and "\<And>s w'. p = (s, w') \<Longrightarrow> evolves R ctx w' (snd (body s w'))"
  shows "evolves R ctx w (snd (case p of (s, w') \<Rightarrow> body s w'))"
  using assms R_trans by (rule evolves_prod)

lemmas evolves_rules = evolves_bind evolves_sum evolves_option evolves_if evolves_pair evolves_return

lemma evolves_time_Now: "evolves R ctx w (snd (time_Now w))"
  by (auto simp: evolves_def time_Now_def connected_def tx_within_def view_def R_refl split: option.splits)

lemma evolves_uuid: "evolves R ctx w (snd (uuid_NewString w))"
  by (auto simp: evolves_def uuid_NewString_def connected_def tx_within_def view_def R_refl split: option.splits)

lemma evolves_driver_call: "evolves R ctx w (snd (driver_call w))"
  by (auto simp: evolves_def driver_call_def connected_def tx_within_def view_def R_refl split: option.splits)

lemma evolves_fetch: "evolves R ctx w (snd (fetch_rows ctx rows w))"
  by (auto simp: evolves_def fetch_rows_def driver_call_def connected_def tx_within_def view_def R_refl
      split: option.splits)

lemma evolves_sql_exec:
  assumes st: "\<And>T x T'. st T = Inr (x, T') \<Longrightarrow> R T T'"
  shows "evolves R ctx w (snd (sql_exec ctx args st w))"
proof -
  have bt: "bind_text args st T = Inr (x, T') \<Longrightarrow> R T T'" for T x T'
    by (auto simp: bind_text_def split: if_splits intro: st)
  have pool: "\<not> ctx_Tx ctx \<Longrightarrow> evolves R ctx v (snd (pool_exec f (bind_text args st) v))" for f v
    by (auto simp: pool_exec_def evolves_def connected_def tx_within_def view_def R_refl
        split: option.split fault.split sum.split dest: bt)
  have tx: "ctx_Tx ctx \<Longrightarrow> evolves R ctx v (snd (tx_exec f (bind_text args st) v))" for f v
    by (auto simp: tx_exec_def evolves_def connected_def tx_within_def view_def R_refl
        split: option.split sum.split dest: bt intro: R_trans)
  show ?thesis unfolding sql_exec_def
    by (rule evolves_bind [OF evolves_driver_call]) (auto intro: pool tx)
qed

lemma evolves_read: "(\<And>T x T'. st T = Inr (x, T') \<Longrightarrow> T' = T) \<Longrightarrow> evolves R ctx w (snd (sql_exec ctx args st w))"
  by (rule evolves_sql_exec) (metis R_refl)

lemma evolves_RunInTx:
  assumes fn: "\<And>ctx w. evolves R ctx w (snd (fn ctx w))"
  shows "evolves R ctx w (snd (RunInTx ctx fn w))"
proof (cases "ctx_Tx ctx")
  case True
  then show ?thesis by (simp add: RunInTx_def fn)
next
  case False
  let ?c = "ctx\<lparr>ctx_Tx := True\<rparr>"
  have end_tx: "evolves R ctx w (snd (e v))"
    if "e = rollback_tx \<or> e = commit_tx" "connected ctx w \<longrightarrow> connected ?c v \<and> tx_within R v \<and> w_db v = w_db w"
      "w_env v = w_env w" for e :: "unit op" and v
    using that False
    by (auto simp: evolves_def rollback_tx_def commit_tx_def driver_call_def discard_tx_def keep_tx_def
        connected_def tx_within_def view_def intro: R_discard split: option.splits fault.splits if_splits)
  show ?thesis
  proof (cases "begin_tx w")
    case (Pair s v)
    have started: "w_env v = w_env w" "s = Inl e \<Longrightarrow> evolves R ctx w v"
      "s = Inr u \<Longrightarrow> connected ?c v \<and> tx_within R v \<and> w_db v = w_db w" for e u
      using Pair by (auto simp: begin_tx_def driver_call_def evolves_def connected_def tx_within_def
          view_def R_refl split: option.splits)
    obtain r u where run: "fn ?c v = (r, u)" by (cases "fn ?c v")
    have u: "s = Inr q \<Longrightarrow> connected ?c u \<and> tx_within R u \<and> w_db u = w_db w \<and> w_env u = w_env w" for q
      using fn [of ?c v] run started by (auto simp: evolves_def)
    show ?thesis
      using False Pair run started u end_tx [of rollback_tx u] end_tx [of commit_tx u]
      by (auto simp: RunInTx_def split: sum.splits prod.splits)
  qed
qed

end


text \<open>Every operation keeps the connection state: the trivial relation.\<close>

interpretation connection: table_relation "\<lambda>_ _. True"
  by unfold_locales simp_all

text \<open>Reading operations change nothing: equality.\<close>

interpretation frozen: table_relation "(=)"
  by unfold_locales simp_all

abbreviation keeps_connection :: "go_context \<Rightarrow> world \<Rightarrow> world \<Rightarrow> bool" where
  "keeps_connection \<equiv> evolves (\<lambda>_ _. True)"

section \<open>What an operation did\<close>

text \<open>
  \<open>moved ctx w w'\<close>: the operation that led from \<open>w\<close> to \<open>w'\<close> succeeded on a usable connection,
  so its effect is exactly the step from \<open>view ctx w\<close> to \<open>view ctx w'\<close>.
\<close>

definition moved :: "go_context \<Rightarrow> world \<Rightarrow> world \<Rightarrow> bool" where
  "moved ctx w w' \<longleftrightarrow> usable ctx w \<and> usable ctx w' \<and> w_env w' = w_env w \<and>
     (ctx_Tx ctx \<longrightarrow> w_db w' = w_db w)"

lemma moved_trans: "moved ctx w w' \<Longrightarrow> moved ctx w' w'' \<Longrightarrow> moved ctx w w''"
  by (simp add: moved_def)

lemma moved_refl: "usable ctx w \<Longrightarrow> moved ctx w w"
  by (simp add: moved_def)

lemma moved_usable: "moved ctx w w' \<Longrightarrow> usable ctx w'" "moved ctx w w' \<Longrightarrow> connected ctx w'"
  "usable ctx w \<Longrightarrow> connected ctx w"
  by (simp_all add: moved_def usable_def)

lemma bind_text_Inr: "bind_text args st T = Inr y \<longleftrightarrow>
    list_all (\<lambda>s. CHR 0x00 \<notin> set s) args \<and> st T = Inr y"
  by (simp add: bind_text_def)

lemma sql_exec_Inr:
  assumes "sql_exec ctx args st w = (Inr x, w')" "connected ctx w"
  shows "moved ctx w w'" and "st (view ctx w) = Inr (x, view ctx w')"
    and "list_all (\<lambda>s. CHR 0x00 \<notin> set s) args"
  using assms
  by (auto simp: sql_exec_def driver_call_def pool_exec_def tx_exec_def moved_def usable_def
      connected_def view_def bind_text_Inr
      split: if_splits option.splits fault.splits sum.splits prod.splits)

text \<open>An error of a statement comes from the driver or the server, never from the program's own kinds.\<close>

definition driver_error :: "go_error \<Rightarrow> bool" where
  "driver_error e \<longleftrightarrow> (\<exists>m. e = Plain m) \<or> (\<exists>c m. e = PgError c m)"

lemma driver_error_simps [simp]:
  "driver_error (Plain m)" "driver_error (PgError c m)" "driver_error nul_in_text"
  "driver_error bigint_out_of_range" "driver_error tx_is_aborted" "driver_error tx_done"
  "driver_error (unique_violation con)" "driver_error (foreign_key_violation tab con)"
  "driver_error (check_violation tab con)"
  by (simp_all add: driver_error_def nul_in_text_def bigint_out_of_range_def tx_is_aborted_def
      tx_done_def unique_violation_def foreign_key_violation_def check_violation_def)

lemma driver_error_Is [errs_simps]: "driver_error e \<Longrightarrow> \<not> errors_Is e s"
  "driver_error e \<Longrightarrow> \<not> errors_Is_NoRows e" "driver_error e \<Longrightarrow> errors_As_Validation e = None"
  by (auto simp: driver_error_def)

lemma sql_exec_Inl:
  assumes "sql_exec ctx args st w = (Inl e, w')" "\<And>T e. st T = Inl e \<Longrightarrow> driver_error e"
  shows "driver_error e"
proof -
  have "bind_text args st T = Inl e \<Longrightarrow> driver_error e" for T e
    using assms(2) by (auto simp: bind_text_def split: if_splits)
  then show ?thesis using assms(1)
    by (auto simp: sql_exec_def driver_call_def pool_exec_def tx_exec_def
        split: if_splits option.splits fault.splits sum.splits prod.splits)
qed

lemma sql_exec_InrD:
  "sql_exec ctx args st w = (Inr x, w') \<Longrightarrow> connected ctx w \<Longrightarrow>
     moved ctx w w' \<and> connected ctx w' \<and> st (view ctx w) = Inr (x, view ctx w') \<and>
     list_all (\<lambda>s. CHR 0x00 \<notin> set s) args"
  using sql_exec_Inr [of ctx args st w x w'] moved_usable(2) by blast

text \<open>Without faults a statement on a usable connection does what it says.\<close>

lemma sql_exec_fault_free:
  assumes "fault_free w" "usable ctx w"
  shows "st (view ctx w) = Inr (x, T) \<Longrightarrow> list_all (\<lambda>s. CHR 0x00 \<notin> set s) args \<Longrightarrow>
           sql_exec ctx args st w = (Inr x, set_view ctx T (w\<lparr>w_calls := Suc (w_calls w)\<rparr>))"
    and "st (view ctx w) = Inl e \<Longrightarrow> list_all (\<lambda>s. CHR 0x00 \<notin> set s) args \<Longrightarrow>
           \<exists>w'. sql_exec ctx args st w = (Inl e, w')"
  using assms
  by (auto simp: sql_exec_def driver_call_def pool_exec_def tx_exec_def usable_def fault_free_def
      connected_def view_def set_view_def bind_text_def split: option.splits)

lemma fault_free_evolves: "evolves R ctx w w' \<Longrightarrow> fault_free w' = fault_free w"
  by (simp add: evolves_def fault_free_def)

lemma calls_simps [simp]:
  "view ctx (w\<lparr>w_calls := n\<rparr>) = view ctx w" "usable ctx (w\<lparr>w_calls := n\<rparr>) = usable ctx w"
  "view ctx (w\<lparr>w_ticks := n\<rparr>) = view ctx w" "usable ctx (w\<lparr>w_ticks := n\<rparr>) = usable ctx w"
  "view ctx (w\<lparr>w_uuids := n\<rparr>) = view ctx w" "usable ctx (w\<lparr>w_uuids := n\<rparr>) = usable ctx w"
  "fault_free (w\<lparr>w_calls := n\<rparr>) = fault_free w" "fault_free (w\<lparr>w_ticks := n\<rparr>) = fault_free w"
  "fault_free (w\<lparr>w_uuids := n\<rparr>) = fault_free w"
  by (simp_all add: view_def usable_def connected_def fault_free_def)

lemma fetch_rows_ok:
  assumes "fetch_rows ctx rows w = ((rs, None), w')" "usable ctx w"
  shows "rs = rows \<and> moved ctx w w' \<and> view ctx w' = view ctx w"
  using assms by (auto simp: fetch_rows_def driver_call_def moved_def split: option.splits)

lemma set_view_simps [simp]:
  "usable ctx w \<Longrightarrow> view ctx (set_view ctx T w) = T"
  "usable ctx w \<Longrightarrow> usable ctx (set_view ctx T w)"
  "w_env (set_view ctx T w) = w_env w" "fault_free (set_view ctx T w) = fault_free w"
  "ctx_Tx ctx \<Longrightarrow> w_db (set_view ctx T w) = w_db w"
  "\<not> ctx_Tx ctx \<Longrightarrow> w_db (set_view ctx T w) = T"
  by (auto simp: view_def set_view_def usable_def connected_def fault_free_def)

text \<open>
  The unit of work is all or nothing: a result means the tables \<open>fn\<close> produced are committed; an
  error means nothing but the identity sequence moved, unless the commit took effect and only
  its reply was lost.
\<close>

definition in_tx :: "go_context \<Rightarrow> go_context" where
  "in_tx ctx = ctx\<lparr>ctx_Tx := True\<rparr>"

definition lost_commit :: "go_context \<Rightarrow> (go_context \<Rightarrow> 'a op) \<Rightarrow> world \<Rightarrow> world \<Rightarrow> bool" where
  "lost_commit ctx fn w w' \<longleftrightarrow> (\<exists>v a u. usable (in_tx ctx) v \<and> view (in_tx ctx) v = w_db w \<and>
     w_db v = w_db w \<and> w_env v = w_env w \<and> w_uuids v = w_uuids w \<and>
     fn (in_tx ctx) v = (Inr a, u) \<and> w_db w' = view (in_tx ctx) u \<and> \<not> fault_free w)"

lemma rollback_tx_db:
  assumes "rollback_tx u = (r, w')" "w_tx u = Some t"
  shows "w_db w' = (w_db u)\<lparr>audit_seq := audit_seq (tx_tables t)\<rparr> \<and> w_tx w' = None \<and> w_env w' = w_env u"
  using assms by (auto simp: rollback_tx_def driver_call_def discard_tx_def split: option.splits)

lemma commit_tx_db:
  assumes "commit_tx u = (r, w')" "w_tx u = Some t"
  shows "w_tx w' = None \<and> w_env w' = w_env u \<and>
    (case r of
       Inr _ \<Rightarrow> w_db w' = tx_tables t
     | Inl _ \<Rightarrow> w_db w' = (w_db u)\<lparr>audit_seq := audit_seq (tx_tables t)\<rparr> \<or>
         \<not> fault_free u \<and> w_db w' = tx_tables t)"
  using assms
  by (auto simp: commit_tx_def driver_call_def discard_tx_def keep_tx_def fault_free_def
      split: option.splits fault.splits if_splits)

lemma begin_tx_db:
  assumes "begin_tx w = (r, v)"
  shows "w_env v = w_env w \<and> w_db v = w_db w \<and> w_uuids v = w_uuids w \<and>
    (case r of
       Inr _ \<Rightarrow> w_tx v = Some \<lparr>tx_tables = w_db w, tx_aborted = False\<rparr>
     | Inl _ \<Rightarrow> w_tx v = w_tx w)"
  using assms by (auto simp: begin_tx_def driver_call_def split: option.splits)

lemma RunInTx_outcome:
  assumes run: "RunInTx ctx fn w = (r, w')" and idle: "\<not> ctx_Tx ctx" "w_tx w = None"
    and fn: "\<And>w. keeps_connection (in_tx ctx) w (snd (fn (in_tx ctx) w))"
  shows "w_tx w' = None \<and> w_env w' = w_env w \<and>
    (case r of
       Inr a \<Rightarrow> \<exists>v u. usable (in_tx ctx) v \<and> view (in_tx ctx) v = w_db w \<and> w_db v = w_db w \<and>
         w_env v = w_env w \<and> w_uuids v = w_uuids w \<and>
         fn (in_tx ctx) v = (Inr a, u) \<and> w_db w' = view (in_tx ctx) u
     | Inl e \<Rightarrow> (\<exists>n. w_db w' = (w_db w)\<lparr>audit_seq := n\<rparr>) \<or> lost_commit ctx fn w w')"
proof -
  obtain s v where b: "begin_tx w = (s, v)" by (cases "begin_tx w")
  note b_db = begin_tx_db [OF b]
  show ?thesis
  proof (cases s)
    case (Inl e)
    then obtain e where r: "r = Inl e" and eq: "w_db w' = (w_db w)\<lparr>audit_seq := audit_seq (w_db w)\<rparr>"
      and tx: "w_tx w' = None" "w_env w' = w_env w"
      using run idle b b_db by (auto simp: RunInTx_def)
    from eq have ex: "\<exists>n. w_db w' = (w_db w)\<lparr>audit_seq := n\<rparr>" ..
    show ?thesis unfolding r sum.case using ex tx by blast
  next
    case (Inr q)
    then have v: "usable (in_tx ctx) v" "view (in_tx ctx) v = w_db w" "w_db v = w_db w"
      "w_env v = w_env w" "w_uuids v = w_uuids w"
      using b_db by (simp_all add: in_tx_def usable_def connected_def view_def)
    obtain s' u where fnv: "fn (in_tx ctx) v = (s', u)" by (cases "fn (in_tx ctx) v")
    have u: "connected (in_tx ctx) u" "w_db u = w_db w" "w_env u = w_env w"
      using fn [of v] fnv v by (auto simp: evolves_def tx_within_def usable_def in_tx_def split: option.splits)
    then obtain t where t: "w_tx u = Some t" "view (in_tx ctx) u = tx_tables t"
      by (auto simp: connected_def in_tx_def view_def)
    have fnv': "fn (ctx\<lparr>ctx_Tx := True\<rparr>) v = (s', u)" using fnv by (simp add: in_tx_def)
    show ?thesis
    proof (cases s')
      case (Inl e)
      obtain s'' w'' where rb: "rollback_tx u = (s'', w'')" by (cases "rollback_tx u")
      have "w' = w''" "\<exists>e. r = Inl e"
        using run idle b Inr fnv' Inl rb by (auto simp: RunInTx_def split: sum.splits)
      then show ?thesis using rollback_tx_db [OF rb t(1)] u by auto
    next
      case (Inr a)
      obtain s'' w'' where cm: "commit_tx u = (s'', w'')" by (cases "commit_tx u")
      have w': "w' = w''" "case s'' of Inl _ \<Rightarrow> \<exists>e. r = Inl e | Inr _ \<Rightarrow> r = Inr a"
        using run idle b \<open>s = Inr q\<close> fnv' Inr cm by (auto simp: RunInTx_def split: sum.splits)
      have "fault_free u = fault_free w" using u by (simp add: fault_free_def)
      moreover have "lost_commit ctx fn w w'" if "w_db w' = tx_tables t" "\<not> fault_free w"
        unfolding lost_commit_def using that v fnv Inr t(2) by metis
      ultimately show ?thesis
        using commit_tx_db [OF cm t(1)] w' u t v fnv Inr by (cases s'') auto
    qed
  qed
qed


section \<open>What every operation of the program keeps\<close>

text \<open>
  \<open>durable T T'\<close>: the schema constraints still hold, the ledger and the audit trail have only
  grown at the end, no user and no account has gone or changed its identity, and the identity
  sequence has not gone back. \<open>same_ledger T T'\<close>: users, accounts and transactions are untouched.
\<close>

definition grows :: "'r list \<Rightarrow> 'r list \<Rightarrow> bool" where
  "grows xs ys \<longleftrightarrow> take (length xs) ys = xs"

lemma grows_refl [simp]: "grows xs xs"
  by (simp add: grows_def)

lemma grows_append [simp]: "grows xs (xs @ ys)"
  by (simp add: grows_def)

lemma grows_iff: "grows xs ys \<longleftrightarrow> (\<exists>zs. ys = xs @ zs)"
  unfolding grows_def by (metis append_take_drop_id append_eq_conv_conj)

lemma grows_trans: "grows xs ys \<Longrightarrow> grows ys zs \<Longrightarrow> grows xs zs"
  by (auto simp: grows_iff)

lemma grows_set: "grows xs ys \<Longrightarrow> set xs \<subseteq> set ys"
  by (auto simp: grows_iff)

definition user_identity :: "user_row \<Rightarrow> string \<times> string \<times> string \<times> string" where
  "user_identity u = (u_id u, u_email u, u_password_hash u, u_role u)"

definition account_identity :: "account_row \<Rightarrow> string \<times> string \<times> string" where
  "account_identity a = (a_id a, a_owner_id a, a_created_at a)"

definition durable :: "tables \<Rightarrow> tables \<Rightarrow> bool" where
  "durable T T' \<longleftrightarrow>
     (schema_ok T \<longrightarrow> schema_ok T') \<and> audit_seq T \<le> audit_seq T' \<and>
     grows (map user_identity (users T)) (map user_identity (users T')) \<and>
     grows (map account_identity (accounts T)) (map account_identity (accounts T')) \<and>
     grows (transactions T) (transactions T') \<and>
     grows (audit_entries T) (audit_entries T')"

definition same_ledger :: "tables \<Rightarrow> tables \<Rightarrow> bool" where
  "same_ledger T T' \<longleftrightarrow> users T' = users T \<and> accounts T' = accounts T \<and> transactions T' = transactions T"

lemma audit_ok_seq: "audit_ok T \<Longrightarrow> audit_seq T \<le> n \<Longrightarrow> audit_ok (T\<lparr>audit_seq := n\<rparr>)"
  by (auto simp: audit_ok_def list_all_iff)

lemma schema_ok_seq: "schema_ok T \<Longrightarrow> audit_seq T \<le> n \<Longrightarrow> schema_ok (T\<lparr>audit_seq := n\<rparr>)"
  using audit_ok_seq [of T n]
  by (simp add: schema_ok_def users_ok_def accounts_ok_def transactions_ok_def)

interpretation durable: table_relation durable
proof unfold_locales
  show "durable T T" for T by (simp add: durable_def)
  show "durable T U \<Longrightarrow> durable U V \<Longrightarrow> durable T V" for T U V
    unfolding durable_def by (elim conjE, intro conjI) (simp | erule (1) grows_trans)+
  show "durable T U \<Longrightarrow> durable T (T\<lparr>audit_seq := audit_seq U\<rparr>)" for T U
    using schema_ok_seq [of T "audit_seq U"] by (auto simp: durable_def)
qed

interpretation same_ledger: table_relation same_ledger
  by unfold_locales (auto simp: same_ledger_def)

lemma schema_ok_parts:
  "schema_ok T \<Longrightarrow> users_ok T" "schema_ok T \<Longrightarrow> accounts_ok T"
  "schema_ok T \<Longrightarrow> transactions_ok T" "schema_ok T \<Longrightarrow> audit_ok T"
  by (simp_all add: schema_ok_def)

lemma schema_ok_empty: "schema_ok empty_tables"
  by (simp add: schema_ok_def users_ok_def accounts_ok_def transactions_ok_def audit_ok_def
      empty_tables_def)


text \<open>An operation on the pool, seen from outside any transaction.\<close>

lemma evolves_idle:
  assumes "evolves R ctx w w'" "\<not> ctx_Tx ctx" "w_tx w = None"
  shows "w_tx w' = None \<and> R (w_db w) (w_db w') \<and> w_env w' = w_env w"
  using assms by (simp add: evolves_def connected_def tx_within_def)

section \<open>Running without failures\<close>

text \<open>
  Forward rules for a driver that does not fail: what a statement and the unit of work return and
  leave behind. \<open>clean\<close> text has no NUL byte.
\<close>

definition clean :: "string \<Rightarrow> bool" where
  "clean s \<longleftrightarrow> CHR 0x00 \<notin> set s"

lemma moved_fault_free: "moved ctx w w' \<Longrightarrow> fault_free w' = fault_free w"
  by (simp add: moved_def fault_free_def)

lemma sql_exec_runs:
  assumes "fault_free w" "usable ctx w" "list_all clean args" "st (view ctx w) = Inr (x, T)"
  shows "\<exists>w'. sql_exec ctx args st w = (Inr x, w') \<and> moved ctx w w' \<and> view ctx w' = T"
proof -
  have "sql_exec ctx args st w = (Inr x, set_view ctx T (w\<lparr>w_calls := Suc (w_calls w)\<rparr>))"
    using sql_exec_fault_free(1) [OF assms(1,2), where st = st] assms(3,4) by (simp add: clean_def [abs_def])
  then show ?thesis using assms(2) by (auto simp: moved_def)
qed

lemma in_tx_simps [simp]:
  "ctx_Tx (in_tx ctx)" "ctx_LoginClaim (in_tx ctx) = ctx_LoginClaim ctx"
  "IsGranted (in_tx ctx) p = IsGranted ctx p" "scope_arg (in_tx ctx) p u = scope_arg ctx p u"
  by (simp_all add: in_tx_def scope_arg_def)

lemma RunInTx_runs:
  assumes ff: "fault_free w" and idle: "\<not> ctx_Tx ctx" "w_tx w = None"
    and fn: "\<And>v. usable (in_tx ctx) v \<Longrightarrow> fault_free v \<Longrightarrow> view (in_tx ctx) v = w_db w \<Longrightarrow> w_env v = w_env w \<Longrightarrow>
      w_uuids v = w_uuids w \<Longrightarrow>
      \<exists>res u. fn (in_tx ctx) v = (res, u) \<and> moved (in_tx ctx) v u \<and> P res (view (in_tx ctx) u)"
  shows "\<exists>res w' T. RunInTx ctx fn w = (res, w') \<and> P res T \<and> w_tx w' = None \<and> w_env w' = w_env w \<and>
    w_db w' = (case res of Inr _ \<Rightarrow> T | Inl _ \<Rightarrow> (w_db w)\<lparr>audit_seq := audit_seq T\<rparr>)"
proof -
  define v where "v = w\<lparr>w_calls := Suc (w_calls w), w_tx := Some \<lparr>tx_tables = w_db w, tx_aborted = False\<rparr>\<rparr>"
  have b: "begin_tx w = (Inr (), v)"
    using ff by (simp add: begin_tx_def driver_call_def v_def fault_free_def)
  have "usable (in_tx ctx) v" "view (in_tx ctx) v = w_db w" "w_env v = w_env w" "w_uuids v = w_uuids w" "fault_free v"
    using ff by (simp_all add: v_def usable_def connected_def view_def in_tx_def fault_free_def)
  with fn obtain res u where u: "fn (in_tx ctx) v = (res, u)" "moved (in_tx ctx) v u" "P res (view (in_tx ctx) u)" by metis
  then have u_env: "w_env u = w_env w" "w_db u = w_db w" by (simp_all add: moved_def v_def)
  obtain t where t: "w_tx u = Some t" "view (in_tx ctx) u = tx_tables t" "\<not> tx_aborted t"
    using u(2) by (auto simp: moved_def usable_def connected_def view_def)
  have run: "fn (ctx\<lparr>ctx_Tx := True\<rparr>) v = (res, u)" using u(1) by (simp add: in_tx_def)
  show ?thesis
    using idle b run t u(3) ff u_env
    by (cases res) (auto simp: RunInTx_def rollback_tx_def commit_tx_def driver_call_def discard_tx_def
        keep_tx_def fault_free_def intro!: exI [of _ "tx_tables t"])
qed

end
