(* ===== verification/AccountRepository.thy ===== *)
theory AccountRepository
  imports Database
begin

text \<open>
  The accounts and their repository (\<open>pkg/accounts/account.go\<close>, \<open>accountRepository.go\<close>,
  \<open>accountRepositoryValidations.go\<close> and \<open>internal/pkg/accounts/accountRepositoryImpl.go\<close>): the SQL
  statements, the scan of a row and the six operations, each with its validation, its ownership
  scope and its error translation. The locale \<open>scoped_lookup\<close> is the read contract the
  repositories share: a row of another owner answers as a missing row.
\<close>

section \<open>Data and requests\<close>

record Account =
  acc_ID :: string
  acc_OwnerID :: string
  acc_Name :: string
  acc_Balance :: int64
  acc_CreatedAt :: gotime

record CreateAccountRequest =
  car_Account :: Account

record ListAccountsRequest =
  lar_UserID :: string

record GetAccountByIDRequest =
  gar_AccountID :: string
  gar_UserID :: string

record GetAccountBalanceRequest =
  gbr_AccountID :: string
  gbr_UserID :: string

record UpdateAccountBalanceRequest =
  ubr_AccountID :: string
  ubr_Delta :: int64
  ubr_UserID :: string

record UpdateAccountNameRequest =
  unr_AccountID :: string
  unr_Name :: string
  unr_UserID :: string

definition CreateAccountRequest_Validate :: "CreateAccountRequest \<Rightarrow> go_error option" where
  "CreateAccountRequest_Validate r = NewValidationError (
     (if acc_OwnerID (car_Account r) = [] then [''OwnerID is required''] else []) @
     (if acc_Name (car_Account r) = [] then [''Name is required''] else []) @
     (if sint (acc_Balance (car_Account r)) < 0 then [''Balance must be >= 0''] else []))"

definition GetAccountByIDRequest_Validate :: "GetAccountByIDRequest \<Rightarrow> go_error option" where
  "GetAccountByIDRequest_Validate r = NewValidationError (
     (if gar_AccountID r = [] then [''AccountID is required''] else []) @
     (if gar_UserID r = [] then [''UserID is required''] else []))"

definition GetAccountBalanceRequest_Validate :: "GetAccountBalanceRequest \<Rightarrow> go_error option" where
  "GetAccountBalanceRequest_Validate r = NewValidationError (
     (if gbr_AccountID r = [] then [''AccountID is required''] else []) @
     (if gbr_UserID r = [] then [''UserID is required''] else []))"

definition UpdateAccountBalanceRequest_Validate :: "UpdateAccountBalanceRequest \<Rightarrow> go_error option" where
  "UpdateAccountBalanceRequest_Validate r = NewValidationError (
     (if ubr_AccountID r = [] then [''AccountID is required''] else []) @
     (if ubr_Delta r = 0 then [''Delta must be non-zero''] else []) @
     (if ubr_UserID r = [] then [''UserID is required''] else []))"

definition UpdateAccountNameRequest_Validate :: "UpdateAccountNameRequest \<Rightarrow> go_error option" where
  "UpdateAccountNameRequest_Validate r = NewValidationError (
     (if unr_AccountID r = [] then [''AccountID is required''] else []) @
     (if unr_Name r = [] then [''Name is required''] else []) @
     (if unr_UserID r = [] then [''UserID is required''] else []))"

definition ListAccountsRequest_Validate :: "ListAccountsRequest \<Rightarrow> go_error option" where
  "ListAccountsRequest_Validate r = NewValidationError (
     (if lar_UserID r = [] then [''UserID is required''] else []))"

section \<open>Statements\<close>

definition insert_account :: "account_row \<Rightarrow> unit stmt" where
  "insert_account row T =
     (if sint (a_balance row) < 0 then Inl (check_violation ''accounts'' ''accounts_balance_check'')
      else if list_ex (\<lambda>a. a_id a = a_id row) (accounts T) then Inl (unique_violation ''accounts_pkey'')
      else if \<not> list_ex (\<lambda>u. u_id u = a_owner_id row) (users T) then
        Inl (foreign_key_violation ''accounts'' ''accounts_owner_id_fkey'')
      else Inr ((), T\<lparr>accounts := accounts T @ [row]\<rparr>))"

definition account_before :: "(string \<Rightarrow> string \<Rightarrow> bool) \<Rightarrow> account_row \<Rightarrow> account_row \<Rightarrow> bool" where
  "account_before le x y \<longleftrightarrow> text_lt le (a_created_at x) (a_created_at y) \<or>
     a_created_at x = a_created_at y \<and> text_lt le (a_id x) (a_id y)"

definition select_accounts :: "(string \<Rightarrow> string \<Rightarrow> bool) \<Rightarrow> string option \<Rightarrow> account_row list stmt" where
  "select_accounts le sc T =
     Inr (sort_SliceStable (account_before le) (filter (\<lambda>a. in_scope sc (a_owner_id a)) (accounts T)), T)"

definition select_account :: "string \<Rightarrow> string option \<Rightarrow> account_row option stmt" where
  "select_account aid sc T =
     Inr (List.find (\<lambda>a. a_id a = aid \<and> in_scope sc (a_owner_id a)) (accounts T), T)"

definition select_balance :: "string \<Rightarrow> string option \<Rightarrow> int64 option stmt" where
  "select_balance aid sc T =
     Inr (map_option a_balance (List.find (\<lambda>a. a_id a = aid \<and> in_scope sc (a_owner_id a)) (accounts T)), T)"

text \<open>
  The overdraft-guarded update. \<open>balance + $1\<close> is checked \<open>BIGINT\<close> arithmetic: an overflow on the
  row the primary key finds is an error of the statement.
\<close>

definition balance_hit :: "string \<Rightarrow> int64 \<Rightarrow> string option \<Rightarrow> account_row \<Rightarrow> bool" where
  "balance_hit aid delta sc a \<longleftrightarrow>
     a_id a = aid \<and> 0 \<le> sint (a_balance a) + sint delta \<and> in_scope sc (a_owner_id a)"

definition update_balance :: "string \<Rightarrow> int64 \<Rightarrow> string option \<Rightarrow> nat stmt" where
  "update_balance aid delta sc T =
     (if list_ex (\<lambda>a. a_id a = aid \<and> \<not> fits64 (sint (a_balance a) + sint delta)) (accounts T) then
        Inl bigint_out_of_range
      else Inr (length (filter (balance_hit aid delta sc) (accounts T)),
        T\<lparr>accounts := update_where (balance_hit aid delta sc)
            (\<lambda>a. a\<lparr>a_balance := a_balance a + delta\<rparr>) (accounts T)\<rparr>))"

definition update_name :: "string \<Rightarrow> string \<Rightarrow> string option \<Rightarrow> account_row option stmt" where
  "update_name aid nm sc T =
     (let rows = update_where (\<lambda>a. a_id a = aid \<and> in_scope sc (a_owner_id a)) (\<lambda>a. a\<lparr>a_name := nm\<rparr>) (accounts T)
      in Inr (List.find (\<lambda>a. a_id a = aid \<and> in_scope sc (a_owner_id a)) rows, T\<lparr>accounts := rows\<rparr>))"

section \<open>Operations\<close>

text \<open>The rest of \<open>scanAccount\<close> once the columns are read.\<close>

definition account_of_row :: "account_row \<Rightarrow> go_error + Account" where
  "account_of_row r =
     (case ParseTime (a_created_at r) of
        Inl err \<Rightarrow> Inl err
      | Inr parsedCreatedAt \<Rightarrow>
          Inr \<lparr>acc_ID = a_id r, acc_OwnerID = a_owner_id r, acc_Name = a_name r,
               acc_Balance = a_balance r, acc_CreatedAt = parsedCreatedAt\<rparr>)"

definition scanAccount :: "go_error + account_row option \<Rightarrow> go_error + Account" where
  "scanAccount row =
     (case row of
        Inl err \<Rightarrow> Inl (Wrapped ''could not scan account'' err)
      | Inr None \<Rightarrow> Inl SqlNoRows
      | Inr (Some r) \<Rightarrow> account_of_row r)"

text \<open>The row loop of \<open>List\<close>: the first row that does not scan ends it.\<close>

primrec scanAccounts :: "account_row list \<Rightarrow> go_error + Account list" where
  "scanAccounts [] = Inr []"
| "scanAccounts (r # rows) =
     (case scanAccount (Inr (Some r)) of
        Inl err \<Rightarrow> Inl err
      | Inr account \<Rightarrow>
          (case scanAccounts rows of Inl err \<Rightarrow> Inl err | Inr as \<Rightarrow> Inr (account # as)))"

definition AccountRepository_Create :: "go_context \<Rightarrow> CreateAccountRequest \<Rightarrow> Account op" where
  "AccountRepository_Create ctx request w =
     (case CreateAccountRequest_Validate request of
        Some err \<Rightarrow> (Inl (Wrapped ''invalid request for Create'' err), w)
      | None \<Rightarrow>
        (case (if acc_ID (car_Account request) = [] then
                 (case uuid_NewString w of (new, w) \<Rightarrow> ((car_Account request)\<lparr>acc_ID := new\<rparr>, w))
               else (car_Account request, w)) of (account, w) \<Rightarrow>
        (case sql_exec ctx
             [acc_ID account, acc_OwnerID account, acc_Name account, FormatTime (acc_CreatedAt account)]
             (insert_account \<lparr>a_id = acc_ID account, a_owner_id = acc_OwnerID account,
                a_name = acc_Name account, a_balance = acc_Balance account,
                a_created_at = FormatTime (acc_CreatedAt account)\<rparr>) w of
           (Inl err, w) \<Rightarrow>
             if IsUniqueConstraintViolation err then
               (Inl (Wrapped (''account '' @ acc_ID account) (Sentinel ErrAlreadyExists)), w)
             else (Inl (Wrapped ''could not insert account'' err), w)
         | (Inr _, w) \<Rightarrow> (Inr account, w))))"

definition AccountRepository_List :: "go_context \<Rightarrow> ListAccountsRequest \<Rightarrow> Account list op" where
  "AccountRepository_List ctx request w =
     (case ListAccountsRequest_Validate request of
        Some err \<Rightarrow> (Inl (Wrapped ''invalid request for List'' err), w)
      | None \<Rightarrow>
        let sc = scope_arg ctx PermAccountReadAll (lar_UserID request) in
        (case sql_exec ctx (scope_args sc) (select_accounts (env_text_le (w_env w)) sc) w of
           (Inl err, w) \<Rightarrow> (Inl (Wrapped ''could not query accounts'' err), w)
         | (Inr rows, w) \<Rightarrow>
             (case fetch_rows ctx rows w of ((rows, iterErr), w) \<Rightarrow>
                (case scanAccounts rows of
                   Inl err \<Rightarrow> (Inl err, w)
                 | Inr accs \<Rightarrow>
                     (case iterErr of
                        Some err \<Rightarrow> (Inl (Wrapped ''could not iterate accounts'' err), w)
                      | None \<Rightarrow> (Inr accs, w))))))"

definition AccountRepository_GetByID :: "go_context \<Rightarrow> GetAccountByIDRequest \<Rightarrow> Account op" where
  "AccountRepository_GetByID ctx request w =
     (case GetAccountByIDRequest_Validate request of
        Some err \<Rightarrow> (Inl (Wrapped ''invalid request for GetByID'' err), w)
      | None \<Rightarrow>
        let sc = scope_arg ctx PermAccountReadAll (gar_UserID request) in
        (case sql_exec ctx (gar_AccountID request # scope_args sc)
                (select_account (gar_AccountID request) sc) w of
           (row, w) \<Rightarrow>
             (case scanAccount row of
                Inl err \<Rightarrow>
                  if errors_Is_NoRows err then
                    (Inl (Wrapped (''account '' @ gar_AccountID request) (Sentinel ErrNotFound)), w)
                  else (Inl err, w)
              | Inr account \<Rightarrow> (Inr account, w))))"

definition AccountRepository_GetAccountBalance :: "go_context \<Rightarrow> GetAccountBalanceRequest \<Rightarrow> int64 op" where
  "AccountRepository_GetAccountBalance ctx request w =
     (case GetAccountBalanceRequest_Validate request of
        Some err \<Rightarrow> (Inl (Wrapped ''invalid request for GetAccountBalance'' err), w)
      | None \<Rightarrow>
        let sc = scope_arg ctx PermAccountReadAll (gbr_UserID request) in
        (case sql_exec ctx (gbr_AccountID request # scope_args sc)
                (select_balance (gbr_AccountID request) sc) w of
           (Inr None, w) \<Rightarrow>
             (Inl (Wrapped (''account '' @ gbr_AccountID request) (Sentinel ErrNotFound)), w)
         | (Inl err, w) \<Rightarrow> (Inl (Wrapped ''could not read account balance'' err), w)
         | (Inr (Some balance), w) \<Rightarrow> (Inr balance, w)))"

definition AccountRepository_UpdateAccountBalance :: "go_context \<Rightarrow> UpdateAccountBalanceRequest \<Rightarrow> int64 op" where
  "AccountRepository_UpdateAccountBalance ctx request w =
     (case UpdateAccountBalanceRequest_Validate request of
        Some err \<Rightarrow> (Inl (Wrapped ''invalid request for UpdateAccountBalance'' err), w)
      | None \<Rightarrow>
        let sc = scope_arg ctx PermAccountWriteAll (ubr_UserID request); aid = ubr_AccountID request in
        (case sql_exec ctx (aid # scope_args sc) (update_balance aid (ubr_Delta request) sc) w of
           (Inl err, w) \<Rightarrow> (Inl (Wrapped ''could not update account balance'' err), w)
         | (Inr affected, w) \<Rightarrow>
             if affected = 0 then
               (case sql_exec ctx (aid # scope_args sc) (select_balance aid sc) w of
                  (Inr None, w) \<Rightarrow> (Inl (Wrapped (''account '' @ aid) (Sentinel ErrNotFound)), w)
                | (Inl err, w) \<Rightarrow> (Inl (Wrapped ''could not read account balance'' err), w)
                | (Inr (Some balance), w) \<Rightarrow>
                    (Inl (Wrapped (''account '' @ aid) (Sentinel ErrInsufficientBalance)), w))
             else
               (case sql_exec ctx [aid] (select_balance aid None) w of
                  (Inr None, w) \<Rightarrow> (Inl (Wrapped ''could not read updated account balance'' SqlNoRows), w)
                | (Inl err, w) \<Rightarrow> (Inl (Wrapped ''could not read updated account balance'' err), w)
                | (Inr (Some balance), w) \<Rightarrow> (Inr balance, w))))"

definition AccountRepository_UpdateAccountName :: "go_context \<Rightarrow> UpdateAccountNameRequest \<Rightarrow> Account op" where
  "AccountRepository_UpdateAccountName ctx request w =
     (case UpdateAccountNameRequest_Validate request of
        Some err \<Rightarrow> (Inl (Wrapped ''invalid request for UpdateAccountName'' err), w)
      | None \<Rightarrow>
        let sc = scope_arg ctx PermAccountWriteAll (unr_UserID request); aid = unr_AccountID request in
        (case sql_exec ctx (unr_Name request # aid # scope_args sc) (update_name aid (unr_Name request) sc) w of
           (row, w) \<Rightarrow>
             (case scanAccount row of
                Inl err \<Rightarrow>
                  if errors_Is_NoRows err then
                    (Inl (Wrapped (''account '' @ aid) (Sentinel ErrNotFound)), w)
                  else (Inl err, w)
              | Inr account \<Rightarrow> (Inr account, w))))"


section \<open>Validation\<close>

lemma account_requests_valid [valid_simps]:
  "CreateAccountRequest_Validate r = None \<longleftrightarrow> acc_OwnerID (car_Account r) \<noteq> [] \<and>
     acc_Name (car_Account r) \<noteq> [] \<and> 0 \<le> sint (acc_Balance (car_Account r))"
  "GetAccountByIDRequest_Validate r1 = None \<longleftrightarrow> gar_AccountID r1 \<noteq> [] \<and> gar_UserID r1 \<noteq> []"
  "GetAccountBalanceRequest_Validate r2 = None \<longleftrightarrow> gbr_AccountID r2 \<noteq> [] \<and> gbr_UserID r2 \<noteq> []"
  "UpdateAccountBalanceRequest_Validate r3 = None \<longleftrightarrow>
     ubr_AccountID r3 \<noteq> [] \<and> ubr_Delta r3 \<noteq> 0 \<and> ubr_UserID r3 \<noteq> []"
  "UpdateAccountNameRequest_Validate r4 = None \<longleftrightarrow>
     unr_AccountID r4 \<noteq> [] \<and> unr_Name r4 \<noteq> [] \<and> unr_UserID r4 \<noteq> []"
  "ListAccountsRequest_Validate r5 = None \<longleftrightarrow> lar_UserID r5 \<noteq> []"
  by (auto simp: CreateAccountRequest_Validate_def GetAccountByIDRequest_Validate_def
      GetAccountBalanceRequest_Validate_def UpdateAccountBalanceRequest_Validate_def
      UpdateAccountNameRequest_Validate_def ListAccountsRequest_Validate_def)

section \<open>Statements keep the schema\<close>

lemma account_reads_frame:
  "select_accounts le sc T = Inr (x1, T') \<Longrightarrow> T' = T"
  "select_account aid sc T = Inr (x2, T') \<Longrightarrow> T' = T"
  "select_balance aid sc T = Inr (x3, T') \<Longrightarrow> T' = T"
  by (simp_all add: select_accounts_def select_account_def select_balance_def)

lemma durable_accountsI:
  assumes ok: "accounts_ok T \<Longrightarrow> accounts_ok (T\<lparr>accounts := as\<rparr>)"
    and ids: "grows (map account_identity (accounts T)) (map account_identity as)"
  shows "durable T (T\<lparr>accounts := as\<rparr>)"
proof -
  have "fst ` set (map account_identity (accounts T)) \<subseteq> fst ` set (map account_identity as)"
    using grows_set [OF ids] by (rule image_mono)
  then have "set (map a_id (accounts T)) \<subseteq> set (map a_id as)"
    by (simp add: image_image account_identity_def)
  then have "transactions_ok T \<Longrightarrow> transactions_ok (T\<lparr>accounts := as\<rparr>)"
    by (auto simp: transactions_ok_def list_all_iff)
  then show ?thesis
    using ok ids by (simp add: durable_def schema_ok_def users_ok_def audit_ok_def)
qed

lemma insert_account_Inr:
  "insert_account row T = Inr (x, T') \<longleftrightarrow>
     0 \<le> sint (a_balance row) \<and> a_id row \<notin> a_id ` set (accounts T) \<and>
     a_owner_id row \<in> u_id ` set (users T) \<and> T' = T\<lparr>accounts := accounts T @ [row]\<rparr>"
  by (auto simp: insert_account_def list_ex_key)

lemma insert_account_durable: "insert_account row T = Inr (x, T') \<Longrightarrow> durable T T'"
  by (auto simp: insert_account_Inr accounts_ok_def intro!: durable_accountsI)

lemma accounts_update_durable:
  assumes ids: "\<And>a. account_identity (f a) = account_identity a"
    and pos: "\<And>a. a \<in> set (accounts T) \<Longrightarrow> P a \<Longrightarrow> 0 \<le> sint (a_balance a) \<Longrightarrow> 0 \<le> sint (a_balance (f a))"
  shows "durable T (T\<lparr>accounts := update_where P f (accounts T)\<rparr>)"
proof (rule durable_accountsI)
  have keys: "\<And>a. a_id (f a) = a_id a" "\<And>a. a_owner_id (f a) = a_owner_id a"
    using ids by (simp_all add: account_identity_def)
  then show "accounts_ok T \<Longrightarrow> accounts_ok (T\<lparr>accounts := update_where P f (accounts T)\<rparr>)"
    using pos by (auto simp: accounts_ok_def list_all_iff set_update_where)
qed (simp add: ids)

lemma update_balance_durable: "update_balance aid delta sc T = Inr (n, T') \<Longrightarrow> durable T T'"
  by (auto simp: update_balance_def list_ex_iff balance_hit_def account_identity_def sint_add_fits
      intro!: accounts_update_durable split: if_splits)

lemma update_name_durable: "update_name aid nm sc T = Inr (x, T') \<Longrightarrow> durable T T'"
  by (auto simp: update_name_def Let_def account_identity_def intro!: accounts_update_durable)

context table_relation
begin

lemma AccountRepository_reads_evolve:
  "evolves R ctx w (snd (AccountRepository_List ctx r1 w))"
  "evolves R ctx w (snd (AccountRepository_GetByID ctx r2 w))"
  "evolves R ctx w (snd (AccountRepository_GetAccountBalance ctx r3 w))"
  unfolding AccountRepository_List_def AccountRepository_GetByID_def
    AccountRepository_GetAccountBalance_def Let_def
  by (intro evolves_rules evolves_read evolves_fetch; blast dest: account_reads_frame)+

lemma AccountRepository_Create_evolves:
  "(\<And>row T x T'. insert_account row T = Inr (x, T') \<Longrightarrow> R T T') \<Longrightarrow>
   evolves R ctx w (snd (AccountRepository_Create ctx request w))"
  unfolding AccountRepository_Create_def
  by (intro evolves_rules evolves_sql_exec evolves_uuid) blast+

lemma AccountRepository_UpdateAccountBalance_evolves:
  "(\<And>aid d sc T n T'. update_balance aid d sc T = Inr (n, T') \<Longrightarrow> R T T') \<Longrightarrow>
   evolves R ctx w (snd (AccountRepository_UpdateAccountBalance ctx request w))"
  unfolding AccountRepository_UpdateAccountBalance_def Let_def
  by (intro evolves_rules evolves_sql_exec; metis account_reads_frame(3) R_refl)

lemma AccountRepository_UpdateAccountName_evolves:
  "(\<And>aid nm sc T x T'. update_name aid nm sc T = Inr (x, T') \<Longrightarrow> R T T') \<Longrightarrow>
   evolves R ctx w (snd (AccountRepository_UpdateAccountName ctx request w))"
  unfolding AccountRepository_UpdateAccountName_def Let_def
  by (intro evolves_rules evolves_sql_exec) blast+

end


section \<open>The scoped read contract\<close>

text \<open>
  \<open>select k sc\<close> reads at most one row by key, restricted to an owner when the scope names one. Its
  clients learn nothing about rows of other owners: the answer to a scoped read is a function of
  the user's own rows, and a foreign row answers like a missing one.
\<close>

locale scoped_lookup =
  fixes select :: "'k \<Rightarrow> string option \<Rightarrow> 'v option stmt"
    and rows :: "tables \<Rightarrow> 'r list" and key :: "'r \<Rightarrow> 'k" and owner_of :: "'r \<Rightarrow> string"
    and value_of :: "'r \<Rightarrow> 'v"
  assumes select_find: "select k sc T =
    Inr (map_option value_of (List.find (\<lambda>r. key r = k \<and> in_scope sc (owner_of r)) (rows T)), T)"
begin

definition own_rows :: "string \<Rightarrow> tables \<Rightarrow> 'r list" where
  "own_rows u T = filter (\<lambda>r. owner_of r = u) (rows T)"

lemma select_own: "select k (Some u) T = Inr (map_option value_of (List.find (\<lambda>r. key r = k) (own_rows u T)), T)"
proof -
  have "List.find (\<lambda>r. key r = k \<and> owner_of r = u) xs = List.find (\<lambda>r. key r = k) (filter (\<lambda>r. owner_of r = u) xs)" for xs
    by (induction xs) auto
  then show ?thesis by (simp add: select_find own_rows_def in_scope_def)
qed

lemma no_interference: "own_rows u T1 = own_rows u T2 \<Longrightarrow>
    map_sum (\<lambda>e. e) fst (select k (Some u) T1) = map_sum (\<lambda>e. e) fst (select k (Some u) T2)"
  by (simp add: select_own)

lemma foreign_is_missing: "(\<And>r. r \<in> set (rows T) \<Longrightarrow> key r = k \<Longrightarrow> owner_of r \<noteq> u) \<Longrightarrow>
    select k (Some u) T = Inr (None, T)"
  by (auto simp: select_find in_scope_def find_None_iff)

lemma select_Some: "select k sc T = Inr (Some v, T') \<Longrightarrow>
    T' = T \<and> (\<exists>r \<in> set (rows T). key r = k \<and> in_scope sc (owner_of r) \<and> v = value_of r)"
  by (auto simp: select_find find_Some_iff)

lemma select_unique:
  assumes "distinct (map key (rows T))" "r \<in> set (rows T)" "in_scope sc (owner_of r)"
  shows "select (key r) sc T = Inr (Some (value_of r), T)"
proof -
  have "distinct (map key xs) \<Longrightarrow> r \<in> set xs \<Longrightarrow>
      List.find (\<lambda>x. key x = key r \<and> in_scope sc (owner_of x)) xs = Some r" for xs
    using assms(3) by (induction xs) auto
  then show ?thesis using assms by (simp add: select_find)
qed

end

interpretation account_lookup: scoped_lookup select_account accounts a_id a_owner_id "\<lambda>r. r"
  by unfold_locales (simp add: select_account_def option.map_ident)

interpretation balance_lookup: scoped_lookup select_balance accounts a_id a_owner_id a_balance
  by unfold_locales (simp add: select_balance_def)

section \<open>What the operations return\<close>

lemma scanAccount_Inr: "scanAccount row = Inr a \<longleftrightarrow> (\<exists>r. row = Inr (Some r) \<and> account_of_row r = Inr a)"
  by (auto simp: scanAccount_def split: sum.splits option.splits)

lemma account_of_row_Inr: "account_of_row r = Inr a \<Longrightarrow>
    acc_ID a = a_id r \<and> acc_OwnerID a = a_owner_id r \<and> acc_Name a = a_name r \<and> acc_Balance a = a_balance r"
  by (auto simp: account_of_row_def split: sum.splits)

lemma AccountRepository_GetByID_Inr:
  assumes "AccountRepository_GetByID ctx req w = (Inr acc, w')" "connected ctx w"
  shows "moved ctx w w' \<and> view ctx w' = view ctx w \<and>
    (\<exists>r \<in> set (accounts (view ctx w)). a_id r = gar_AccountID req \<and>
       in_scope (scope_arg ctx PermAccountReadAll (gar_UserID req)) (a_owner_id r) \<and>
       account_of_row r = Inr acc)"
  using assms
  by (auto simp: AccountRepository_GetByID_def Let_def scanAccount_Inr
      split: option.splits prod.splits sum.splits if_splits
      dest!: sql_exec_InrD account_lookup.select_Some)

lemma update_balance_Inr:
  assumes ok: "accounts_ok T" and run: "update_balance aid d sc T = Inr (n, T')"
  shows "n = 0 \<and> T' = T \<and> (\<forall>a \<in> set (accounts T). \<not> balance_hit aid d sc a) \<or>
    n = 1 \<and> (\<exists>r \<in> set (accounts T). balance_hit aid d sc r \<and> fits64 (sint (a_balance r) + sint d) \<and>
      T' = T\<lparr>accounts := update_where (\<lambda>a. a_id a = aid) (\<lambda>a. a\<lparr>a_balance := a_balance a + d\<rparr>) (accounts T)\<rparr>)"
proof (cases "\<exists>r \<in> set (accounts T). balance_hit aid d sc r")
  case True
  then obtain r where r: "r \<in> set (accounts T)" "balance_hit aid d sc r" by blast
  have key: "a \<in> set (accounts T) \<Longrightarrow> a_id a = aid \<longleftrightarrow> a = r" for a
    using r ok by (auto simp: balance_hit_def accounts_ok_def distinct_map inj_on_def)
  then have hit: "a \<in> set (accounts T) \<Longrightarrow> balance_hit aid d sc a \<longleftrightarrow> a = r" for a
    using r by (auto simp: balance_hit_def)
  have "filter (balance_hit aid d sc) (accounts T) = filter (\<lambda>a. a = r) (accounts T)"
    using hit by (rule filter_cong [OF refl])
  moreover have "distinct (accounts T)" using ok by (auto simp: accounts_ok_def distinct_map)
  ultimately have "length (filter (balance_hit aid d sc) (accounts T)) = 1"
    using r(1) distinct_length_filter [of "accounts T" "\<lambda>a. a = r"] by simp
  moreover have "update_where (balance_hit aid d sc) f (accounts T) = update_where (\<lambda>a. a_id a = aid) f (accounts T)" for f
    using key hit by (simp add: update_where_def)
  ultimately show ?thesis
    using run r by (auto simp: update_balance_def list_ex_iff balance_hit_def split: if_splits)
next
  case False
  then show ?thesis using run
    by (auto simp: update_balance_def update_where_none split: if_splits)
qed

lemma AccountRepository_UpdateAccountBalance_Inr:
  assumes run: "AccountRepository_UpdateAccountBalance ctx req w = (Inr b, w')" "connected ctx w"
    and ok: "accounts_ok (view ctx w)"
  shows "moved ctx w w' \<and>
    (\<exists>r \<in> set (accounts (view ctx w)). a_id r = ubr_AccountID req \<and>
       0 \<le> sint (a_balance r) + sint (ubr_Delta req) \<and> fits64 (sint (a_balance r) + sint (ubr_Delta req)) \<and>
       in_scope (scope_arg ctx PermAccountWriteAll (ubr_UserID req)) (a_owner_id r) \<and>
       b = a_balance r + ubr_Delta req \<and>
       view ctx w' = (view ctx w)\<lparr>accounts := update_where (\<lambda>a. a_id a = ubr_AccountID req)
         (\<lambda>a. a\<lparr>a_balance := a_balance a + ubr_Delta req\<rparr>) (accounts (view ctx w))\<rparr>)"
proof -
  let ?T = "view ctx w" and ?d = "ubr_Delta req" and ?aid = "ubr_AccountID req"
  let ?sc = "scope_arg ctx PermAccountWriteAll (ubr_UserID req)"
  obtain n w1 where n: "n \<noteq> 0" "moved ctx w w1" "update_balance ?aid ?d ?sc ?T = Inr (n, view ctx w1)"
    and b: "moved ctx w1 w'" "select_balance ?aid None (view ctx w1) = Inr (Some b, view ctx w')"
    using run by (auto simp: AccountRepository_UpdateAccountBalance_def Let_def
      split: option.splits prod.splits sum.splits if_splits dest!: sql_exec_InrD)
  from update_balance_Inr [OF ok n(3)] n(1) obtain r where r: "r \<in> set (accounts ?T)"
    "balance_hit ?aid ?d ?sc r" "fits64 (sint (a_balance r) + sint ?d)" and
    T1: "view ctx w1 = ?T\<lparr>accounts := update_where (\<lambda>a. a_id a = ?aid)
         (\<lambda>a. a\<lparr>a_balance := a_balance a + ?d\<rparr>) (accounts ?T)\<rparr>"
    by auto
  let ?r = "r\<lparr>a_balance := a_balance r + ?d\<rparr>"
  have "?r \<in> set (accounts (view ctx w1))" "a_id ?r = ?aid"
    using r(1,2) by (auto simp: T1 set_update_where balance_hit_def image_iff)
  moreover have "distinct (map a_id (accounts (view ctx w1)))"
    using ok by (simp add: T1 accounts_ok_def)
  ultimately have "b = a_balance r + ?d" "view ctx w' = view ctx w1"
    using balance_lookup.select_unique [of "view ctx w1" ?r None] b(2) by (auto simp: in_scope_def)
  then show ?thesis
    using r n(2) b(1) T1 moved_trans by (auto simp: balance_hit_def)
qed


section \<open>Running without failures\<close>

lemma AccountRepository_GetByID_runs:
  assumes env: "fault_free w" "usable ctx w" and req: "aid \<noteq> []" "uid \<noteq> []" "clean aid" "clean uid"
  shows "distinct (map a_id (accounts (view ctx w))) \<Longrightarrow> r \<in> set (accounts (view ctx w)) \<Longrightarrow>
      a_id r = aid \<Longrightarrow> in_scope (scope_arg ctx PermAccountReadAll uid) (a_owner_id r) \<Longrightarrow>
      account_of_row r = Inr acc \<Longrightarrow>
      \<exists>w'. AccountRepository_GetByID ctx \<lparr>gar_AccountID = aid, gar_UserID = uid\<rparr> w = (Inr acc, w') \<and>
        moved ctx w w' \<and> view ctx w' = view ctx w"
    and "(\<And>r. r \<in> set (accounts (view ctx w)) \<Longrightarrow> a_id r = aid \<Longrightarrow>
        \<not> in_scope (scope_arg ctx PermAccountReadAll uid) (a_owner_id r)) \<Longrightarrow>
      \<exists>w'. AccountRepository_GetByID ctx \<lparr>gar_AccountID = aid, gar_UserID = uid\<rparr> w =
          (Inl (Wrapped (''account '' @ aid) (Sentinel ErrNotFound)), w') \<and>
        moved ctx w w' \<and> view ctx w' = view ctx w"
proof -
  let ?sc = "scope_arg ctx PermAccountReadAll uid"
  have v: "GetAccountByIDRequest_Validate \<lparr>gar_AccountID = aid, gar_UserID = uid\<rparr> = None"
    using req by (simp add: valid_simps)
  have args: "list_all clean (aid # scope_args ?sc)"
    using req by (simp add: scope_args_def scope_arg_def)
  note run = sql_exec_runs [OF env args]
  show "\<exists>w'. AccountRepository_GetByID ctx \<lparr>gar_AccountID = aid, gar_UserID = uid\<rparr> w = (Inr acc, w') \<and>
      moved ctx w w' \<and> view ctx w' = view ctx w"
    if "distinct (map a_id (accounts (view ctx w)))" "r \<in> set (accounts (view ctx w))" "a_id r = aid"
      "in_scope ?sc (a_owner_id r)" "account_of_row r = Inr acc"
    using run [where st = "select_account aid ?sc", OF account_lookup.select_unique [OF that(1,2,4), unfolded that(3)]] that(5) v
    by (auto simp: AccountRepository_GetByID_def Let_def scanAccount_def)
  show "\<exists>w'. AccountRepository_GetByID ctx \<lparr>gar_AccountID = aid, gar_UserID = uid\<rparr> w =
        (Inl (Wrapped (''account '' @ aid) (Sentinel ErrNotFound)), w') \<and>
      moved ctx w w' \<and> view ctx w' = view ctx w"
    if none: "\<And>r. r \<in> set (accounts (view ctx w)) \<Longrightarrow> a_id r = aid \<Longrightarrow> \<not> in_scope ?sc (a_owner_id r)"
  proof -
    have "select_account aid ?sc (view ctx w) = Inr (None, view ctx w)"
      using none by (auto simp: select_account_def find_None_iff)
    from run [where st = "select_account aid ?sc", OF this] v show ?thesis
      by (auto simp: AccountRepository_GetByID_def Let_def scanAccount_def)
  qed
qed

lemma AccountRepository_UpdateAccountBalance_runs:
  assumes env: "fault_free w" "usable ctx w"
    and req: "aid \<noteq> []" "uid \<noteq> []" "clean aid" "clean uid" "d \<noteq> 0"
    and ok: "accounts_ok (view ctx w)" and r: "r \<in> set (accounts (view ctx w))" "a_id r = aid"
      "in_scope (scope_arg ctx PermAccountWriteAll uid) (a_owner_id r)"
    and fits: "fits64 (sint (a_balance r) + sint d)"
  shows "0 \<le> sint (a_balance r) + sint d \<Longrightarrow>
      \<exists>w'. AccountRepository_UpdateAccountBalance ctx \<lparr>ubr_AccountID = aid, ubr_Delta = d, ubr_UserID = uid\<rparr> w =
          (Inr (a_balance r + d), w') \<and> moved ctx w w' \<and>
        view ctx w' = (view ctx w)\<lparr>accounts := update_where (\<lambda>a. a_id a = aid)
          (\<lambda>a. a\<lparr>a_balance := a_balance a + d\<rparr>) (accounts (view ctx w))\<rparr>"
    and "sint (a_balance r) + sint d < 0 \<Longrightarrow>
      \<exists>w'. AccountRepository_UpdateAccountBalance ctx \<lparr>ubr_AccountID = aid, ubr_Delta = d, ubr_UserID = uid\<rparr> w =
          (Inl (Wrapped (''account '' @ aid) (Sentinel ErrInsufficientBalance)), w') \<and>
        moved ctx w w' \<and> view ctx w' = view ctx w"
proof -
  let ?sc = "scope_arg ctx PermAccountWriteAll uid" and ?T = "view ctx w"
  let ?q = "\<lparr>ubr_AccountID = aid, ubr_Delta = d, ubr_UserID = uid\<rparr>"
  have v: "UpdateAccountBalanceRequest_Validate ?q = None"
    using req by (simp add: valid_simps)
  have args: "list_all clean (aid # scope_args ?sc)" "list_all clean [aid]"
    using req by (simp_all add: scope_args_def scope_arg_def)
  have key: "a = r" if "a \<in> set (accounts ?T)" "a_id a = aid" for a
    using that r ok by (auto simp: accounts_ok_def distinct_map inj_on_def)
  obtain n T' where upd: "update_balance aid d ?sc ?T = Inr (n, T')"
    using key fits by (fastforce simp: update_balance_def list_ex_iff)
  from sql_exec_runs [where st = "update_balance aid d ?sc", OF env args(1) upd] obtain w1 where
    w1: "sql_exec ctx (aid # scope_args ?sc) (update_balance aid d ?sc) w = (Inr n, w1)"
      "moved ctx w w1" "view ctx w1 = T'" by blast
  have w1': "fault_free w1" "usable ctx w1" using w1(2) env moved_fault_free moved_usable(1) by blast+
  note ub = update_balance_Inr [OF ok upd]
  show "\<exists>w'. AccountRepository_UpdateAccountBalance ctx ?q w = (Inr (a_balance r + d), w') \<and> moved ctx w w' \<and>
        view ctx w' = ?T\<lparr>accounts := update_where (\<lambda>a. a_id a = aid)
          (\<lambda>a. a\<lparr>a_balance := a_balance a + d\<rparr>) (accounts ?T)\<rparr>"
    if pos: "0 \<le> sint (a_balance r) + sint d"
  proof -
    let ?r = "r\<lparr>a_balance := a_balance r + d\<rparr>"
    have "balance_hit aid d ?sc r" using pos r by (simp add: balance_hit_def)
    with ub r(1) have n: "n = 1" and T': "T' = ?T\<lparr>accounts := update_where (\<lambda>a. a_id a = aid)
        (\<lambda>a. a\<lparr>a_balance := a_balance a + d\<rparr>) (accounts ?T)\<rparr>" by auto
    have "?r \<in> set (accounts T')" using r(1,2) by (auto simp: T' set_update_where image_iff)
    moreover have "distinct (map a_id (accounts T'))" using ok by (simp add: T' accounts_ok_def)
    ultimately have "select_balance (a_id ?r) None (view ctx w1) = Inr (Some (a_balance ?r), T')"
      unfolding w1(3) by (intro balance_lookup.select_unique) (simp_all add: in_scope_def)
    from sql_exec_runs [where st = "select_balance (a_id ?r) None", OF w1' args(2) this] obtain w2 where
      "sql_exec ctx [aid] (select_balance (a_id ?r) None) w1 = (Inr (Some (a_balance ?r)), w2)"
      "moved ctx w1 w2" "view ctx w2 = T'" by blast
    then show ?thesis using v w1 n T' r(2) moved_trans
      by (auto simp: AccountRepository_UpdateAccountBalance_def Let_def)
  qed
  show "\<exists>w'. AccountRepository_UpdateAccountBalance ctx ?q w =
          (Inl (Wrapped (''account '' @ aid) (Sentinel ErrInsufficientBalance)), w') \<and>
        moved ctx w w' \<and> view ctx w' = ?T"
    if neg: "sint (a_balance r) + sint d < 0"
  proof -
    have "\<not> balance_hit aid d ?sc a" if "a \<in> set (accounts ?T)" for a
      using key [OF that] neg by (auto simp: balance_hit_def)
    with ub have n: "n = 0" "T' = ?T" by auto
    have "select_balance (a_id r) ?sc (view ctx w1) = Inr (Some (a_balance r), ?T)"
      unfolding w1(3) n using ok r by (intro balance_lookup.select_unique) (simp_all add: accounts_ok_def)
    from sql_exec_runs [where st = "select_balance (a_id r) ?sc", OF w1' args(1) this] obtain w2 where
      "sql_exec ctx (aid # scope_args ?sc) (select_balance (a_id r) ?sc) w1 = (Inr (Some (a_balance r)), w2)"
      "moved ctx w1 w2" "view ctx w2 = ?T" by blast
    then show ?thesis using v w1 n r(2) moved_trans
      by (auto simp: AccountRepository_UpdateAccountBalance_def Let_def)
  qed
qed

lemma AccountRepository_Create_Inr:
  assumes "AccountRepository_Create ctx req w = (Inr acc, w')" "connected ctx w"
  shows "moved ctx w w' \<and> (\<exists>new. acc = (car_Account req)\<lparr>acc_ID := new\<rparr>) \<and>
    insert_account \<lparr>a_id = acc_ID acc, a_owner_id = acc_OwnerID acc, a_name = acc_Name acc,
      a_balance = acc_Balance acc, a_created_at = FormatTime (acc_CreatedAt acc)\<rparr> (view ctx w) =
      Inr ((), view ctx w')"
proof -
  define w1 where "w1 = (if acc_ID (car_Account req) = [] then w\<lparr>w_uuids := Suc (w_uuids w)\<rparr> else w)"
  have w1: "connected ctx w1" "view ctx w1 = view ctx w" "\<And>w'. moved ctx w1 w' = moved ctx w w'"
    using assms(2) by (simp_all add: w1_def connected_def view_def moved_def usable_def)
  have "(\<exists>new. acc = (car_Account req)\<lparr>acc_ID := new\<rparr>) \<and> (\<exists>args. sql_exec ctx args
    (insert_account \<lparr>a_id = acc_ID acc, a_owner_id = acc_OwnerID acc, a_name = acc_Name acc,
      a_balance = acc_Balance acc, a_created_at = FormatTime (acc_CreatedAt acc)\<rparr>) w1 = (Inr (), w'))"
    using assms(1)
    by (auto simp: AccountRepository_Create_def uuid_NewString_def w1_def
        split: option.splits prod.splits sum.splits if_splits intro!: exI [of _ "acc_ID acc"])
  then show ?thesis using w1 sql_exec_InrD [of ctx _ _ w1 "()" w'] by metis
qed

end
