(* ===== verification/Cursor.thy ===== *)
theory Cursor
  imports Times
begin

text \<open>
  The opaque page token of the transaction listing (\<open>encodeTransactionCursor\<close> and
  \<open>decodeTransactionCursor\<close> of \<open>internal/pkg/wallets/transactionRepositoryImpl.go\<close>) and the
  URL-safe padded Base64 it uses (\<open>encoding/base64\<close>, \<open>URLEncoding\<close>). The locale \<open>codec\<close> is the
  contract of an encoder with a partial decoder; it is interpreted on the Base64 code and on the
  timestamp format. The token a listing hands out always reads back to the position it names.
\<close>

section \<open>Encoders and decoders\<close>

locale codec =
  fixes enc :: "'a \<Rightarrow> 'b" and dec_opt :: "'b \<Rightarrow> 'a option" and dom :: "'a \<Rightarrow> bool"
  assumes dec_enc: "dom x \<Longrightarrow> dec_opt (enc x) = Some x"
begin

lemma enc_inj: "dom x \<Longrightarrow> dom y \<Longrightarrow> enc x = enc y \<Longrightarrow> x = y"
  by (metis dec_enc option.inject)

lemma enc_eq_iff: "dom x \<Longrightarrow> dom y \<Longrightarrow> enc x = enc y \<longleftrightarrow> x = y"
  using enc_inj by blast

lemma dec_total: "dom x \<Longrightarrow> dec_opt (enc x) \<noteq> None"
  by (simp add: dec_enc)

end

section \<open>Base64\<close>

definition encodeURL :: string where
  "encodeURL = ''ABCDEFGHIJKLMNOPQRSTUVWXYZabcdefghijklmnopqrstuvwxyz0123456789-_''"

definition char6 :: "nat \<Rightarrow> char" where
  "char6 i = encodeURL ! i"

definition val6 :: "char \<Rightarrow> nat option" where
  "val6 c = map_option fst (List.find (\<lambda>(i, d). d = c) (zip [0..<64] encodeURL))"

definition byte_val :: "char \<Rightarrow> nat" where
  "byte_val c = of_char c"

definition padChar :: char where "padChar = CHR ''=''"

fun base64_EncodeToString :: "string \<Rightarrow> string" where
  "base64_EncodeToString [] = []"
| "base64_EncodeToString [x] =
     [char6 (byte_val x div 4), char6 (byte_val x mod 4 * 16), padChar, padChar]"
| "base64_EncodeToString [x, y] =
     [char6 (byte_val x div 4), char6 (byte_val x mod 4 * 16 + byte_val y div 16),
      char6 (byte_val y mod 16 * 4), padChar]"
| "base64_EncodeToString (x # y # z # s) =
     char6 (byte_val x div 4) # char6 (byte_val x mod 4 * 16 + byte_val y div 16) #
     char6 (byte_val y mod 16 * 4 + byte_val z div 64) # char6 (byte_val z mod 64) #
     base64_EncodeToString s"

text \<open>
  The decoder skips carriage returns and line feeds, wants whole groups of four and accepts
  padding in the last group only; the bits of a padded group that no byte uses are not checked.
\<close>

fun base64_groups :: "string \<Rightarrow> string option" where
  "base64_groups [] = Some []"
| "base64_groups (a # b # c # d # s) =
     (if s = [] \<and> c = padChar \<and> d = padChar then
        (case (val6 a, val6 b) of
           (Some i, Some j) \<Rightarrow> Some [char_of (i * 4 + j div 16)]
         | _ \<Rightarrow> None)
      else if s = [] \<and> d = padChar then
        (case (val6 a, val6 b, val6 c) of
           (Some i, Some j, Some k) \<Rightarrow> Some [char_of (i * 4 + j div 16), char_of (j mod 16 * 16 + k div 4)]
         | _ \<Rightarrow> None)
      else
        (case (val6 a, val6 b, val6 c, val6 d) of
           (Some i, Some j, Some k, Some l) \<Rightarrow>
             map_option (\<lambda>t. char_of (i * 4 + j div 16) # char_of (j mod 16 * 16 + k div 4) #
               char_of (k mod 4 * 64 + l) # t) (base64_groups s)
         | _ \<Rightarrow> None))"
| "base64_groups s = None"

definition base64_DecodeString :: "string \<Rightarrow> string option" where
  "base64_DecodeString s = base64_groups (filter (\<lambda>c. c \<noteq> CHR 0x0A \<and> c \<noteq> CHR 0x0D) s)"

lemma alphabet_ok:
  "list_all (\<lambda>i. val6 (char6 i) = Some i \<and> char6 i \<noteq> padChar \<and> char6 i \<noteq> CHR 0x0A \<and> char6 i \<noteq> CHR 0x0D)
     [0..<64]"
  by code_simp

lemma char6_facts [simp]:
  assumes "i < 64"
  shows "val6 (char6 i) = Some i" "char6 i \<noteq> padChar" "char6 i \<noteq> CHR 0x0A" "char6 i \<noteq> CHR 0x0D"
  using alphabet_ok assms by (simp_all add: list_all_iff)

lemma byte_val_bound [simp]: "byte_val c < 256"
  unfolding byte_val_def using of_char_mod_256 [of c] by (metis mod_less_divisor zero_less_numeral)

lemma byte_val_parts:
  "byte_val x div 4 < 64" "byte_val x div 16 < 16" "byte_val x div 64 < 4"
  using byte_val_bound [of x] by (simp_all add: less_mult_imp_div_less)

lemma group_digits:
  "byte_val x mod 4 * 16 < 64" "byte_val x mod 4 * 16 + byte_val y div 16 < 64"
  "byte_val y mod 16 * 4 < 64" "byte_val y mod 16 * 4 + byte_val z div 64 < 64" "byte_val z mod 64 < 64"
proof -
  have pair: "a < 4 \<Longrightarrow> b < 16 \<Longrightarrow> a * 16 + b < 64" "a < 16 \<Longrightarrow> b < 4 \<Longrightarrow> a * 4 + b < 64" for a b :: nat
    by simp_all
  show "byte_val x mod 4 * 16 + byte_val y div 16 < 64" "byte_val y mod 16 * 4 + byte_val z div 64 < 64"
    by (rule pair; simp add: byte_val_parts)+
  show "byte_val x mod 4 * 16 < 64" "byte_val y mod 16 * 4 < 64"
    using pair(1) [of "byte_val x mod 4" 0] pair(2) [of "byte_val y mod 16" 0] by simp_all
qed simp

lemma char_of_byte_val: "n = byte_val c \<Longrightarrow> char_of n = c"
  by (simp add: byte_val_def)

lemma regroup:
  "byte_val x div 4 * 4 + (byte_val x mod 4 * 16 + byte_val y div 16) div 16 = byte_val x"
  "(byte_val x mod 4 * 16 + byte_val y div 16) mod 16 * 16 + (byte_val y mod 16 * 4 + byte_val z div 64) div 4 = byte_val y"
  "(byte_val y mod 16 * 4 + byte_val z div 64) mod 4 * 64 + byte_val z mod 64 = byte_val z"
  "byte_val x div 4 * 4 + (byte_val x mod 4 * 16) div 16 = byte_val x"
  "(byte_val x mod 4 * 16 + byte_val y div 16) mod 16 * 16 + (byte_val y mod 16 * 4) div 4 = byte_val y"
  using byte_val_parts [of x] byte_val_parts [of y] byte_val_parts [of z] by auto

lemma base64_groups_encode: "base64_groups (base64_EncodeToString s) = Some s"
proof (induction s rule: base64_EncodeToString.induct)
  case (4 x y z s)
  then show ?case
    by (simp add: byte_val_parts group_digits regroup char_of_byte_val)
qed (simp_all add: byte_val_parts group_digits regroup char_of_byte_val)

lemma base64_no_newline: "c \<in> set (base64_EncodeToString s) \<Longrightarrow> c \<noteq> CHR 0x0A \<and> c \<noteq> CHR 0x0D"
  by (induction s rule: base64_EncodeToString.induct)
     (auto simp: byte_val_parts group_digits padChar_def)

interpretation base64: codec base64_EncodeToString base64_DecodeString "\<lambda>_. True"
proof unfold_locales
  fix s :: string
  have "filter (\<lambda>c. c \<noteq> CHR 0x0A \<and> c \<noteq> CHR 0x0D) (base64_EncodeToString s) = base64_EncodeToString s"
    using base64_no_newline by (auto intro: filter_True)
  then show "base64_DecodeString (base64_EncodeToString s) = Some s"
    by (simp add: base64_DecodeString_def base64_groups_encode)
qed

interpretation timestamps: codec FormatTime "\<lambda>s. case ParseTime s of Inl _ \<Rightarrow> None | Inr t \<Rightarrow> Some t" four_digit_year
  by unfold_locales (simp add: parse_format)

section \<open>The cursor\<close>

definition transactionCursorSeparator :: char where
  "transactionCursorSeparator = CHR 0x00"

definition encodeTransactionCursor :: "string \<Rightarrow> string \<Rightarrow> string" where
  "encodeTransactionCursor recordedAt ref =
     base64_EncodeToString (recordedAt @ [transactionCursorSeparator] @ ref)"

definition decodeTransactionCursor :: "string \<Rightarrow> go_error + (string \<times> string)" where
  "decodeTransactionCursor cursor =
     (case base64_DecodeString cursor of
        None \<Rightarrow> Inl (Wrapped ''decode cursor'' (Sentinel ErrInvalidArgument))
      | Some raw \<Rightarrow>
          (case strings_SplitN2 raw transactionCursorSeparator of
             [recordedAt, ref] \<Rightarrow>
               if recordedAt = [] \<or> ref = [] then
                 Inl (Wrapped ''malformed cursor'' (Sentinel ErrInvalidArgument))
               else (case ParseTime recordedAt of
                   Inl _ \<Rightarrow> Inl (Wrapped ''malformed cursor timestamp'' (Sentinel ErrInvalidArgument))
                 | Inr _ \<Rightarrow> Inr (recordedAt, ref))
           | _ \<Rightarrow> Inl (Wrapped ''malformed cursor'' (Sentinel ErrInvalidArgument))))"

lemma digit_char_not_nul: "0 \<le> d \<Longrightarrow> d < 10 \<Longrightarrow> digit_char d \<noteq> CHR 0x00"
proof
  assume "0 \<le> d" "d < 10" "digit_char d = CHR 0x00"
  with digit_char_digit(1) [of d] show False by (simp add: is_digit_def)
qed

lemma dec_not_nul: "CHR 0x00 \<notin> set (dec n)"
proof (induction n rule: dec.induct)
  case (1 n)
  then show ?case
    by (subst dec.simps) (auto dest: sym simp: digit_char_not_nul [THEN not_sym])
qed

lemma digits_not_nul: "(\<And>d. d \<in> set ds \<Longrightarrow> 0 \<le> d \<and> d < 10) \<Longrightarrow> CHR 0x00 \<notin> digit_char ` set ds"
  using digit_char_not_nul by (metis imageE)

lemma FormatTime_not_nul: "CHR 0x00 \<notin> set (FormatTime t)"
proof -
  have int: "CHR 0x00 \<notin> set (appendInt k x)" for k x
    using dec_not_nul ndigits_range digits_not_nul [of "ndigits k \<bar>x\<bar>"] by (auto simp: appendInt_def)
  have "d \<in> set (trim_zeros (ndigits 9 ns)) \<Longrightarrow> 0 \<le> d \<and> d < 10" for d ns
    by (rule ndigits_range) (rule set_trim_zeros)
  from digits_not_nul [OF this] have nano: "CHR 0x00 \<notin> set (appendNano ns)" for ns
    by (simp add: appendNano_def Let_def)
  show ?thesis by (simp add: FormatTime_def Let_def int nano split: prod.split)
qed

lemma FormatTime_nonempty: "FormatTime t \<noteq> []"
  by (simp add: FormatTime_def Let_def split: prod.split)

lemma SplitN2_first: "c \<notin> set s \<Longrightarrow> strings_SplitN2 (s @ c # t) c = [s, t]"
proof -
  assume "c \<notin> set s"
  then have "\<forall>x \<in> set s. x \<noteq> c" by auto
  then show ?thesis
    by (simp add: strings_SplitN2_def dropWhile_append2 takeWhile_append2)
qed

lemma decode_encode_cursor:
  assumes "four_digit_year t" "ref \<noteq> []"
  shows "decodeTransactionCursor (encodeTransactionCursor (FormatTime t) ref) = Inr (FormatTime t, ref)"
  using assms FormatTime_not_nul [of t] FormatTime_nonempty [of t]
  by (simp add: decodeTransactionCursor_def encodeTransactionCursor_def base64.dec_enc SplitN2_first
      transactionCursorSeparator_def parse_format)

text \<open>
  C39: The token a listing hands out reads back to exactly the position it names, whatever bytes the
  ref holds (a NUL byte included, since only the first separator splits).
\<close>

theorem cursor_roundtrip:
  "four_digit_year t \<Longrightarrow> ref \<noteq> [] \<Longrightarrow>
   decodeTransactionCursor (encodeTransactionCursor (FormatTime t) ref) = Inr (FormatTime t, ref)"
  by (rule decode_encode_cursor)

theorem cursor_roundtrip_witness:
  "decodeTransactionCursor (encodeTransactionCursor (FormatTime (63871234567 * second)) ''r-1'') =
     Inr (FormatTime (63871234567 * second), ''r-1'')"
proof -
  have "four_digit_year (63871234567 * second)" by code_simp
  then show ?thesis by (rule cursor_roundtrip) simp
qed

text \<open>
  A token that does not decode is the caller's fault: every failure is an invalid-argument error
  and none is a validation error with reasons of its own.
\<close>

theorem cursor_errors:
  "decodeTransactionCursor cursor = Inl e \<Longrightarrow>
   errors_Is e ErrInvalidArgument \<and> (\<forall>s. errors_Is e s \<longrightarrow> s = ErrInvalidArgument) \<and> errors_As_Validation e = None"
  by (auto simp: decodeTransactionCursor_def
      split: option.splits list.splits if_splits sum.splits)

theorem cursor_errors_witness:
  "errors_Is (Wrapped ''decode cursor'' (Sentinel ErrInvalidArgument)) ErrInvalidArgument \<and>
   decodeTransactionCursor ''abc'' = Inl (Wrapped ''decode cursor'' (Sentinel ErrInvalidArgument))"
proof -
  have "decodeTransactionCursor ''abc'' = Inl (Wrapped ''decode cursor'' (Sentinel ErrInvalidArgument))"
    by (simp add: decodeTransactionCursor_def base64_DecodeString_def)
  with cursor_errors [OF this] show ?thesis by blast
qed

end
