(* ===== verification/TransactionRepository.thy ===== *)
theory TransactionRepository
  imports AccountRepository Cursor
begin

text \<open>
  The ledger and its repository (\<open>pkg/wallets/transaction.go\<close>, \<open>transactionRepository.go\<close>,
  \<open>transactionRepositoryValidations.go\<close> and
  \<open>internal/pkg/wallets/transactionRepositoryImpl.go\<close>): the idempotent insert, the scoped read by
  ref and the keyset-paginated listing.
\<close>

section \<open>Data and requests\<close>

definition KindEarn :: string where "KindEarn = ''earn''"
definition KindSpend :: string where "KindSpend = ''spend''"

record Transaction =
  tr_ID :: string
  tr_Ref :: string
  tr_AccountID :: string
  tr_OwnerID :: string
  tr_Kind :: string
  tr_Points :: int64
  tr_OccurredAt :: gotime
  tr_RecordedAt :: gotime
  tr_CreatedBy :: string

record CreateTransactionRequest =
  ctr_Transaction :: Transaction

record ListTransactionsRequest =
  ltr_UserID :: string
  ltr_PageSize :: int64
  ltr_Cursor :: string

record ListTransactionsResponse =
  ltp_Transactions :: "Transaction list"
  ltp_NextCursor :: string

record GetTransactionByIDRequest =
  gtr_UserID :: string
  gtr_Ref :: string

definition CreateTransactionRequest_Validate :: "CreateTransactionRequest \<Rightarrow> go_error option" where
  "CreateTransactionRequest_Validate r = NewValidationError (
     (if tr_Ref (ctr_Transaction r) = [] then [''Ref is required''] else []) @
     (if tr_AccountID (ctr_Transaction r) = [] then [''AccountID is required''] else []) @
     (if tr_CreatedBy (ctr_Transaction r) = [] then [''CreatedBy is required''] else []) @
     (if tr_Kind (ctr_Transaction r) \<in> set [KindEarn, KindSpend] then []
      else [''Kind must be '' @ squote ''earn'' @ '' or '' @ squote ''spend'']) @
     (if tr_Points (ctr_Transaction r) = 0 then [''Points must be non-zero''] else []))"

definition GetTransactionByIDRequest_Validate :: "GetTransactionByIDRequest \<Rightarrow> go_error option" where
  "GetTransactionByIDRequest_Validate r = NewValidationError (
     (if gtr_Ref r = [] then [''Ref is required''] else []) @
     (if gtr_UserID r = [] then [''UserID is required''] else []))"

definition ListTransactionsRequest_Validate :: "ListTransactionsRequest \<Rightarrow> go_error option" where
  "ListTransactionsRequest_Validate r = NewValidationError (
     (if ltr_UserID r = [] then [''UserID is required''] else []) @
     (if sint (ltr_PageSize r) < 0 then [''PageSize must be >= 0''] else []))"

section \<open>Statements\<close>

text \<open>
  \<open>INSERT ... ON CONFLICT (ref) DO NOTHING\<close>: the row's checks come first, a row with the same ref
  makes the statement insert nothing, and only then can the primary key or a foreign key fail.
\<close>

definition insert_transaction :: "transaction_row \<Rightarrow> nat stmt" where
  "insert_transaction row T =
     (if \<not> valid_kind (t_kind row) then Inl (check_violation ''transactions'' ''transactions_kind_check'')
      else if list_ex (\<lambda>x. t_ref x = t_ref row) (transactions T) then Inr (0, T)
      else if list_ex (\<lambda>x. t_id x = t_id row) (transactions T) then
        Inl (unique_violation ''transactions_pkey'')
      else if \<not> list_ex (\<lambda>a. a_id a = t_account_id row) (accounts T) then
        Inl (foreign_key_violation ''transactions'' ''transactions_account_id_fkey'')
      else if \<not> list_ex (\<lambda>u. u_id u = t_owner_id row) (users T) then
        Inl (foreign_key_violation ''transactions'' ''transactions_owner_id_fkey'')
      else Inr (1, T\<lparr>transactions := transactions T @ [row]\<rparr>))"

definition select_transaction :: "string \<Rightarrow> string option \<Rightarrow> transaction_row option stmt" where
  "select_transaction ref sc T =
     Inr (List.find (\<lambda>x. t_ref x = ref \<and> in_scope sc (t_owner_id x)) (transactions T), T)"

text \<open>The listing order: \<open>recorded_at DESC, ref\<close>; and the keyset seek past a cursor position.\<close>

definition transaction_before ::
    "(string \<Rightarrow> string \<Rightarrow> bool) \<Rightarrow> transaction_row \<Rightarrow> transaction_row \<Rightarrow> bool" where
  "transaction_before le x y \<longleftrightarrow> text_lt le (t_recorded_at y) (t_recorded_at x) \<or>
     t_recorded_at x = t_recorded_at y \<and> text_lt le (t_ref x) (t_ref y)"

definition past_cursor ::
    "(string \<Rightarrow> string \<Rightarrow> bool) \<Rightarrow> (string \<times> string) option \<Rightarrow> transaction_row \<Rightarrow> bool" where
  "past_cursor le cur x \<longleftrightarrow>
     (case cur of
        None \<Rightarrow> True
      | Some (cursorRecordedAt, cursorRef) \<Rightarrow>
          text_lt le (t_recorded_at x) cursorRecordedAt \<or>
          t_recorded_at x = cursorRecordedAt \<and> text_lt le cursorRef (t_ref x))"

definition select_transactions ::
    "(string \<Rightarrow> string \<Rightarrow> bool) \<Rightarrow> string option \<Rightarrow> (string \<times> string) option \<Rightarrow> nat \<Rightarrow> transaction_row list stmt" where
  "select_transactions le sc cur n T =
     Inr (take n (sort_SliceStable (transaction_before le)
       (filter (\<lambda>x. in_scope sc (t_owner_id x) \<and> past_cursor le cur x) (transactions T))), T)"

section \<open>Operations\<close>

definition transaction_of_row :: "transaction_row \<Rightarrow> go_error + Transaction" where
  "transaction_of_row r =
     (case ParseTime (t_occurred_at r) of
        Inl err \<Rightarrow> Inl err
      | Inr parsedOccurredAt \<Rightarrow>
          (case ParseTime (t_recorded_at r) of
             Inl err \<Rightarrow> Inl err
           | Inr parsedRecordedAt \<Rightarrow>
               Inr \<lparr>tr_ID = t_id r, tr_Ref = t_ref r, tr_AccountID = t_account_id r,
                    tr_OwnerID = t_owner_id r, tr_Kind = t_kind r, tr_Points = t_points r,
                    tr_OccurredAt = parsedOccurredAt, tr_RecordedAt = parsedRecordedAt,
                    tr_CreatedBy = t_created_by r\<rparr>))"

definition scanTransaction :: "go_error + transaction_row option \<Rightarrow> go_error + Transaction" where
  "scanTransaction row =
     (case row of
        Inl err \<Rightarrow> Inl (Wrapped ''could not scan transaction'' err)
      | Inr None \<Rightarrow> Inl SqlNoRows
      | Inr (Some r) \<Rightarrow> transaction_of_row r)"

primrec scanTransactions :: "transaction_row list \<Rightarrow> go_error + Transaction list" where
  "scanTransactions [] = Inr []"
| "scanTransactions (r # rows) =
     (case scanTransaction (Inr (Some r)) of
        Inl err \<Rightarrow> Inl err
      | Inr x \<Rightarrow> (case scanTransactions rows of Inl err \<Rightarrow> Inl err | Inr xs \<Rightarrow> Inr (x # xs)))"

definition TransactionRepository_Create :: "go_context \<Rightarrow> CreateTransactionRequest \<Rightarrow> Transaction op" where
  "TransactionRepository_Create ctx request w =
     (case CreateTransactionRequest_Validate request of
        Some err \<Rightarrow> (Inl (Wrapped ''invalid request for Create'' err), w)
      | None \<Rightarrow>
        (case (if tr_ID (ctr_Transaction request) = [] then
                 (case uuid_NewString w of (new, w) \<Rightarrow> ((ctr_Transaction request)\<lparr>tr_ID := new\<rparr>, w))
               else (ctr_Transaction request, w)) of (x, w) \<Rightarrow>
        (case sql_exec ctx
             [tr_ID x, tr_Ref x, tr_AccountID x, tr_OwnerID x, tr_Kind x,
              FormatTime (tr_OccurredAt x), FormatTime (tr_RecordedAt x), tr_CreatedBy x]
             (insert_transaction \<lparr>t_id = tr_ID x, t_ref = tr_Ref x, t_account_id = tr_AccountID x,
                t_owner_id = tr_OwnerID x, t_kind = tr_Kind x, t_points = tr_Points x,
                t_occurred_at = FormatTime (tr_OccurredAt x), t_recorded_at = FormatTime (tr_RecordedAt x),
                t_created_by = tr_CreatedBy x\<rparr>) w of
           (Inl err, w) \<Rightarrow>
             if IsForeignKeyConstraintViolation err then
               (Inl (Wrapped (''account '' @ tr_AccountID x) (Sentinel ErrNotFound)), w)
             else (Inl (Wrapped ''could not insert transaction'' err), w)
         | (Inr affected, w) \<Rightarrow>
             if affected = 0 then (Inl (Wrapped (''transaction '' @ tr_Ref x) (Sentinel ErrDuplicateRef)), w)
             else (Inr x, w))))"

definition defaultPageSize :: nat where "defaultPageSize = 50"
definition maxPageSize :: nat where "maxPageSize = 200"

definition clampPageSize :: "int64 \<Rightarrow> nat" where
  "clampPageSize n =
     (if sint n \<le> 0 then defaultPageSize
      else if sint n > int maxPageSize then maxPageSize
      else nat (sint n))"

definition TransactionRepository_List ::
    "go_context \<Rightarrow> ListTransactionsRequest \<Rightarrow> ListTransactionsResponse op" where
  "TransactionRepository_List ctx request w =
     (case ListTransactionsRequest_Validate request of
        Some err \<Rightarrow> (Inl (Wrapped ''invalid request for List'' err), w)
      | None \<Rightarrow>
        let sc = scope_arg ctx PermTransactionReadAll (ltr_UserID request) in
        (case (if ltr_Cursor request \<noteq> [] then map_sum (\<lambda>e. e) Some (decodeTransactionCursor (ltr_Cursor request))
               else Inr None) of
           Inl err \<Rightarrow> (Inl err, w)
         | Inr cur \<Rightarrow>
           let limit = clampPageSize (ltr_PageSize request) in
           (case sql_exec ctx (scope_args sc @ (case cur of None \<Rightarrow> [] | Some (ts, ref) \<Rightarrow> [ts, ref]))
                   (select_transactions (env_text_le (w_env w)) sc cur (limit + 1)) w of
              (Inl err, w) \<Rightarrow> (Inl (Wrapped ''could not query transactions'' err), w)
            | (Inr rows, w) \<Rightarrow>
                (case fetch_rows ctx rows w of ((rows, iterErr), w) \<Rightarrow>
                (case scanTransactions rows of
                   Inl err \<Rightarrow> (Inl err, w)
                 | Inr xs \<Rightarrow>
                   (case iterErr of
                      Some err \<Rightarrow> (Inl (Wrapped ''could not iterate transactions'' err), w)
                    | None \<Rightarrow>
                     if length xs > limit then
                       let page = take limit xs; last_x = last page in
                       (Inr \<lparr>ltp_Transactions = page,
                          ltp_NextCursor = encodeTransactionCursor (FormatTime (tr_RecordedAt last_x)) (tr_Ref last_x)\<rparr>, w)
                     else (Inr \<lparr>ltp_Transactions = xs, ltp_NextCursor = []\<rparr>, w)))))))"

definition TransactionRepository_GetByID :: "go_context \<Rightarrow> GetTransactionByIDRequest \<Rightarrow> Transaction op" where
  "TransactionRepository_GetByID ctx request w =
     (case GetTransactionByIDRequest_Validate request of
        Some err \<Rightarrow> (Inl (Wrapped ''invalid request for GetByID'' err), w)
      | None \<Rightarrow>
        let sc = scope_arg ctx PermTransactionReadAll (gtr_UserID request) in
        (case sql_exec ctx (gtr_Ref request # scope_args sc) (select_transaction (gtr_Ref request) sc) w of
           (row, w) \<Rightarrow>
             (case scanTransaction row of
                Inl err \<Rightarrow>
                  if errors_Is_NoRows err then
                    (Inl (Wrapped (''transaction '' @ gtr_Ref request) (Sentinel ErrNotFound)), w)
                  else (Inl err, w)
              | Inr x \<Rightarrow> (Inr x, w))))"


section \<open>Facts\<close>

lemma transaction_requests_valid [valid_simps]:
  "CreateTransactionRequest_Validate r = None \<longleftrightarrow>
     tr_Ref (ctr_Transaction r) \<noteq> [] \<and> tr_AccountID (ctr_Transaction r) \<noteq> [] \<and>
     tr_CreatedBy (ctr_Transaction r) \<noteq> [] \<and> tr_Kind (ctr_Transaction r) \<in> {KindEarn, KindSpend} \<and>
     tr_Points (ctr_Transaction r) \<noteq> 0"
  "GetTransactionByIDRequest_Validate r1 = None \<longleftrightarrow> gtr_Ref r1 \<noteq> [] \<and> gtr_UserID r1 \<noteq> []"
  "ListTransactionsRequest_Validate r2 = None \<longleftrightarrow> ltr_UserID r2 \<noteq> [] \<and> 0 \<le> sint (ltr_PageSize r2)"
  by (auto simp: CreateTransactionRequest_Validate_def GetTransactionByIDRequest_Validate_def
      ListTransactionsRequest_Validate_def)

lemma transaction_reads_frame:
  "select_transaction ref sc T = Inr (x1, T') \<Longrightarrow> T' = T"
  "select_transactions le sc cur n T = Inr (x2, T') \<Longrightarrow> T' = T"
  by (simp_all add: select_transaction_def select_transactions_def)

lemma transaction_reads_total:
  "select_transaction ref sc T \<noteq> Inl e" "select_transactions le sc cur n T \<noteq> Inl e"
  by (simp_all add: select_transaction_def select_transactions_def)

lemma insert_transaction_Inr:
  "insert_transaction row T = Inr (n, T') \<longleftrightarrow> valid_kind (t_kind row) \<and>
     (n = 0 \<and> T' = T \<and> t_ref row \<in> t_ref ` set (transactions T) \<or>
      n = 1 \<and> T' = T\<lparr>transactions := transactions T @ [row]\<rparr> \<and> t_ref row \<notin> t_ref ` set (transactions T) \<and>
      t_id row \<notin> t_id ` set (transactions T) \<and> t_account_id row \<in> a_id ` set (accounts T) \<and>
      t_owner_id row \<in> u_id ` set (users T))"
  by (auto simp: insert_transaction_def list_ex_key)

lemma insert_transaction_Inl: "insert_transaction row T = Inl e \<Longrightarrow> driver_error e"
  by (auto simp: insert_transaction_def split: if_splits)

lemma insert_transaction_durable: "insert_transaction row T = Inr (n, T') \<Longrightarrow> durable T T'"
  by (auto simp: insert_transaction_Inr durable_def schema_ok_def users_ok_def accounts_ok_def
      transactions_ok_def audit_ok_def)

context table_relation
begin

lemma TransactionRepository_reads_evolve:
  "evolves R ctx w (snd (TransactionRepository_GetByID ctx r1 w))"
  "evolves R ctx w (snd (TransactionRepository_List ctx r2 w))"
  unfolding TransactionRepository_GetByID_def TransactionRepository_List_def Let_def
  by (intro evolves_rules evolves_read evolves_fetch; blast dest: transaction_reads_frame)+

lemma TransactionRepository_Create_evolves:
  "(\<And>row T n T'. insert_transaction row T = Inr (n, T') \<Longrightarrow> R T T') \<Longrightarrow>
   evolves R ctx w (snd (TransactionRepository_Create ctx request w))"
  unfolding TransactionRepository_Create_def
  by (intro evolves_rules evolves_sql_exec evolves_uuid) blast+

end

interpretation transaction_lookup:
  scoped_lookup select_transaction transactions t_ref t_owner_id "\<lambda>r. r"
  by unfold_locales (simp add: select_transaction_def option.map_ident)

lemma scanTransaction_Inr:
  "scanTransaction row = Inr a \<longleftrightarrow> (\<exists>r. row = Inr (Some r) \<and> transaction_of_row r = Inr a)"
  by (auto simp: scanTransaction_def split: sum.splits option.splits)

lemma TransactionRepository_GetByID_Inr:
  assumes "TransactionRepository_GetByID ctx req w = (Inr x, w')" "connected ctx w"
  shows "moved ctx w w' \<and> view ctx w' = view ctx w \<and>
    (\<exists>r \<in> set (transactions (view ctx w)). t_ref r = gtr_Ref req \<and>
       in_scope (scope_arg ctx PermTransactionReadAll (gtr_UserID req)) (t_owner_id r) \<and>
       transaction_of_row r = Inr x)"
  using assms
  by (auto simp: TransactionRepository_GetByID_def Let_def scanTransaction_Inr
      split: option.splits prod.splits sum.splits if_splits
      dest!: sql_exec_InrD transaction_lookup.select_Some)

text \<open>The row a transaction is stored as.\<close>

definition row_of_transaction :: "Transaction \<Rightarrow> transaction_row" where
  "row_of_transaction x =
     \<lparr>t_id = tr_ID x, t_ref = tr_Ref x, t_account_id = tr_AccountID x, t_owner_id = tr_OwnerID x,
      t_kind = tr_Kind x, t_points = tr_Points x, t_occurred_at = FormatTime (tr_OccurredAt x),
      t_recorded_at = FormatTime (tr_RecordedAt x), t_created_by = tr_CreatedBy x\<rparr>"

lemma moved_uuid: "uuid_NewString w = (u, w') \<Longrightarrow> connected ctx w \<Longrightarrow>
    connected ctx w' \<and> view ctx w' = view ctx w \<and> (moved ctx w' w'' \<longrightarrow> moved ctx w w'')"
  by (auto simp: uuid_NewString_def moved_def usable_def connected_def view_def)

lemma TransactionRepository_Create_Inr:
  assumes "TransactionRepository_Create ctx req w = (Inr x, w')" "connected ctx w"
  shows "moved ctx w w' \<and> x = (ctr_Transaction req)\<lparr>tr_ID := tr_ID x\<rparr> \<and>
    insert_transaction (row_of_transaction x) (view ctx w) = Inr (1, view ctx w')"
  using assms
  by (auto simp: TransactionRepository_Create_def row_of_transaction_def insert_transaction_Inr
      split: option.splits prod.splits sum.splits if_splits
      dest!: sql_exec_InrD dest: moved_uuid)

lemma TransactionRepository_Create_duplicate:
  assumes "TransactionRepository_Create ctx req w = (Inl e, w')" "connected ctx w" "errors_Is e ErrDuplicateRef"
  shows "moved ctx w w' \<and> view ctx w' = view ctx w \<and>
    tr_Ref (ctr_Transaction req) \<in> t_ref ` set (transactions (view ctx w))"
  using assms
  by (auto simp: TransactionRepository_Create_def insert_transaction_Inr errs_simps CreateTransactionRequest_Validate_def
      split: option.splits prod.splits sum.splits if_splits
      dest!: sql_exec_InrD dest: moved_uuid sql_exec_Inl [OF _ insert_transaction_Inl])


section \<open>Running without failures\<close>

lemma FormatTime_clean [simp]: "clean (FormatTime t)"
  by (simp add: clean_def FormatTime_not_nul)

lemma TransactionRepository_Create_runs:
  assumes env: "fault_free w" "usable ctx w"
    and valid: "CreateTransactionRequest_Validate \<lparr>ctr_Transaction = x\<rparr> = None" and new: "tr_ID x = []"
    and args: "list_all clean [env_UUID (w_env w) (w_uuids w), tr_Ref x, tr_AccountID x, tr_OwnerID x, tr_CreatedBy x]"
  shows "tr_Ref x \<in> t_ref ` set (transactions (view ctx w)) \<Longrightarrow>
      \<exists>w'. TransactionRepository_Create ctx \<lparr>ctr_Transaction = x\<rparr> w =
        (Inl (Wrapped (''transaction '' @ tr_Ref x) (Sentinel ErrDuplicateRef)), w') \<and>
        moved ctx w w' \<and> view ctx w' = view ctx w"
    and "tr_Ref x \<notin> t_ref ` set (transactions (view ctx w)) \<Longrightarrow>
      env_UUID (w_env w) (w_uuids w) \<notin> t_id ` set (transactions (view ctx w)) \<Longrightarrow>
      tr_AccountID x \<in> a_id ` set (accounts (view ctx w)) \<Longrightarrow>
      tr_OwnerID x \<in> u_id ` set (users (view ctx w)) \<Longrightarrow>
      \<exists>w' y. TransactionRepository_Create ctx \<lparr>ctr_Transaction = x\<rparr> w = (Inr y, w') \<and> moved ctx w w' \<and>
        y = x\<lparr>tr_ID := env_UUID (w_env w) (w_uuids w)\<rparr> \<and>
        view ctx w' = (view ctx w)\<lparr>transactions := transactions (view ctx w) @ [row_of_transaction y]\<rparr>"
proof -
  let ?y = "x\<lparr>tr_ID := env_UUID (w_env w) (w_uuids w)\<rparr>" and ?T = "view ctx w"
  define w1 where "w1 = w\<lparr>w_uuids := Suc (w_uuids w)\<rparr>"
  have u: "uuid_NewString w = (env_UUID (w_env w) (w_uuids w), w1)" by (simp add: uuid_NewString_def w1_def)
  have w1: "fault_free w1" "usable ctx w1" "view ctx w1 = ?T" using env by (simp_all add: w1_def)
  have moved_w: "moved ctx w1 w' \<Longrightarrow> moved ctx w w'" for w'
    using env(2) by (simp add: moved_def w1_def)
  let ?args = "[tr_ID ?y, tr_Ref ?y, tr_AccountID ?y, tr_OwnerID ?y, tr_Kind ?y,
    FormatTime (tr_OccurredAt ?y), FormatTime (tr_RecordedAt ?y), tr_CreatedBy ?y]"
  have kind: "tr_Kind x \<in> {KindEarn, KindSpend}" using valid by (simp add: valid_simps)
  then have "clean (tr_Kind x)" "valid_kind (tr_Kind x)"
    by (auto simp: clean_def KindEarn_def KindSpend_def valid_kind_def)
  with args have cl: "list_all clean ?args" by simp
  note run = sql_exec_runs [where st = "insert_transaction (row_of_transaction ?y)", OF w1(1,2) cl]
  note opd = TransactionRepository_Create_def row_of_transaction_def
  show "\<exists>w'. TransactionRepository_Create ctx \<lparr>ctr_Transaction = x\<rparr> w =
        (Inl (Wrapped (''transaction '' @ tr_Ref x) (Sentinel ErrDuplicateRef)), w') \<and>
        moved ctx w w' \<and> view ctx w' = ?T" if "tr_Ref x \<in> t_ref ` set (transactions ?T)"
  proof -
    have "insert_transaction (row_of_transaction ?y) (view ctx w1) = Inr (0, ?T)"
      using that \<open>valid_kind (tr_Kind x)\<close> by (simp add: insert_transaction_Inr w1(3) row_of_transaction_def)
    from run [OF this] obtain w' where "sql_exec ctx ?args (insert_transaction (row_of_transaction ?y)) w1 = (Inr 0, w')"
      "moved ctx w1 w'" "view ctx w' = ?T" by blast
    then show ?thesis using valid new u moved_w by (auto simp: opd)
  qed
  show "\<exists>w' y. TransactionRepository_Create ctx \<lparr>ctr_Transaction = x\<rparr> w = (Inr y, w') \<and> moved ctx w w' \<and>
        y = ?y \<and> view ctx w' = ?T\<lparr>transactions := transactions ?T @ [row_of_transaction y]\<rparr>"
    if "tr_Ref x \<notin> t_ref ` set (transactions ?T)" "env_UUID (w_env w) (w_uuids w) \<notin> t_id ` set (transactions ?T)"
      "tr_AccountID x \<in> a_id ` set (accounts ?T)" "tr_OwnerID x \<in> u_id ` set (users ?T)"
  proof -
    have "insert_transaction (row_of_transaction ?y) (view ctx w1) =
        Inr (1, ?T\<lparr>transactions := transactions ?T @ [row_of_transaction ?y]\<rparr>)"
      using that \<open>valid_kind (tr_Kind x)\<close> by (simp add: insert_transaction_Inr w1(3) row_of_transaction_def)
    from run [OF this] obtain w' where "sql_exec ctx ?args (insert_transaction (row_of_transaction ?y)) w1 = (Inr 1, w')"
      "moved ctx w1 w'" "view ctx w' = ?T\<lparr>transactions := transactions ?T @ [row_of_transaction ?y]\<rparr>" by blast
    then show ?thesis using valid new u moved_w by (auto simp: opd)
  qed
qed

lemma TransactionRepository_GetByID_runs:
  assumes env: "fault_free w" "usable ctx w" and req: "ref \<noteq> []" "uid \<noteq> []" "clean ref" "clean uid"
  shows "distinct (map t_ref (transactions (view ctx w))) \<Longrightarrow> r \<in> set (transactions (view ctx w)) \<Longrightarrow>
      t_ref r = ref \<Longrightarrow> in_scope (scope_arg ctx PermTransactionReadAll uid) (t_owner_id r) \<Longrightarrow>
      transaction_of_row r = Inr x \<Longrightarrow>
      \<exists>w'. TransactionRepository_GetByID ctx \<lparr>gtr_UserID = uid, gtr_Ref = ref\<rparr> w = (Inr x, w') \<and>
        moved ctx w w' \<and> view ctx w' = view ctx w"
    and "(\<And>r. r \<in> set (transactions (view ctx w)) \<Longrightarrow> t_ref r = ref \<Longrightarrow>
        \<not> in_scope (scope_arg ctx PermTransactionReadAll uid) (t_owner_id r)) \<Longrightarrow>
      \<exists>w'. TransactionRepository_GetByID ctx \<lparr>gtr_UserID = uid, gtr_Ref = ref\<rparr> w =
          (Inl (Wrapped (''transaction '' @ ref) (Sentinel ErrNotFound)), w') \<and>
        moved ctx w w' \<and> view ctx w' = view ctx w"
proof -
  let ?sc = "scope_arg ctx PermTransactionReadAll uid" and ?q = "\<lparr>gtr_UserID = uid, gtr_Ref = ref\<rparr>"
  have v: "GetTransactionByIDRequest_Validate ?q = None"
    using req by (simp add: valid_simps)
  have args: "list_all clean (ref # scope_args ?sc)"
    using req by (simp add: scope_args_def scope_arg_def)
  note run = sql_exec_runs [where st = "select_transaction ref ?sc", OF env args]
  show "\<exists>w'. TransactionRepository_GetByID ctx ?q w = (Inr x, w') \<and> moved ctx w w' \<and> view ctx w' = view ctx w"
    if "distinct (map t_ref (transactions (view ctx w)))" "r \<in> set (transactions (view ctx w))" "t_ref r = ref"
      "in_scope ?sc (t_owner_id r)" "transaction_of_row r = Inr x"
    using run [OF transaction_lookup.select_unique [OF that(1,2,4), unfolded that(3)]] that(5) v
    by (auto simp: TransactionRepository_GetByID_def Let_def scanTransaction_def)
  show "\<exists>w'. TransactionRepository_GetByID ctx ?q w =
        (Inl (Wrapped (''transaction '' @ ref) (Sentinel ErrNotFound)), w') \<and>
      moved ctx w w' \<and> view ctx w' = view ctx w"
    if none: "\<And>r. r \<in> set (transactions (view ctx w)) \<Longrightarrow> t_ref r = ref \<Longrightarrow> \<not> in_scope ?sc (t_owner_id r)"
  proof -
    have "select_transaction ref ?sc (view ctx w) = Inr (None, view ctx w)"
      using none by (auto simp: select_transaction_def find_None_iff)
    from run [OF this] v show ?thesis
      by (auto simp: TransactionRepository_GetByID_def Let_def scanTransaction_def)
  qed
qed

end
