(* ===== verification/AuditRepository.thy ===== *)
theory AuditRepository
  imports AccountRepository
begin

text \<open>
  The audit trail and its repository (\<open>pkg/audits/auditEntry.go\<close>, \<open>auditEntryRepository.go\<close>,
  \<open>auditEntryRepositoryValidations.go\<close> and \<open>internal/pkg/audit/auditEntryRepositoryImpl.go\<close>):
  appending an entry and the scoped listings.
\<close>

section \<open>Data and requests\<close>

definition OutcomeAccepted :: string where "OutcomeAccepted = ''accepted''"
definition OutcomeRejected :: string where "OutcomeRejected = ''rejected''"
definition OutcomeDuplicate :: string where "OutcomeDuplicate = ''duplicate''"

lemmas outcome_defs = OutcomeAccepted_def OutcomeRejected_def OutcomeDuplicate_def

record AuditEntry =
  aud_ID :: int
  aud_UserID :: string
  aud_TransactionRef :: "string option"
  aud_AccountID :: "string option"
  aud_OwnerID :: "string option"
  aud_Kind :: "string option"
  aud_Points :: "int64 option"
  aud_Outcome :: string
  aud_Reason :: string
  aud_CreatedAt :: gotime

record CreateAuditEntryRequest =
  cae_AuditEntry :: AuditEntry

record ListAuditEntriesRequest =
  lae_UserID :: string

record ListAuditEntriesByTransactionRefRequest =
  ltrr_TransactionRef :: string
  ltrr_UserID :: string

record ListAuditEntriesByAccountIDRequest =
  laar_AccountID :: string
  laar_UserID :: string

record GetAuditEntryByIDRequest =
  gae_ID :: int
  gae_UserID :: string

definition CreateAuditEntryRequest_Validate :: "CreateAuditEntryRequest \<Rightarrow> go_error option" where
  "CreateAuditEntryRequest_Validate r = NewValidationError (
     (if aud_Reason (cae_AuditEntry r) = [] then [''Reason is required''] else []) @
     (if aud_UserID (cae_AuditEntry r) = [] then [''UserID is required''] else []) @
     (if aud_Outcome (cae_AuditEntry r) \<in> set [OutcomeAccepted, OutcomeRejected, OutcomeDuplicate] then []
      else [''Outcome must be '' @ squote ''accepted'' @ '', '' @ squote ''rejected'' @ '' or '' @ squote ''duplicate'']))"

definition GetAuditEntryByIDRequest_Validate :: "GetAuditEntryByIDRequest \<Rightarrow> go_error option" where
  "GetAuditEntryByIDRequest_Validate r = NewValidationError (
     (if gae_ID r \<le> 0 then [''ID must be greater than 0''] else []) @
     (if gae_UserID r = [] then [''UserID is required''] else []))"

definition ListAuditEntriesRequest_Validate :: "ListAuditEntriesRequest \<Rightarrow> go_error option" where
  "ListAuditEntriesRequest_Validate r = NewValidationError (
     (if lae_UserID r = [] then [''UserID is required''] else []))"

definition ListAuditEntriesByTransactionRefRequest_Validate ::
    "ListAuditEntriesByTransactionRefRequest \<Rightarrow> go_error option" where
  "ListAuditEntriesByTransactionRefRequest_Validate r = NewValidationError (
     (if ltrr_TransactionRef r = [] then [''TransactionRef is required''] else []) @
     (if ltrr_UserID r = [] then [''UserID is required''] else []))"

definition ListAuditEntriesByAccountIDRequest_Validate ::
    "ListAuditEntriesByAccountIDRequest \<Rightarrow> go_error option" where
  "ListAuditEntriesByAccountIDRequest_Validate r = NewValidationError (
     (if laar_AccountID r = [] then [''AccountID is required''] else []) @
     (if laar_UserID r = [] then [''UserID is required''] else []))"

section \<open>Statements\<close>

text \<open>
  The id comes from the identity sequence, which a rollback does not take back. The rows of the
  table are kept in the order of their ids, so \<open>ORDER BY id\<close> is the order of the list. A \<open>NULL\<close>
  owner never equals a user id.
\<close>

definition insert_audit :: "audit_row \<Rightarrow> int stmt" where
  "insert_audit row T =
     (if \<not> valid_outcome (e_outcome row) then
        Inl (check_violation ''audit_entries'' ''audit_entries_outcome_check'')
      else Inr (audit_seq T,
        T\<lparr>audit_entries := audit_entries T @ [row\<lparr>e_id := audit_seq T\<rparr>], audit_seq := audit_seq T + 1\<rparr>))"

definition owner_in_scope :: "string option \<Rightarrow> string option \<Rightarrow> bool" where
  "owner_in_scope sc owner \<longleftrightarrow> (case sc of None \<Rightarrow> True | Some u \<Rightarrow> owner = Some u)"

definition select_audit :: "(audit_row \<Rightarrow> bool) \<Rightarrow> string option \<Rightarrow> audit_row list stmt" where
  "select_audit cond sc T =
     Inr (filter (\<lambda>e. cond e \<and> owner_in_scope sc (e_owner_id e)) (audit_entries T), T)"

definition select_audit_by_id :: "int \<Rightarrow> string option \<Rightarrow> audit_row option stmt" where
  "select_audit_by_id n sc T =
     Inr (List.find (\<lambda>e. e_id e = n \<and> owner_in_scope sc (e_owner_id e)) (audit_entries T), T)"

section \<open>Operations\<close>

definition audit_of_row :: "audit_row \<Rightarrow> go_error + AuditEntry" where
  "audit_of_row r =
     (case ParseTime (e_created_at r) of
        Inl err \<Rightarrow> Inl err
      | Inr parsedCreatedAt \<Rightarrow>
          Inr \<lparr>aud_ID = e_id r, aud_UserID = e_user_id r, aud_TransactionRef = e_transaction_ref r,
               aud_AccountID = e_account_id r, aud_OwnerID = e_owner_id r, aud_Kind = e_kind r,
               aud_Points = e_points r, aud_Outcome = e_outcome r, aud_Reason = e_reason r,
               aud_CreatedAt = parsedCreatedAt\<rparr>)"

definition scanAuditEntry :: "go_error + audit_row option \<Rightarrow> go_error + AuditEntry" where
  "scanAuditEntry row =
     (case row of
        Inl err \<Rightarrow> Inl (Wrapped ''could not scan audit entry'' err)
      | Inr None \<Rightarrow> Inl SqlNoRows
      | Inr (Some r) \<Rightarrow> audit_of_row r)"

primrec scanAuditEntries :: "audit_row list \<Rightarrow> go_error + AuditEntry list" where
  "scanAuditEntries [] = Inr []"
| "scanAuditEntries (r # rows) =
     (case scanAuditEntry (Inr (Some r)) of
        Inl err \<Rightarrow> Inl err
      | Inr x \<Rightarrow> (case scanAuditEntries rows of Inl err \<Rightarrow> Inl err | Inr xs \<Rightarrow> Inr (x # xs)))"

definition opt_arg :: "string option \<Rightarrow> string list" where
  "opt_arg v = (case v of None \<Rightarrow> [] | Some s \<Rightarrow> [s])"

definition AuditEntryRepository_Create :: "go_context \<Rightarrow> CreateAuditEntryRequest \<Rightarrow> AuditEntry op" where
  "AuditEntryRepository_Create ctx request w =
     (case CreateAuditEntryRequest_Validate request of
        Some err \<Rightarrow> (Inl (Wrapped ''invalid request for Create'' err), w)
      | None \<Rightarrow>
        let entry = cae_AuditEntry request in
        (case sql_exec ctx
             (opt_arg (aud_TransactionRef entry) @ opt_arg (aud_AccountID entry) @
              opt_arg (aud_OwnerID entry) @ opt_arg (aud_Kind entry) @
              [aud_Outcome entry, aud_Reason entry, aud_UserID entry, FormatTime (aud_CreatedAt entry)])
             (insert_audit \<lparr>e_id = 0, e_transaction_ref = aud_TransactionRef entry,
                e_account_id = aud_AccountID entry, e_owner_id = aud_OwnerID entry,
                e_kind = aud_Kind entry, e_points = aud_Points entry, e_outcome = aud_Outcome entry,
                e_reason = aud_Reason entry, e_user_id = aud_UserID entry,
                e_created_at = FormatTime (aud_CreatedAt entry)\<rparr>) w of
           (Inl err, w) \<Rightarrow> (Inl (Wrapped ''could not insert audit entry'' err), w)
         | (Inr new, w) \<Rightarrow> (Inr (entry\<lparr>aud_ID := new\<rparr>), w)))"

definition AuditEntryRepository_queryEntries ::
    "go_context \<Rightarrow> string list \<Rightarrow> (audit_row \<Rightarrow> bool) \<Rightarrow> string option \<Rightarrow> AuditEntry list op" where
  "AuditEntryRepository_queryEntries ctx args cond sc w =
     (case sql_exec ctx (args @ scope_args sc) (select_audit cond sc) w of
        (Inl err, w) \<Rightarrow> (Inl (Wrapped ''could not query audit entries'' err), w)
      | (Inr rows, w) \<Rightarrow>
          (case fetch_rows ctx rows w of ((rows, iterErr), w) \<Rightarrow>
             (case scanAuditEntries rows of
                Inl err \<Rightarrow> (Inl err, w)
              | Inr entries \<Rightarrow>
                  (case iterErr of
                     Some err \<Rightarrow> (Inl (Wrapped ''could not iterate audit entries'' err), w)
                   | None \<Rightarrow> (Inr entries, w)))))"

definition AuditEntryRepository_List :: "go_context \<Rightarrow> ListAuditEntriesRequest \<Rightarrow> AuditEntry list op" where
  "AuditEntryRepository_List ctx request w =
     (case ListAuditEntriesRequest_Validate request of
        Some err \<Rightarrow> (Inl (Wrapped ''invalid request for List'' err), w)
      | None \<Rightarrow>
          AuditEntryRepository_queryEntries ctx [] (\<lambda>_. True)
            (scope_arg ctx PermAuditReadAll (lae_UserID request)) w)"

definition AuditEntryRepository_ListByTransactionRef ::
    "go_context \<Rightarrow> ListAuditEntriesByTransactionRefRequest \<Rightarrow> AuditEntry list op" where
  "AuditEntryRepository_ListByTransactionRef ctx request w =
     (case ListAuditEntriesByTransactionRefRequest_Validate request of
        Some err \<Rightarrow> (Inl (Wrapped ''invalid request for ListByTransactionRef'' err), w)
      | None \<Rightarrow>
          AuditEntryRepository_queryEntries ctx [ltrr_TransactionRef request]
            (\<lambda>e. e_transaction_ref e = Some (ltrr_TransactionRef request))
            (scope_arg ctx PermAuditReadAll (ltrr_UserID request)) w)"

definition AuditEntryRepository_ListByAccountID ::
    "go_context \<Rightarrow> ListAuditEntriesByAccountIDRequest \<Rightarrow> AuditEntry list op" where
  "AuditEntryRepository_ListByAccountID ctx request w =
     (case ListAuditEntriesByAccountIDRequest_Validate request of
        Some err \<Rightarrow> (Inl (Wrapped ''invalid request for ListByAccountID'' err), w)
      | None \<Rightarrow>
          AuditEntryRepository_queryEntries ctx [laar_AccountID request]
            (\<lambda>e. e_account_id e = Some (laar_AccountID request))
            (scope_arg ctx PermAuditReadAll (laar_UserID request)) w)"

definition AuditEntryRepository_GetByID :: "go_context \<Rightarrow> GetAuditEntryByIDRequest \<Rightarrow> AuditEntry op" where
  "AuditEntryRepository_GetByID ctx request w =
     (case GetAuditEntryByIDRequest_Validate request of
        Some err \<Rightarrow> (Inl (Wrapped ''invalid request for GetByID'' err), w)
      | None \<Rightarrow>
        let sc = scope_arg ctx PermAuditReadAll (gae_UserID request) in
        (case sql_exec ctx (scope_args sc) (select_audit_by_id (gae_ID request) sc) w of
           (row, w) \<Rightarrow>
             (case scanAuditEntry row of
                Inl err \<Rightarrow>
                  if errors_Is_NoRows err then
                    (Inl (Wrapped (''audit entry '' @ strconv_Itoa (gae_ID request)) (Sentinel ErrNotFound)), w)
                  else (Inl err, w)
              | Inr entry \<Rightarrow> (Inr entry, w))))"

section \<open>Facts\<close>

lemma audit_requests_valid [valid_simps]:
  "CreateAuditEntryRequest_Validate r = None \<longleftrightarrow> aud_Reason (cae_AuditEntry r) \<noteq> [] \<and>
     aud_UserID (cae_AuditEntry r) \<noteq> [] \<and>
     aud_Outcome (cae_AuditEntry r) \<in> {OutcomeAccepted, OutcomeRejected, OutcomeDuplicate}"
  "GetAuditEntryByIDRequest_Validate r1 = None \<longleftrightarrow> 0 < gae_ID r1 \<and> gae_UserID r1 \<noteq> []"
  "ListAuditEntriesRequest_Validate r2 = None \<longleftrightarrow> lae_UserID r2 \<noteq> []"
  "ListAuditEntriesByTransactionRefRequest_Validate r3 = None \<longleftrightarrow>
     ltrr_TransactionRef r3 \<noteq> [] \<and> ltrr_UserID r3 \<noteq> []"
  "ListAuditEntriesByAccountIDRequest_Validate r4 = None \<longleftrightarrow>
     laar_AccountID r4 \<noteq> [] \<and> laar_UserID r4 \<noteq> []"
  by (auto simp: CreateAuditEntryRequest_Validate_def GetAuditEntryByIDRequest_Validate_def
      ListAuditEntriesRequest_Validate_def ListAuditEntriesByTransactionRefRequest_Validate_def
      ListAuditEntriesByAccountIDRequest_Validate_def)

lemma audit_reads_frame:
  "select_audit cond sc T = Inr (x1, T') \<Longrightarrow> T' = T"
  "select_audit_by_id n sc T = Inr (x2, T') \<Longrightarrow> T' = T"
  by (simp_all add: select_audit_def select_audit_by_id_def)

lemma insert_audit_Inr:
  "insert_audit row T = Inr (n, T') \<longleftrightarrow> valid_outcome (e_outcome row) \<and> n = audit_seq T \<and>
     T' = T\<lparr>audit_entries := audit_entries T @ [row\<lparr>e_id := audit_seq T\<rparr>], audit_seq := audit_seq T + 1\<rparr>"
  by (auto simp: insert_audit_def)

lemma insert_audit_Inl: "insert_audit row T = Inl e \<Longrightarrow> driver_error e"
  by (auto simp: insert_audit_def split: if_splits)

lemma insert_audit_durable: "insert_audit row T = Inr (n, T') \<Longrightarrow> durable T T'"
  by (auto simp: insert_audit_Inr durable_def schema_ok_def users_ok_def accounts_ok_def
      transactions_ok_def audit_ok_def sorted_wrt_append list_all_iff less_imp_le)

lemma insert_audit_same_ledger: "insert_audit row T = Inr (n, T') \<Longrightarrow> same_ledger T T'"
  by (auto simp: insert_audit_Inr same_ledger_def)

context table_relation
begin

lemma queryEntries_evolves: "evolves R ctx w (snd (AuditEntryRepository_queryEntries ctx args cond sc w))"
  unfolding AuditEntryRepository_queryEntries_def
  by (intro evolves_rules evolves_read evolves_fetch; blast dest: audit_reads_frame)

lemma AuditEntryRepository_reads_evolve:
  "evolves R ctx w (snd (AuditEntryRepository_List ctx r1 w))"
  "evolves R ctx w (snd (AuditEntryRepository_ListByTransactionRef ctx r2 w))"
  "evolves R ctx w (snd (AuditEntryRepository_ListByAccountID ctx r3 w))"
  "evolves R ctx w (snd (AuditEntryRepository_GetByID ctx r4 w))"
  unfolding AuditEntryRepository_List_def AuditEntryRepository_ListByTransactionRef_def
    AuditEntryRepository_ListByAccountID_def AuditEntryRepository_GetByID_def Let_def
  by (intro evolves_rules evolves_read queryEntries_evolves; blast dest: audit_reads_frame)+

lemma AuditEntryRepository_Create_evolves:
  "(\<And>row T n T'. insert_audit row T = Inr (n, T') \<Longrightarrow> R T T') \<Longrightarrow>
   evolves R ctx w (snd (AuditEntryRepository_Create ctx request w))"
  unfolding AuditEntryRepository_Create_def Let_def
  by (intro evolves_rules evolves_sql_exec) blast+

end

text \<open>The row an entry is stored as.\<close>

definition row_of_audit :: "AuditEntry \<Rightarrow> audit_row" where
  "row_of_audit x =
     \<lparr>e_id = aud_ID x, e_transaction_ref = aud_TransactionRef x, e_account_id = aud_AccountID x,
      e_owner_id = aud_OwnerID x, e_kind = aud_Kind x, e_points = aud_Points x,
      e_outcome = aud_Outcome x, e_reason = aud_Reason x, e_user_id = aud_UserID x,
      e_created_at = FormatTime (aud_CreatedAt x)\<rparr>"

lemma AuditEntryRepository_Create_Inr:
  assumes "AuditEntryRepository_Create ctx req w = (Inr x, w')" "connected ctx w"
  shows "moved ctx w w' \<and> x = (cae_AuditEntry req)\<lparr>aud_ID := audit_seq (view ctx w)\<rparr> \<and>
    view ctx w' = (view ctx w)\<lparr>audit_entries := audit_entries (view ctx w) @ [row_of_audit x],
      audit_seq := audit_seq (view ctx w) + 1\<rparr>"
  using assms
  by (auto simp: AuditEntryRepository_Create_def Let_def insert_audit_Inr row_of_audit_def
      split: option.splits prod.splits sum.splits dest!: sql_exec_InrD)

lemma AuditEntryRepository_Create_Inl:
  assumes "AuditEntryRepository_Create ctx req w = (Inl e, w')"
    and "CreateAuditEntryRequest_Validate req = None"
  shows "\<not> errors_Is e s"
  using assms
  by (auto simp: AuditEntryRepository_Create_def Let_def errs_simps
      split: prod.splits sum.splits dest!: sql_exec_Inl [OF _ insert_audit_Inl])


section \<open>Running without failures\<close>

lemma AuditEntryRepository_Create_runs:
  assumes env: "fault_free w" "usable ctx w" and valid: "CreateAuditEntryRequest_Validate \<lparr>cae_AuditEntry = x\<rparr> = None"
    and args: "list_all clean (opt_arg (aud_TransactionRef x) @ opt_arg (aud_AccountID x) @
      opt_arg (aud_OwnerID x) @ opt_arg (aud_Kind x) @ [aud_Reason x, aud_UserID x, FormatTime (aud_CreatedAt x)])"
  shows "\<exists>w' y. AuditEntryRepository_Create ctx \<lparr>cae_AuditEntry = x\<rparr> w = (Inr y, w') \<and> moved ctx w w' \<and>
    y = x\<lparr>aud_ID := audit_seq (view ctx w)\<rparr> \<and>
    view ctx w' = (view ctx w)\<lparr>audit_entries := audit_entries (view ctx w) @ [row_of_audit y],
      audit_seq := audit_seq (view ctx w) + 1\<rparr>"
proof -
  have out: "valid_outcome (aud_Outcome x)" "clean (aud_Outcome x)"
    using valid by (auto simp: valid_simps valid_outcome_def clean_def outcome_defs)
  let ?st = "insert_audit ((row_of_audit x)\<lparr>e_id := 0\<rparr>)"
  let ?args = "opt_arg (aud_TransactionRef x) @ opt_arg (aud_AccountID x) @ opt_arg (aud_OwnerID x) @
    opt_arg (aud_Kind x) @ [aud_Outcome x, aud_Reason x, aud_UserID x, FormatTime (aud_CreatedAt x)]"
  have "?st (view ctx w) = Inr (audit_seq (view ctx w), (view ctx w)\<lparr>audit_entries := audit_entries (view ctx w) @
      [row_of_audit (x\<lparr>aud_ID := audit_seq (view ctx w)\<rparr>)], audit_seq := audit_seq (view ctx w) + 1\<rparr>)"
    using out by (simp add: insert_audit_Inr row_of_audit_def)
  moreover have "list_all clean ?args" using args out by simp
  ultimately obtain w' where "sql_exec ctx ?args ?st w = (Inr (audit_seq (view ctx w)), w')" "moved ctx w w'"
    "view ctx w' = (view ctx w)\<lparr>audit_entries := audit_entries (view ctx w) @
      [row_of_audit (x\<lparr>aud_ID := audit_seq (view ctx w)\<rparr>)], audit_seq := audit_seq (view ctx w) + 1\<rparr>"
    using sql_exec_runs [where st = ?st, OF env] by blast
  then show ?thesis
    using valid by (simp add: AuditEntryRepository_Create_def Let_def row_of_audit_def)
qed

end
