(* ===== verification/WalletService.thy ===== *)
theory WalletService
  imports TransactionRepository AuditRepository
begin

text \<open>
  The wallet service (\<open>pkg/wallets/walletService.go\<close>, \<open>walletServiceValidations.go\<close> and
  \<open>internal/pkg/wallets/walletServiceImpl.go\<close>): one transaction as a unit of work with its audit
  row, the earn and spend operations, and the batch.
\<close>

section \<open>Requests and responses\<close>

record ProcessTransactionRequest =
  ptr_UserID :: string
  ptr_Ref :: string
  ptr_AccountID :: string
  ptr_Kind :: string
  ptr_Points :: int64
  ptr_OccurredAt :: gotime

record EarnPointsRequest =
  epr_UserID :: string
  epr_Ref :: string
  epr_AccountID :: string
  epr_Points :: int64
  epr_OccurredAt :: gotime

record SpendPointsRequest =
  spr_UserID :: string
  spr_Ref :: string
  spr_AccountID :: string
  spr_Points :: int64
  spr_OccurredAt :: gotime

record ProcessTransactionResponse =
  ptp_Transaction :: Transaction
  ptp_Balance :: int64
  ptp_Duplicate :: bool

record ProcessTransactionBatchRequest =
  pbr_Transactions :: "ProcessTransactionRequest list"

definition BatchOutcomeAccepted :: string where "BatchOutcomeAccepted = ''accepted''"
definition BatchOutcomeDuplicate :: string where "BatchOutcomeDuplicate = ''duplicate''"
definition BatchOutcomeRejected :: string where "BatchOutcomeRejected = ''rejected''"

lemmas batch_outcome_defs = BatchOutcomeAccepted_def BatchOutcomeDuplicate_def BatchOutcomeRejected_def

record BatchElementResult =
  ber_Ref :: string
  ber_Outcome :: string
  ber_Reason :: string
  ber_Balance :: int64

record ProcessTransactionBatchResponse =
  pbp_Results :: "BatchElementResult list"
  pbp_Accepted :: nat
  pbp_Duplicate :: nat
  pbp_Rejected :: nat

definition maxBatchSize :: nat where "maxBatchSize = 1000"

definition ProcessTransactionBatchRequest_Validate :: "ProcessTransactionBatchRequest \<Rightarrow> go_error option" where
  "ProcessTransactionBatchRequest_Validate r = NewValidationError (
     if length (pbr_Transactions r) = 0 then [''batch must contain at least one transaction'']
     else if length (pbr_Transactions r) > maxBatchSize then
       [''batch exceeds maximum of '' @ strconv_Itoa (int maxBatchSize) @ '' transactions'']
     else [])"

definition ProcessTransactionRequest_Validate :: "ProcessTransactionRequest \<Rightarrow> go_error option" where
  "ProcessTransactionRequest_Validate r = NewValidationError (
     (if ptr_Ref r = [] then [''Ref is required''] else []) @
     (if ptr_AccountID r = [] then [''AccountID is required''] else []) @
     (if ptr_UserID r = [] then [''UserID is required''] else []) @
     (if ptr_Kind r \<in> set [KindEarn, KindSpend] then
        (if sint (ptr_Points r) \<le> 0 then [''Points must be greater than 0 for earn and spend''] else [])
      else [''Kind must be '' @ squote ''earn'' @ '' or '' @ squote ''spend'']))"

section \<open>One transaction\<close>

definition signedDelta :: "string \<Rightarrow> int64 \<Rightarrow> int64" where
  "signedDelta kind points = (if kind = KindSpend then - points else points)"

definition reasonFor :: "go_error \<Rightarrow> string" where
  "reasonFor err =
     (if errors_Is err ErrInsufficientBalance then ''insufficient balance''
      else if errors_Is err ErrNotFound then ''unknown account''
      else if errors_Is err ErrForbidden then ''not account owner''
      else go_Error err)"

definition buildAuditEntry ::
    "ProcessTransactionRequest \<Rightarrow> int64 \<Rightarrow> string option \<Rightarrow> string \<Rightarrow> string \<Rightarrow> gotime \<Rightarrow> CreateAuditEntryRequest" where
  "buildAuditEntry request delta ownerID outcome reason now =
     \<lparr>cae_AuditEntry =
        \<lparr>aud_ID = 0, aud_UserID = ptr_UserID request, aud_TransactionRef = Some (ptr_Ref request),
         aud_AccountID = Some (ptr_AccountID request), aud_OwnerID = ownerID,
         aud_Kind = Some (ptr_Kind request), aud_Points = Some delta, aud_Outcome = outcome,
         aud_Reason = reason, aud_CreatedAt = now\<rparr>\<rparr>"

definition rejectTransaction ::
    "go_context \<Rightarrow> ProcessTransactionRequest \<Rightarrow> int64 \<Rightarrow> gotime \<Rightarrow> string option \<Rightarrow> go_error \<Rightarrow>
     ProcessTransactionResponse op" where
  "rejectTransaction ctx request delta now ownerID err w =
     (case AuditEntryRepository_Create ctx
             (buildAuditEntry request delta ownerID OutcomeRejected (reasonFor err) now) w of
        (Inl auditErr, w) \<Rightarrow> (Inl auditErr, w)
      | (Inr _, w) \<Rightarrow> (Inl err, w))"

text \<open>The function that \<open>ProcessTransaction\<close> hands to \<open>RunInTx\<close>.\<close>

definition process_unit ::
    "ProcessTransactionRequest \<Rightarrow> int64 \<Rightarrow> gotime \<Rightarrow> gotime \<Rightarrow> string \<Rightarrow> go_context \<Rightarrow>
     ProcessTransactionResponse op" where
  "process_unit request delta now occurredAt ownerID ctx w =
     (case TransactionRepository_Create ctx
             \<lparr>ctr_Transaction =
                \<lparr>tr_ID = [], tr_Ref = ptr_Ref request, tr_AccountID = ptr_AccountID request,
                 tr_OwnerID = ownerID, tr_Kind = ptr_Kind request, tr_Points = delta,
                 tr_OccurredAt = occurredAt, tr_RecordedAt = now, tr_CreatedBy = ptr_UserID request\<rparr>\<rparr> w of
        (Inl err, w) \<Rightarrow>
          if errors_Is err ErrDuplicateRef then
            (case TransactionRepository_GetByID ctx
                    \<lparr>gtr_UserID = ptr_UserID request, gtr_Ref = ptr_Ref request\<rparr> w of
               (Inl err, w) \<Rightarrow> (Inl err, w)
             | (Inr original, w) \<Rightarrow>
               (case AccountRepository_GetByID ctx
                       \<lparr>gar_AccountID = ptr_AccountID request, gar_UserID = ptr_UserID request\<rparr> w of
                  (Inl err, w) \<Rightarrow> (Inl err, w)
                | (Inr account, w) \<Rightarrow>
                  (case AuditEntryRepository_Create ctx
                          (buildAuditEntry request delta (Some ownerID) OutcomeDuplicate ''duplicate'' now) w of
                     (Inl err, w) \<Rightarrow> (Inl err, w)
                   | (Inr _, w) \<Rightarrow>
                       (Inr \<lparr>ptp_Transaction = original, ptp_Balance = acc_Balance account,
                             ptp_Duplicate = True\<rparr>, w))))
          else (Inl err, w)
      | (Inr created, w) \<Rightarrow>
          (case AccountRepository_UpdateAccountBalance ctx
                  \<lparr>ubr_AccountID = ptr_AccountID request, ubr_Delta = delta, ubr_UserID = ownerID\<rparr> w of
             (Inl err, w) \<Rightarrow> (Inl err, w)
           | (Inr updated, w) \<Rightarrow>
             (case AuditEntryRepository_Create ctx
                     (buildAuditEntry request delta (Some ownerID) OutcomeAccepted ''ok'' now) w of
                (Inl err, w) \<Rightarrow> (Inl err, w)
              | (Inr _, w) \<Rightarrow>
                  (Inr \<lparr>ptp_Transaction = created, ptp_Balance = updated, ptp_Duplicate = False\<rparr>, w))))"

definition WalletService_ProcessTransaction ::
    "go_context \<Rightarrow> ProcessTransactionRequest \<Rightarrow> ProcessTransactionResponse op" where
  "WalletService_ProcessTransaction ctx request w =
     (case ProcessTransactionRequest_Validate request of
        Some err \<Rightarrow> (Inl (Wrapped ''invalid request for ProcessTransaction'' err), w)
      | None \<Rightarrow>
        let delta = signedDelta (ptr_Kind request) (ptr_Points request) in
        (case time_Now w of (now, w) \<Rightarrow>
        let occurredAt = (if IsZero (ptr_OccurredAt request) then now else ptr_OccurredAt request) in
        (case AccountRepository_GetByID ctx
                \<lparr>gar_AccountID = ptr_AccountID request, gar_UserID = ptr_UserID request\<rparr> w of
           (Inl err, w) \<Rightarrow> rejectTransaction ctx request delta now None err w
         | (Inr account, w) \<Rightarrow>
             let ownerID = acc_OwnerID account in
             (case RunInTx ctx (process_unit request delta now occurredAt ownerID) w of
                (Inl err, w) \<Rightarrow> rejectTransaction ctx request delta now (Some ownerID) err w
              | (Inr resp, w) \<Rightarrow> (Inr resp, w)))))"

definition WalletService_EarnPoints ::
    "go_context \<Rightarrow> EarnPointsRequest \<Rightarrow> ProcessTransactionResponse op" where
  "WalletService_EarnPoints ctx request =
     WalletService_ProcessTransaction ctx
       \<lparr>ptr_UserID = epr_UserID request, ptr_Ref = epr_Ref request, ptr_AccountID = epr_AccountID request,
        ptr_Kind = KindEarn, ptr_Points = epr_Points request, ptr_OccurredAt = epr_OccurredAt request\<rparr>"

definition WalletService_SpendPoints ::
    "go_context \<Rightarrow> SpendPointsRequest \<Rightarrow> ProcessTransactionResponse op" where
  "WalletService_SpendPoints ctx request =
     WalletService_ProcessTransaction ctx
       \<lparr>ptr_UserID = spr_UserID request, ptr_Ref = spr_Ref request, ptr_AccountID = spr_AccountID request,
        ptr_Kind = KindSpend, ptr_Points = spr_Points request, ptr_OccurredAt = spr_OccurredAt request\<rparr>"

section \<open>The batch\<close>

text \<open>One pass of the loop body, and the loop.\<close>

definition batch_element ::
    "go_context \<Rightarrow> ProcessTransactionRequest \<Rightarrow> ProcessTransactionBatchResponse \<Rightarrow> world \<Rightarrow>
     ProcessTransactionBatchResponse \<times> world" where
  "batch_element ctx txRequest resp w =
     (case WalletService_ProcessTransaction ctx txRequest w of
        (Inl err, w) \<Rightarrow>
          (resp\<lparr>pbp_Results := pbp_Results resp @
              [\<lparr>ber_Ref = ptr_Ref txRequest, ber_Outcome = BatchOutcomeRejected,
                ber_Reason = reasonFor err, ber_Balance = 0\<rparr>],
            pbp_Rejected := pbp_Rejected resp + 1\<rparr>, w)
      | (Inr result, w) \<Rightarrow>
          if ptp_Duplicate result then
            (resp\<lparr>pbp_Results := pbp_Results resp @
                [\<lparr>ber_Ref = ptr_Ref txRequest, ber_Outcome = BatchOutcomeDuplicate,
                  ber_Reason = [], ber_Balance = ptp_Balance result\<rparr>],
              pbp_Duplicate := pbp_Duplicate resp + 1\<rparr>, w)
          else
            (resp\<lparr>pbp_Results := pbp_Results resp @
                [\<lparr>ber_Ref = ptr_Ref txRequest, ber_Outcome = BatchOutcomeAccepted,
                  ber_Reason = [], ber_Balance = ptp_Balance result\<rparr>],
              pbp_Accepted := pbp_Accepted resp + 1\<rparr>, w))"

primrec batch_loop ::
    "go_context \<Rightarrow> ProcessTransactionRequest list \<Rightarrow> ProcessTransactionBatchResponse \<Rightarrow> world \<Rightarrow>
     ProcessTransactionBatchResponse \<times> world" where
  "batch_loop ctx [] resp w = (resp, w)"
| "batch_loop ctx (r # rs) resp w =
     (case batch_element ctx r resp w of (resp, w) \<Rightarrow> batch_loop ctx rs resp w)"

definition occurs_before :: "ProcessTransactionRequest \<Rightarrow> ProcessTransactionRequest \<Rightarrow> bool" where
  "occurs_before x y \<longleftrightarrow> Before (ptr_OccurredAt x) (ptr_OccurredAt y)"

definition WalletService_ProcessTransactionBatch ::
    "go_context \<Rightarrow> ProcessTransactionBatchRequest \<Rightarrow> ProcessTransactionBatchResponse op" where
  "WalletService_ProcessTransactionBatch ctx request w =
     (case ProcessTransactionBatchRequest_Validate request of
        Some err \<Rightarrow> (Inl (Wrapped ''invalid request for ProcessTransactionBatch'' err), w)
      | None \<Rightarrow>
        let ordered = sort_SliceStable occurs_before (pbr_Transactions request) in
        (case batch_loop ctx ordered
                \<lparr>pbp_Results = [], pbp_Accepted = 0, pbp_Duplicate = 0, pbp_Rejected = 0\<rparr> w of
           (resp, w) \<Rightarrow> (Inr resp, w)))"

section \<open>Basic facts\<close>

lemma process_requests_valid [valid_simps]:
  "ProcessTransactionRequest_Validate r = None \<longleftrightarrow> ptr_Ref r \<noteq> [] \<and> ptr_AccountID r \<noteq> [] \<and>
     ptr_UserID r \<noteq> [] \<and> ptr_Kind r \<in> {KindEarn, KindSpend} \<and> 0 < sint (ptr_Points r)"
  "ProcessTransactionBatchRequest_Validate r1 = None \<longleftrightarrow>
     pbr_Transactions r1 \<noteq> [] \<and> length (pbr_Transactions r1) \<le> maxBatchSize"
  by (auto simp: ProcessTransactionRequest_Validate_def ProcessTransactionBatchRequest_Validate_def)

lemma kind_facts [simp]: "KindEarn \<noteq> KindSpend" "KindSpend \<noteq> KindEarn"
  by (simp_all add: KindEarn_def KindSpend_def)

lemma signedDelta_sint:
  "0 < sint p \<Longrightarrow> k \<in> {KindEarn, KindSpend} \<Longrightarrow>
   sint (signedDelta k p) = (if k = KindSpend then - sint p else sint p) \<and> signedDelta k p \<noteq> 0"
  by (auto simp: signedDelta_def sint_uminus_pos word_eq_0_iff_sint)

lemma buildAuditEntry_sel [simp]:
  "cae_AuditEntry (buildAuditEntry request delta owner outcome reason now) =
     \<lparr>aud_ID = 0, aud_UserID = ptr_UserID request, aud_TransactionRef = Some (ptr_Ref request),
      aud_AccountID = Some (ptr_AccountID request), aud_OwnerID = owner,
      aud_Kind = Some (ptr_Kind request), aud_Points = Some delta, aud_Outcome = outcome,
      aud_Reason = reason, aud_CreatedAt = now\<rparr>"
  by (simp add: buildAuditEntry_def)

interpretation batch_order: stable_order occurs_before
  by unfold_locales (auto simp: occurs_before_def Before_def)

context table_relation
begin

lemma rejectTransaction_evolves:
  "(\<And>row T n T'. insert_audit row T = Inr (n, T') \<Longrightarrow> R T T') \<Longrightarrow>
   evolves R ctx w (snd (rejectTransaction ctx request delta now owner err w))"
  unfolding rejectTransaction_def
  by (intro evolves_rules AuditEntryRepository_Create_evolves) blast+

lemma process_unit_evolves:
  assumes "\<And>row T n T'. insert_transaction row T = Inr (n, T') \<Longrightarrow> R T T'"
    and "\<And>aid d sc T n T'. update_balance aid d sc T = Inr (n, T') \<Longrightarrow> R T T'"
    and "\<And>row T n T'. insert_audit row T = Inr (n, T') \<Longrightarrow> R T T'"
  shows "evolves R ctx w (snd (process_unit request delta now occurredAt owner ctx w))"
  unfolding process_unit_def
  by (intro evolves_rules TransactionRepository_Create_evolves TransactionRepository_reads_evolve
      AccountRepository_reads_evolve AccountRepository_UpdateAccountBalance_evolves
      AuditEntryRepository_Create_evolves) (blast intro: assms)+

lemma ProcessTransaction_evolves:
  assumes "\<And>row T n T'. insert_transaction row T = Inr (n, T') \<Longrightarrow> R T T'"
    and "\<And>aid d sc T n T'. update_balance aid d sc T = Inr (n, T') \<Longrightarrow> R T T'"
    and "\<And>row T n T'. insert_audit row T = Inr (n, T') \<Longrightarrow> R T T'"
  shows "evolves R ctx w (snd (WalletService_ProcessTransaction ctx request w))"
  unfolding WalletService_ProcessTransaction_def Let_def
  by (intro evolves_rules evolves_time_Now AccountRepository_reads_evolve evolves_RunInTx
      rejectTransaction_evolves process_unit_evolves) (blast intro: assms)+

end

end
