(* ===== verification/WalletLedger.thy ===== *)
theory WalletLedger
  imports WalletService
begin

text \<open>
  What processing a transaction does to the ledger. The abstract step is \<open>posts\<close>: one new ledger
  row and the matching balance change, under the overdraft guard. \<open>ProcessTransaction\<close> refines the
  choice between that step and no step, under every failure of the driver; the ledger invariant
  (each balance is the sum of its account's postings), the balance floor and idempotency follow.
\<close>

section \<open>The abstract step\<close>

definition request_delta :: "ProcessTransactionRequest \<Rightarrow> int64" where
  "request_delta req = signedDelta (ptr_Kind req) (ptr_Points req)"

definition records :: "ProcessTransactionRequest \<Rightarrow> Transaction \<Rightarrow> bool" where
  "records req x \<longleftrightarrow> tr_Ref x = ptr_Ref req \<and> tr_AccountID x = ptr_AccountID req \<and>
     tr_Kind x = ptr_Kind req \<and> tr_Points x = request_delta req \<and> tr_CreatedBy x = ptr_UserID req \<and>
     (\<not> IsZero (ptr_OccurredAt req) \<longrightarrow> tr_OccurredAt x = ptr_OccurredAt req)"

definition posts :: "Transaction \<Rightarrow> int64 \<Rightarrow> tables \<Rightarrow> tables \<Rightarrow> bool" where
  "posts x b T T' \<longleftrightarrow>
     users T' = users T \<and>
     transactions T' = transactions T @ [row_of_transaction x] \<and>
     accounts T' = update_where (\<lambda>a. a_id a = tr_AccountID x)
       (\<lambda>a. a\<lparr>a_balance := a_balance a + tr_Points x\<rparr>) (accounts T) \<and>
     tr_Ref x \<notin> t_ref ` set (transactions T) \<and> tr_ID x \<notin> t_id ` set (transactions T) \<and>
     (\<exists>a \<in> set (accounts T). a_id a = tr_AccountID x \<and> a_owner_id a = tr_OwnerID x \<and>
        0 \<le> sint (a_balance a) + sint (tr_Points x) \<and> fits64 (sint (a_balance a) + sint (tr_Points x)) \<and>
        b = a_balance a + tr_Points x)"

text \<open>A duplicate answers with the stored row and the account's present balance.\<close>

definition replays :: "ProcessTransactionRequest \<Rightarrow> ProcessTransactionResponse \<Rightarrow> tables \<Rightarrow> bool" where
  "replays req resp T \<longleftrightarrow>
     (\<exists>r \<in> set (transactions T). t_ref r = ptr_Ref req \<and> transaction_of_row r = Inr (ptp_Transaction resp)) \<and>
     (\<exists>a \<in> set (accounts T). a_id a = ptr_AccountID req \<and> a_balance a = ptp_Balance resp)"

lemma same_ledger_posts: "posts x b T T1 \<Longrightarrow> same_ledger T1 T2 \<Longrightarrow> posts x b T T2"
  by (simp add: posts_def same_ledger_def)

lemma posts_seq: "posts x b T T1 \<Longrightarrow> same_ledger T0 T \<Longrightarrow> posts x b T0 T1"
  by (simp add: posts_def same_ledger_def)

lemma same_ledger_refl [simp]: "same_ledger T T" "same_ledger T (T\<lparr>audit_seq := n\<rparr>)"
  by (simp_all add: same_ledger_def)

section \<open>The unit of work\<close>

lemma moved_step: "moved ctx w w1 \<Longrightarrow> connected ctx w1"
  by (simp add: moved_def usable_def)

lemma process_unit_Inr:
  assumes run: "process_unit req (request_delta req) now occ owner ctx w = (Inr resp, w')"
    and con: "connected ctx w" and ok: "schema_ok (view ctx w)"
    and own: "\<And>a. a \<in> set (accounts (view ctx w)) \<Longrightarrow> a_id a = ptr_AccountID req \<Longrightarrow> a_owner_id a = owner"
    and occ: "\<not> IsZero (ptr_OccurredAt req) \<Longrightarrow> occ = ptr_OccurredAt req"
  shows "if ptp_Duplicate resp then same_ledger (view ctx w) (view ctx w') \<and> replays req resp (view ctx w)
    else records req (ptp_Transaction resp) \<and>
      posts (ptp_Transaction resp) (ptp_Balance resp) (view ctx w) (view ctx w')"
proof -
  obtain s w1 where c: "TransactionRepository_Create ctx
      \<lparr>ctr_Transaction = \<lparr>tr_ID = [], tr_Ref = ptr_Ref req, tr_AccountID = ptr_AccountID req,
         tr_OwnerID = owner, tr_Kind = ptr_Kind req, tr_Points = request_delta req, tr_OccurredAt = occ,
         tr_RecordedAt = now, tr_CreatedBy = ptr_UserID req\<rparr>\<rparr> w = (s, w1)"
    (is "TransactionRepository_Create ctx ?r w = _") by fastforce
  show ?thesis
  proof (cases s)
    case (Inl e)
    with run c have dup: "errors_Is e ErrDuplicateRef" by (auto simp: process_unit_def split: if_splits)
    from TransactionRepository_Create_duplicate [OF c [unfolded Inl] con dup]
    have w1: "connected ctx w1" "view ctx w1 = view ctx w" by (auto dest: moved_step)
    obtain x w2 y w3 z where
      t: "TransactionRepository_GetByID ctx \<lparr>gtr_UserID = ptr_UserID req, gtr_Ref = ptr_Ref req\<rparr> w1 = (Inr x, w2)" and
      a: "AccountRepository_GetByID ctx \<lparr>gar_AccountID = ptr_AccountID req, gar_UserID = ptr_UserID req\<rparr> w2 = (Inr y, w3)" and
      e: "AuditEntryRepository_Create ctx (buildAuditEntry req (request_delta req) (Some owner) OutcomeDuplicate ''duplicate'' now) w3 = (Inr z, w')"
      and resp: "resp = \<lparr>ptp_Transaction = x, ptp_Balance = acc_Balance y, ptp_Duplicate = True\<rparr>"
      using run c Inl dup by (auto simp: process_unit_def split: prod.splits sum.splits)
    from TransactionRepository_GetByID_Inr [OF t w1(1)] have w2: "connected ctx w2" "view ctx w2 = view ctx w1"
      "\<exists>r \<in> set (transactions (view ctx w1)). t_ref r = ptr_Ref req \<and> transaction_of_row r = Inr x"
      by (auto dest: moved_step)
    from AccountRepository_GetByID_Inr [OF a w2(1)] have w3: "connected ctx w3" "view ctx w3 = view ctx w2"
      "\<exists>r \<in> set (accounts (view ctx w2)). a_id r = ptr_AccountID req \<and> a_balance r = acc_Balance y"
      by (auto dest: moved_step dest!: account_of_row_Inr)
    from AuditEntryRepository_Create_Inr [OF e w3(1)] have "same_ledger (view ctx w3) (view ctx w')"
      by (auto simp: same_ledger_def)
    then show ?thesis using w1 w2 w3 resp by (auto simp: replays_def)
  next
    case (Inr x)
    from TransactionRepository_Create_Inr [OF c [unfolded Inr] con]
    have w1: "connected ctx w1" "x = (ctr_Transaction ?r)\<lparr>tr_ID := tr_ID x\<rparr>"
      "insert_transaction (row_of_transaction x) (view ctx w) = Inr (1, view ctx w1)"
      by (auto dest: moved_step)
    obtain b w2 z where
      u: "AccountRepository_UpdateAccountBalance ctx \<lparr>ubr_AccountID = ptr_AccountID req,
        ubr_Delta = request_delta req, ubr_UserID = owner\<rparr> w1 = (Inr b, w2)" and
      e: "AuditEntryRepository_Create ctx (buildAuditEntry req (request_delta req) (Some owner) OutcomeAccepted ''ok'' now) w2 = (Inr z, w')"
      and resp: "resp = \<lparr>ptp_Transaction = x, ptp_Balance = b, ptp_Duplicate = False\<rparr>"
      using run c Inr by (auto simp: process_unit_def split: prod.splits sum.splits)
    have x: "tr_AccountID x = ptr_AccountID req" "tr_Points x = request_delta req" "tr_OwnerID x = owner"
      "records req x"
    proof -
      from w1(2) obtain new where "x = (ctr_Transaction ?r)\<lparr>tr_ID := new\<rparr>" ..
      with occ show "tr_AccountID x = ptr_AccountID req" "tr_Points x = request_delta req"
        "tr_OwnerID x = owner" "records req x" by (simp_all add: records_def)
    qed
    have T1: "view ctx w1 = (view ctx w)\<lparr>transactions := transactions (view ctx w) @ [row_of_transaction x]\<rparr>"
      "tr_Ref x \<notin> t_ref ` set (transactions (view ctx w))" "tr_ID x \<notin> t_id ` set (transactions (view ctx w))"
      using w1(3) by (auto simp: insert_transaction_Inr row_of_transaction_def)
    have "accounts_ok (view ctx w1)"
      using ok T1 by (simp add: schema_ok_def accounts_ok_def)
    from AccountRepository_UpdateAccountBalance_Inr [OF u w1(1) this] obtain a where
      a: "a \<in> set (accounts (view ctx w))" "a_id a = ptr_AccountID req"
        "0 \<le> sint (a_balance a) + sint (request_delta req)"
        "fits64 (sint (a_balance a) + sint (request_delta req))" "b = a_balance a + request_delta req" and
      T2: "view ctx w2 = (view ctx w1)\<lparr>accounts := update_where (\<lambda>a. a_id a = ptr_AccountID req)
        (\<lambda>a. a\<lparr>a_balance := a_balance a + request_delta req\<rparr>) (accounts (view ctx w1))\<rparr>"
      and w2: "connected ctx w2"
      by (auto dest: moved_step simp: T1)
    from AuditEntryRepository_Create_Inr [OF e w2] have "same_ledger (view ctx w2) (view ctx w')"
      by (auto simp: same_ledger_def)
    moreover have "posts x b (view ctx w) (view ctx w2)"
      unfolding posts_def using a own T1 T2 x by (auto intro!: bexI [of _ a])
    ultimately show ?thesis using resp x(4) by (auto intro: same_ledger_posts)
  qed
qed


section \<open>ProcessTransaction\<close>

lemma statements_durable:
  "insert_transaction row T = Inr (n, T') \<Longrightarrow> durable T T'"
  "update_balance aid d sc T = Inr (n, T') \<Longrightarrow> durable T T'"
  "insert_audit arow T = Inr (m, T') \<Longrightarrow> durable T T'"
  by (rule insert_transaction_durable update_balance_durable insert_audit_durable; assumption)+

lemma ProcessTransaction_durable:
  "evolves durable ctx w (snd (WalletService_ProcessTransaction ctx req w))"
  by (rule durable.ProcessTransaction_evolves) (rule statements_durable; assumption)+

lemma rejectTransaction_ledger:
  "rejectTransaction ctx req delta now owner err w = (r, w') \<Longrightarrow>
   evolves same_ledger ctx w w' \<and> (\<exists>e. r = Inl e)"
  using same_ledger.rejectTransaction_evolves [of ctx w req delta now owner err] insert_audit_same_ledger
  by (auto simp: rejectTransaction_def split: prod.splits sum.splits)

lemma process_unit_connected:
  "keeps_connection ctx w (snd (process_unit req delta now occ owner ctx w))"
  by (rule connection.process_unit_evolves) simp_all

text \<open>
  The outcome of one call with no transaction open, on any database that satisfies the schema and
  whatever the driver does: an accepted result is one posting, a duplicate result is no change of
  the ledger, and an error leaves the ledger as it was, unless the server committed and the reply
  was lost.
\<close>

definition process_outcome ::
    "ProcessTransactionRequest \<Rightarrow> world \<Rightarrow> go_error + ProcessTransactionResponse \<Rightarrow> tables \<Rightarrow> bool" where
  "process_outcome req w r T' \<longleftrightarrow>
     (case r of
        Inr resp \<Rightarrow>
          if ptp_Duplicate resp then same_ledger (w_db w) T' \<and> replays req resp (w_db w)
          else records req (ptp_Transaction resp) \<and>
            posts (ptp_Transaction resp) (ptp_Balance resp) (w_db w) T'
      | Inl e \<Rightarrow> same_ledger (w_db w) T' \<or>
          \<not> fault_free w \<and> (\<exists>x b. records req x \<and> posts x b (w_db w) T'))"

lemma process_effect:
  assumes run: "WalletService_ProcessTransaction ctx req w = (r, w')"
    and idle: "\<not> ctx_Tx ctx" "w_tx w = None" and ok: "schema_ok (w_db w)"
  shows "w_tx w' = None \<and> process_outcome req w r (w_db w')"
proof (cases "ProcessTransactionRequest_Validate req")
  case (Some err)
  with run idle show ?thesis by (auto simp: WalletService_ProcessTransaction_def process_outcome_def)
next
  case None
  obtain now w1 where tm: "time_Now w = (now, w1)" by (cases "time_Now w")
  have w1: "w_tx w1 = None" "w_db w1 = w_db w" "w_env w1 = w_env w"
    using tm idle by (auto simp: time_Now_def)
  let ?get = "AccountRepository_GetByID ctx
      \<lparr>gar_AccountID = ptr_AccountID req, gar_UserID = ptr_UserID req\<rparr>"
  obtain s w2 where g: "?get w1 = (s, w2)" by (cases "?get w1")
  have w2: "w_tx w2 = None" "w_db w2 = w_db w" "w_env w2 = w_env w"
    using evolves_idle [of "(=)" ctx w1 w2] frozen.AccountRepository_reads_evolve(2) [of ctx w1] idle(1) w1
    by (metis g snd_conv)+
  define occ where "occ = (if IsZero (ptr_OccurredAt req) then now else ptr_OccurredAt req)"
  have rejected: "w_tx w' = None \<and> (\<exists>e. r = Inl e) \<and> same_ledger (w_db v) (w_db w')"
    if "rejectTransaction ctx req (request_delta req) now owner err v = (r, w')" "w_tx v = None" for owner err v
    using rejectTransaction_ledger [OF that(1)] evolves_idle [OF _ idle(1) that(2)] by blast
  show ?thesis
  proof (cases s)
    case (Inl err)
    then have "rejectTransaction ctx req (request_delta req) now None err w2 = (r, w')"
      using run None tm g by (simp add: WalletService_ProcessTransaction_def request_delta_def Let_def)
    from rejected [OF this w2(1)] w2(2) show ?thesis by (auto simp: process_outcome_def)
  next
    case (Inr acc)
    let ?fn = "process_unit req (request_delta req) now occ (acc_OwnerID acc)"
    obtain q w3 where tx: "RunInTx ctx ?fn w2 = (q, w3)" by (cases "RunInTx ctx ?fn w2")
    have fn: "keeps_connection (in_tx ctx) v (snd (?fn (in_tx ctx) v))" for v
      by (rule process_unit_connected)
    note out = RunInTx_outcome [OF tx idle(1) w2(1) fn]
    have own: "a_owner_id a = acc_OwnerID acc" if "a \<in> set (accounts (w_db w))" "a_id a = ptr_AccountID req" for a
    proof -
      have "connected ctx w1" "view ctx w1 = w_db w" using idle w1 by (simp_all add: connected_def view_def)
      from AccountRepository_GetByID_Inr [OF g [unfolded Inr] this(1)] this(2)
      obtain r0 where "r0 \<in> set (accounts (w_db w))" "a_id r0 = ptr_AccountID req" "acc_OwnerID acc = a_owner_id r0"
        by (auto dest!: account_of_row_Inr)
      then show ?thesis using that ok
        by (auto simp: schema_ok_def accounts_ok_def distinct_map inj_on_def)
    qed
    have unit: "if ptp_Duplicate resp then same_ledger (w_db w) (view (in_tx ctx) u) \<and> replays req resp (w_db w)
        else records req (ptp_Transaction resp) \<and>
          posts (ptp_Transaction resp) (ptp_Balance resp) (w_db w) (view (in_tx ctx) u)"
      if "?fn (in_tx ctx) v = (Inr resp, u)" "usable (in_tx ctx) v" "view (in_tx ctx) v = w_db w" for v u resp
      by (rule process_unit_Inr [OF that(1) moved_usable(3) [OF that(2)], unfolded that(3), OF ok own])
         (simp_all add: occ_def)
    show ?thesis
    proof (cases q)
      case (Inr resp)
      then have "r = Inr resp" "w' = w3"
        using run None tm g tx \<open>s = Inr acc\<close>
        by (auto simp: WalletService_ProcessTransaction_def request_delta_def Let_def occ_def)
      then show ?thesis using out Inr unit w2(2) unfolding process_outcome_def by auto
    next
      case (Inl err)
      then have rej: "rejectTransaction ctx req (request_delta req) now (Some (acc_OwnerID acc)) err w3 = (r, w')"
        using run None tm g tx \<open>s = Inr acc\<close>
        by (auto simp: WalletService_ProcessTransaction_def request_delta_def Let_def occ_def)
      have w3: "w_tx w3 = None" "same_ledger (w_db w) (w_db w3) \<or>
          \<not> fault_free w \<and> (\<exists>x b. records req x \<and> posts x b (w_db w) (w_db w3))"
      proof -
        show "w_tx w3 = None" using out by simp
        from out Inl consider n where "w_db w3 = (w_db w2)\<lparr>audit_seq := n\<rparr>" | "lost_commit ctx ?fn w2 w3"
          by auto
        then show "same_ledger (w_db w) (w_db w3) \<or>
            \<not> fault_free w \<and> (\<exists>x b. records req x \<and> posts x b (w_db w) (w_db w3))"
        proof cases
          case 2
          then obtain v u resp where v: "usable (in_tx ctx) v" "view (in_tx ctx) v = w_db w"
            "?fn (in_tx ctx) v = (Inr resp, u)" "w_db w3 = view (in_tx ctx) u" "\<not> fault_free w"
            using w2 by (auto simp: lost_commit_def fault_free_def)
          from unit [OF v(3,1,2)] v(4,5) show ?thesis by (auto split: if_splits)
        qed (simp add: w2(2))
      qed
      have last: "same_ledger (w_db w3) (w_db w')" "w_tx w' = None" "\<exists>e. r = Inl e"
        using rejected [OF rej w3(1)] by simp_all
      from w3(2) have "same_ledger (w_db w) (w_db w') \<or>
          \<not> fault_free w \<and> (\<exists>x b. records req x \<and> posts x b (w_db w) (w_db w'))"
        using same_ledger.R_trans [OF _ last(1)] same_ledger_posts [OF _ last(1)] by blast
      then show ?thesis using last by (auto simp: process_outcome_def)
    qed
  qed
qed

end
