(* ===== verification/Sample.thy ===== *)
theory Sample
  imports Database
begin

text \<open>
  A small concrete database and environment, on which the theorems are instantiated: a member with
  an account of 30 points, backed by one ledger row, an admin, and a driver that never fails.
\<close>

definition sample_env :: env where
  "sample_env = \<lparr>env_Now = (\<lambda>n. 63871234567 * second + int n),
     env_UUID = (\<lambda>n. ''uuid-'' @ strconv_Itoa (int n)),
     env_Fault = (\<lambda>_. None), env_Fetched = (\<lambda>_. 0), env_text_le = byte_le\<rparr>"

definition sample_tables :: tables where
  "sample_tables = empty_tables\<lparr>
     users := [\<lparr>u_id = ''ann'', u_email = ''ann@x'', u_password_hash = ''h1'', u_role = ''member'',
                u_created_at = ''2024-01-01T00:00:00Z'', u_token_version = 0\<rparr>,
               \<lparr>u_id = ''bob'', u_email = ''bob@x'', u_password_hash = ''h2'', u_role = ''admin'',
                u_created_at = ''2024-01-01T00:00:00Z'', u_token_version = 0\<rparr>],
     accounts := [\<lparr>a_id = ''acc'', a_owner_id = ''ann'', a_name = ''Primary'', a_balance = 30,
                a_created_at = ''2024-01-01T00:00:00Z''\<rparr>],
     transactions := [\<lparr>t_id = ''t0'', t_ref = ''r0'', t_account_id = ''acc'', t_owner_id = ''ann'',
                t_kind = ''earn'', t_points = 30, t_occurred_at = ''2024-01-02T00:00:00Z'',
                t_recorded_at = ''2024-01-02T00:00:00Z'', t_created_by = ''ann''\<rparr>]\<rparr>"

definition sample_world :: world where
  "sample_world = \<lparr>w_db = sample_tables, w_tx = None, w_env = sample_env,
     w_ticks = 0, w_uuids = 0, w_calls = 0\<rparr>"

text \<open>The same world with a driver whose third call takes effect but loses its reply.\<close>

definition sample_faulty :: world where
  "sample_faulty = sample_world\<lparr>w_env := sample_env\<lparr>env_Fault := (\<lambda>n. if n = 2 then Some (LostReply ''eof'') else None)\<rparr>\<rparr>"

definition member_claim :: LoginClaim where
  "member_claim = \<lparr>claim_UserID = ''ann'', claim_ExpirationTime = 0, claim_LastName = [],
     claim_Email = ''ann@x'', claim_Role = RoleMember, claim_Permissions = PermissionsForRole RoleMember,
     claim_TokenVersion = 0\<rparr>"

definition member_ctx :: go_context where
  "member_ctx = ContextWithLoginClaim background member_claim"

definition admin_ctx :: go_context where
  "admin_ctx = ContextWithLoginClaim background
     (member_claim\<lparr>claim_UserID := ''bob'', claim_Email := ''bob@x'', claim_Role := RoleAdmin,
        claim_Permissions := PermissionsForRole RoleAdmin\<rparr>)"

lemma sample_schema: "schema_ok sample_tables"
  by (simp add: schema_ok_def users_ok_def accounts_ok_def transactions_ok_def audit_ok_def
      sample_tables_def empty_tables_def valid_role_def valid_kind_def)

lemma sample_idle [simp]:
  "w_db sample_world = sample_tables" "w_tx sample_world = None" "w_env sample_world = sample_env"
  "w_db sample_faulty = sample_tables" "w_tx sample_faulty = None"
  "\<not> ctx_Tx background" "\<not> ctx_Tx member_ctx" "\<not> ctx_Tx admin_ctx" "fault_free sample_world"
  by (simp_all add: sample_world_def sample_faulty_def background_def member_ctx_def admin_ctx_def
      ContextWithLoginClaim_def fault_free_def sample_env_def)

lemma run_fst_snd: "f w = (fst (f w), snd (f w))"
  by simp

end
