(* ===== verification/WalletVerdict.thy ===== *)
theory WalletVerdict
  imports WalletLedger Sample
begin

text \<open>
  The exact answer of \<open>ProcessTransaction\<close> when the driver does not fail. \<open>verdict\<close> decides a
  request on the tables alone; the theorem shows that the service returns that verdict and writes
  exactly one audit row saying so, for every branch.
\<close>

section \<open>The specification\<close>

datatype verdict = Accepted | Duplicate | UnknownAccount | InsufficientBalance

definition visible_account :: "go_context \<Rightarrow> ProcessTransactionRequest \<Rightarrow> tables \<Rightarrow> account_row option" where
  "visible_account ctx req T =
     List.find (\<lambda>a. a_id a = ptr_AccountID req \<and>
       in_scope (scope_arg ctx PermAccountReadAll (ptr_UserID req)) (a_owner_id a)) (accounts T)"

definition verdict_of :: "go_context \<Rightarrow> ProcessTransactionRequest \<Rightarrow> tables \<Rightarrow> verdict" where
  "verdict_of ctx req T =
     (case visible_account ctx req T of
        None \<Rightarrow> UnknownAccount
      | Some a \<Rightarrow>
          if ptr_Ref req \<in> t_ref ` set (transactions T) then
            (if list_ex (\<lambda>x. t_ref x = ptr_Ref req \<and>
                  in_scope (scope_arg ctx PermTransactionReadAll (ptr_UserID req)) (t_owner_id x)) (transactions T)
             then Duplicate else UnknownAccount)
          else if sint (a_balance a) + sint (request_delta req) < 0 then InsufficientBalance
          else Accepted)"

fun verdict_outcome :: "verdict \<Rightarrow> string" where
  "verdict_outcome Accepted = OutcomeAccepted"
| "verdict_outcome Duplicate = OutcomeDuplicate"
| "verdict_outcome UnknownAccount = OutcomeRejected"
| "verdict_outcome InsufficientBalance = OutcomeRejected"

fun verdict_reason :: "verdict \<Rightarrow> string" where
  "verdict_reason Accepted = ''ok''"
| "verdict_reason Duplicate = ''duplicate''"
| "verdict_reason UnknownAccount = ''unknown account''"
| "verdict_reason InsufficientBalance = ''insufficient balance''"

fun answers :: "verdict \<Rightarrow> go_error + ProcessTransactionResponse \<Rightarrow> bool" where
  "answers Accepted r \<longleftrightarrow> (\<exists>resp. r = Inr resp \<and> \<not> ptp_Duplicate resp)"
| "answers Duplicate r \<longleftrightarrow> (\<exists>resp. r = Inr resp \<and> ptp_Duplicate resp)"
| "answers UnknownAccount r \<longleftrightarrow> (\<exists>e. r = Inl e \<and> errors_Is e ErrNotFound \<and> \<not> errors_Is e ErrInsufficientBalance)"
| "answers InsufficientBalance r \<longleftrightarrow> (\<exists>e. r = Inl e \<and> errors_Is e ErrInsufficientBalance)"

text \<open>The audit row an attempt leaves.\<close>

definition audits :: "ProcessTransactionRequest \<Rightarrow> string option \<Rightarrow> string \<Rightarrow> string \<Rightarrow> audit_row \<Rightarrow> bool" where
  "audits req owner outcome reason e \<longleftrightarrow>
     e_transaction_ref e = Some (ptr_Ref req) \<and> e_account_id e = Some (ptr_AccountID req) \<and>
     e_owner_id e = owner \<and> e_kind e = Some (ptr_Kind req) \<and> e_points e = Some (request_delta req) \<and>
     e_outcome e = outcome \<and> e_reason e = reason \<and> e_user_id e = ptr_UserID req"

text \<open>Rows that the program itself can have written: readable times, a named owner, no NUL byte.\<close>

definition sound_rows :: "tables \<Rightarrow> bool" where
  "sound_rows T \<longleftrightarrow>
     list_all (\<lambda>a. clean (a_owner_id a) \<and> a_owner_id a \<noteq> [] \<and> \<not> isl (account_of_row a)) (accounts T) \<and>
     list_all (\<lambda>x. \<not> isl (transaction_of_row x)) (transactions T)"

lemma not_isl_iff: "\<not> isl s \<longleftrightarrow> (\<exists>y. s = Inr y)"
  by (cases s) auto

definition clean_request :: "ProcessTransactionRequest \<Rightarrow> bool" where
  "clean_request req \<longleftrightarrow> clean (ptr_UserID req) \<and> clean (ptr_Ref req) \<and> clean (ptr_AccountID req)"

text \<open>What \<open>uuid.NewString\<close> promises: NUL-free text that no stored row has as its id.\<close>

definition fresh_uuids :: "env \<Rightarrow> tables \<Rightarrow> bool" where
  "fresh_uuids ev T \<longleftrightarrow> (\<forall>n. clean (env_UUID ev n) \<and> env_UUID ev n \<notin> t_id ` set (transactions T))"

section \<open>The unit of work\<close>

lemma audit_runs:
  assumes env: "fault_free w" "usable ctx w" and req: "ProcessTransactionRequest_Validate req = None" "clean_request req"
    and out: "outcome \<in> {OutcomeAccepted, OutcomeRejected, OutcomeDuplicate}" "reason \<noteq> []" "clean reason"
    and owner: "\<And>u. owner = Some u \<Longrightarrow> clean u"
  shows "\<exists>w' y e. AuditEntryRepository_Create ctx (buildAuditEntry req (request_delta req) owner outcome reason now) w = (Inr y, w') \<and>
    moved ctx w w' \<and> audit_entries (view ctx w') = audit_entries (view ctx w) @ [e] \<and> audits req owner outcome reason e"
proof -
  let ?x = "cae_AuditEntry (buildAuditEntry req (request_delta req) owner outcome reason now)"
  have kind: "clean (ptr_Kind req)"
    using req(1) by (auto simp: valid_simps clean_def KindEarn_def KindSpend_def)
  have "\<exists>w' y. AuditEntryRepository_Create ctx \<lparr>cae_AuditEntry = ?x\<rparr> w = (Inr y, w') \<and> moved ctx w w' \<and>
    y = ?x\<lparr>aud_ID := audit_seq (view ctx w)\<rparr> \<and>
    view ctx w' = (view ctx w)\<lparr>audit_entries := audit_entries (view ctx w) @ [row_of_audit y],
      audit_seq := audit_seq (view ctx w) + 1\<rparr>"
    using req out kind owner
    by (intro AuditEntryRepository_Create_runs [OF env])
       (auto simp: valid_simps clean_request_def opt_arg_def split: option.split)
  then obtain w' y where y: "AuditEntryRepository_Create ctx \<lparr>cae_AuditEntry = ?x\<rparr> w = (Inr y, w')" "moved ctx w w'"
    "y = ?x\<lparr>aud_ID := audit_seq (view ctx w)\<rparr>"
    "view ctx w' = (view ctx w)\<lparr>audit_entries := audit_entries (view ctx w) @ [row_of_audit y],
      audit_seq := audit_seq (view ctx w) + 1\<rparr>" by blast
  moreover have "audits req owner outcome reason (row_of_audit y)"
    unfolding y(3) by (simp add: audits_def row_of_audit_def)
  ultimately show ?thesis by (auto simp: buildAuditEntry_def)
qed

lemma process_unit_runs:
  assumes env: "fault_free w" "usable ctx w"
    and req: "ProcessTransactionRequest_Validate req = None" "clean_request req"
    and ok: "schema_ok (view ctx w)" "sound_rows (view ctx w)"
    and new: "clean (env_UUID (w_env w) (w_uuids w))" "env_UUID (w_env w) (w_uuids w) \<notin> t_id ` set (transactions (view ctx w))"
    and a: "a \<in> set (accounts (view ctx w))" "a_id a = ptr_AccountID req"
      "in_scope (scope_arg ctx PermAccountReadAll (ptr_UserID req)) (a_owner_id a)"
    and fits: "fits64 (sint (a_balance a) + sint (request_delta req))"
    and v: "verdict_of ctx req (view ctx w) = v" and found: "visible_account ctx req (view ctx w) = Some a"
  shows "\<exists>r w'. process_unit req (request_delta req) now occ (a_owner_id a) ctx w = (r, w') \<and> moved ctx w w' \<and> answers v r \<and>
    (\<forall>resp. r = Inr resp \<longrightarrow> (\<exists>e. audit_entries (view ctx w') = audit_entries (view ctx w) @ [e] \<and>
       audits req (Some (a_owner_id a)) (verdict_outcome v) (verdict_reason v) e))"
proof -
  let ?T = "view ctx w" and ?ref = "ptr_Ref req" and ?d = "request_delta req" and ?uid = "ptr_UserID req"
  let ?x = "\<lparr>tr_ID = [], tr_Ref = ptr_Ref req, tr_AccountID = ptr_AccountID req,
      tr_OwnerID = a_owner_id a, tr_Kind = ptr_Kind req, tr_Points = ?d, tr_OccurredAt = occ,
      tr_RecordedAt = now, tr_CreatedBy = ptr_UserID req\<rparr>"
  have q: "?ref \<noteq> []" "ptr_AccountID req \<noteq> []" "?uid \<noteq> []" "ptr_Kind req \<in> {KindEarn, KindSpend}" "?d \<noteq> 0"
    "clean ?ref" "clean (ptr_AccountID req)" "clean ?uid"
    using req signedDelta_sint [of "ptr_Points req" "ptr_Kind req"]
    by (auto simp: valid_simps clean_request_def request_delta_def)
  have own: "clean (a_owner_id a)" "a_owner_id a \<noteq> []" "\<exists>y. account_of_row a = Inr y"
    using ok(2) a(1) by (auto simp: sound_rows_def list_all_iff not_isl_iff)
  then obtain acc where acc: "account_of_row a = Inr acc" by blast
  have dist: "distinct (map a_id (accounts ?T))" "distinct (map t_ref (transactions ?T))"
    "a_owner_id a \<in> u_id ` set (users ?T)"
    using ok(1) a(1) by (auto simp: schema_ok_def accounts_ok_def transactions_ok_def list_all_iff)
  have vx: "CreateTransactionRequest_Validate \<lparr>ctr_Transaction = ?x\<rparr> = None" using q by (simp add: valid_simps)
  have args: "list_all clean [env_UUID (w_env w) (w_uuids w), tr_Ref ?x, tr_AccountID ?x, tr_OwnerID ?x, tr_CreatedBy ?x]"
    using new(1) q own(1) by simp
  have blank: "tr_ID ?x = []" by simp
  note create = TransactionRepository_Create_runs [OF env vx blank args]
  note step = moved_usable(1) moved_fault_free
  show ?thesis
  proof (cases "?ref \<in> t_ref ` set (transactions ?T)")
    case True
    obtain w1 where w1: "TransactionRepository_Create ctx \<lparr>ctr_Transaction = ?x\<rparr> w =
        (Inl (Wrapped (''transaction '' @ ?ref) (Sentinel ErrDuplicateRef)), w1)" "moved ctx w w1" "view ctx w1 = ?T"
      using create(1) True by auto
    have e1: "fault_free w1" "usable ctx w1" using step w1(2) env by blast+
    note get = TransactionRepository_GetByID_runs [OF e1 q(1,3,6,8), unfolded w1(3)]
    show ?thesis
    proof (cases "\<exists>x \<in> set (transactions ?T). t_ref x = ?ref \<and>
        in_scope (scope_arg ctx PermTransactionReadAll ?uid) (t_owner_id x)")
      case False
      then have "v = UnknownAccount" using True found v by (auto simp: verdict_of_def list_ex_iff)
      moreover obtain w2 where "TransactionRepository_GetByID ctx \<lparr>gtr_UserID = ?uid, gtr_Ref = ?ref\<rparr> w1 =
          (Inl (Wrapped (''transaction '' @ ?ref) (Sentinel ErrNotFound)), w2)" "moved ctx w1 w2"
        using get(2) False by blast
      ultimately show ?thesis using w1 moved_trans by (auto simp: process_unit_def)
    next
      case dup: True
      then have "v = Duplicate" using True found v by (auto simp: verdict_of_def list_ex_iff)
      obtain x y where x: "x \<in> set (transactions ?T)" "t_ref x = ?ref"
        "in_scope (scope_arg ctx PermTransactionReadAll ?uid) (t_owner_id x)" "transaction_of_row x = Inr y"
        using dup ok(2) by (auto simp: sound_rows_def list_all_iff not_isl_iff)
      obtain w2 where w2: "TransactionRepository_GetByID ctx \<lparr>gtr_UserID = ?uid, gtr_Ref = ?ref\<rparr> w1 = (Inr y, w2)"
        "moved ctx w1 w2" "view ctx w2 = ?T"
        using get(1) [OF dist(2) x] by blast
      have e2: "fault_free w2" "usable ctx w2" using step w2(2) e1 by blast+
      obtain w3 where w3: "AccountRepository_GetByID ctx \<lparr>gar_AccountID = ptr_AccountID req, gar_UserID = ?uid\<rparr> w2 = (Inr acc, w3)"
        "moved ctx w2 w3" "view ctx w3 = ?T"
        using AccountRepository_GetByID_runs(1) [OF e2 q(2,3,7,8), unfolded w2(3), OF dist(1) a acc] by blast
      have e3: "fault_free w3" "usable ctx w3" using step w3(2) e2 by blast+
      obtain w4 z e where w4: "AuditEntryRepository_Create ctx
          (buildAuditEntry req ?d (Some (a_owner_id a)) OutcomeDuplicate ''duplicate'' now) w3 = (Inr z, w4)"
        "moved ctx w3 w4" "audit_entries (view ctx w4) = audit_entries ?T @ [e]"
        "audits req (Some (a_owner_id a)) OutcomeDuplicate ''duplicate'' e"
        using audit_runs [OF e3 req, of OutcomeDuplicate "''duplicate''" "Some (a_owner_id a)" now] own(1) w3(3)
        by (auto simp: clean_def)
      have "moved ctx w w4" using w1(2) w2(2) w3(2) w4(2) by (blast intro: moved_trans)
      moreover have "process_unit req ?d now occ (a_owner_id a) ctx w =
          (Inr \<lparr>ptp_Transaction = y, ptp_Balance = acc_Balance acc, ptp_Duplicate = True\<rparr>, w4)"
        using w1(1) w2(1) w3(1) w4(1) by (simp add: process_unit_def)
      ultimately show ?thesis using w4(3,4) \<open>v = Duplicate\<close> by auto
    qed
  next
    case False
    obtain w1 y where w1: "TransactionRepository_Create ctx \<lparr>ctr_Transaction = ?x\<rparr> w = (Inr y, w1)" "moved ctx w w1"
      "view ctx w1 = ?T\<lparr>transactions := transactions ?T @ [row_of_transaction y]\<rparr>"
    proof -
      have "tr_Ref ?x \<notin> t_ref ` set (transactions ?T)" "tr_AccountID ?x \<in> a_id ` set (accounts ?T)"
        "tr_OwnerID ?x \<in> u_id ` set (users ?T)" using False a(1) a(2) [symmetric] dist(3) by auto
      from create(2) [OF this(1) new(2) this(2,3)] show thesis using that by blast
    qed
    have e1: "fault_free w1" "usable ctx w1" using step w1(2) env by blast+
    have T1: "accounts_ok (view ctx w1)" "a \<in> set (accounts (view ctx w1))"
      using ok(1) a(1) by (simp_all add: w1(3) schema_ok_def accounts_ok_def)
    have sc: "in_scope (scope_arg ctx PermAccountWriteAll (a_owner_id a)) (a_owner_id a)"
      by (simp add: in_scope_def scope_arg_def)
    note upd = AccountRepository_UpdateAccountBalance_runs [OF e1 q(2) own(2) q(7) own(1) q(5) T1 a(2) sc fits]
    show ?thesis
    proof (cases "sint (a_balance a) + sint ?d < 0")
      case True
      then have "v = InsufficientBalance" using False found v by (auto simp: verdict_of_def)
      moreover obtain w2 where "AccountRepository_UpdateAccountBalance ctx
          \<lparr>ubr_AccountID = ptr_AccountID req, ubr_Delta = ?d, ubr_UserID = a_owner_id a\<rparr> w1 =
          (Inl (Wrapped (''account '' @ ptr_AccountID req) (Sentinel ErrInsufficientBalance)), w2)" "moved ctx w1 w2"
        using upd(2) [OF True] by blast
      ultimately show ?thesis using w1 moved_trans by (auto simp: process_unit_def)
    next
      case pos: False
      then have "v = Accepted" using False found v by (auto simp: verdict_of_def)
      obtain w2 where w2: "AccountRepository_UpdateAccountBalance ctx
          \<lparr>ubr_AccountID = ptr_AccountID req, ubr_Delta = ?d, ubr_UserID = a_owner_id a\<rparr> w1 =
          (Inr (a_balance a + ?d), w2)" "moved ctx w1 w2" "audit_entries (view ctx w2) = audit_entries ?T"
        using upd(1) pos w1(3) by auto
      have e2: "fault_free w2" "usable ctx w2" using step w2(2) e1 by blast+
      obtain w3 z e where w3: "AuditEntryRepository_Create ctx
          (buildAuditEntry req ?d (Some (a_owner_id a)) OutcomeAccepted ''ok'' now) w2 = (Inr z, w3)"
        "moved ctx w2 w3" "audit_entries (view ctx w3) = audit_entries ?T @ [e]"
        "audits req (Some (a_owner_id a)) OutcomeAccepted ''ok'' e"
        using audit_runs [OF e2 req, of OutcomeAccepted "''ok''" "Some (a_owner_id a)" now] own(1) w2(3)
        by (auto simp: clean_def)
      have "moved ctx w w3" using w1(2) w2(2) w3(2) by (blast intro: moved_trans)
      moreover have "process_unit req ?d now occ (a_owner_id a) ctx w =
          (Inr \<lparr>ptp_Transaction = y, ptp_Balance = a_balance a + ?d, ptp_Duplicate = False\<rparr>, w3)"
        using w1(1) w2(1) w3(1) by (simp add: process_unit_def)
      ultimately show ?thesis using w3(3,4) \<open>v = Accepted\<close> by auto
    qed
  qed
qed


section \<open>The service\<close>

lemma reasonFor_verdict:
  "answers UnknownAccount (Inl e) \<Longrightarrow> reasonFor e = ''unknown account''"
  "answers InsufficientBalance (Inl e) \<Longrightarrow> reasonFor e = ''insufficient balance''"
  by (auto simp: reasonFor_def)

lemma answers_Inl: "answers v (Inl e) \<Longrightarrow> reasonFor e = verdict_reason v \<and> verdict_outcome v = OutcomeRejected"
  by (cases v) (use reasonFor_verdict in auto)

lemma answers_any: "answers v (Inl e) \<longleftrightarrow> answers v (Inl e :: go_error + ProcessTransactionResponse)"
  by simp

lemma reject_runs:
  assumes env: "fault_free w" "usable ctx w" and req: "ProcessTransactionRequest_Validate req = None" "clean_request req"
    and ans: "answers v (Inl err)" and owner: "\<And>u. owner = Some u \<Longrightarrow> clean u"
  shows "\<exists>w' e. rejectTransaction ctx req (request_delta req) now owner err w = (Inl err, w') \<and>
    audit_entries (view ctx w') = audit_entries (view ctx w) @ [e] \<and>
    audits req owner (verdict_outcome v) (verdict_reason v) e"
proof -
  note r = answers_Inl [OF ans]
  have "verdict_reason v \<noteq> []" "clean (verdict_reason v)" by (cases v; simp add: clean_def)+
  from audit_runs [OF env req, of OutcomeRejected "verdict_reason v" owner now] this owner
  obtain w' y e where "AuditEntryRepository_Create ctx
      (buildAuditEntry req (request_delta req) owner OutcomeRejected (verdict_reason v) now) w = (Inr y, w')"
    "audit_entries (view ctx w') = audit_entries (view ctx w) @ [e]"
    "audits req owner OutcomeRejected (verdict_reason v) e" by auto
  then show ?thesis using r by (simp add: rejectTransaction_def)
qed

lemma verdict_runs:
  assumes run: "WalletService_ProcessTransaction ctx req w = (r, w')"
    and env: "fault_free w" "\<not> ctx_Tx ctx" "w_tx w = None"
    and req: "ProcessTransactionRequest_Validate req = None" "clean_request req"
    and ok: "schema_ok (w_db w)" "sound_rows (w_db w)"
    and new: "fresh_uuids (w_env w) (w_db w)"
    and fits: "\<And>a. visible_account ctx req (w_db w) = Some a \<Longrightarrow> fits64 (sint (a_balance a) + sint (request_delta req))"
  shows "answers (verdict_of ctx req (w_db w)) r \<and>
    (\<exists>e. audit_entries (w_db w') = audit_entries (w_db w) @ [e] \<and>
       audits req (map_option a_owner_id (visible_account ctx req (w_db w)))
         (verdict_outcome (verdict_of ctx req (w_db w))) (verdict_reason (verdict_of ctx req (w_db w))) e)"
proof -
  let ?T = "w_db w" and ?v = "verdict_of ctx req (w_db w)"
  obtain now w1 where tm: "time_Now w = (now, w1)" by (cases "time_Now w")
  have w1: "fault_free w1" "usable ctx w1" "view ctx w1 = ?T" "w_env w1 = w_env w" "w_tx w1 = None"
    using tm env by (auto simp: time_Now_def fault_free_def usable_def connected_def view_def)
  have q: "ptr_AccountID req \<noteq> []" "ptr_UserID req \<noteq> []" "clean (ptr_AccountID req)" "clean (ptr_UserID req)"
    using req by (auto simp: valid_simps clean_request_def)
  have pool: "usable ctx x \<Longrightarrow> view ctx x = w_db x" for x using env(2) by (simp add: view_def)
  define occ where "occ = (if IsZero (ptr_OccurredAt req) then now else ptr_OccurredAt req)"
  show ?thesis
  proof (cases "visible_account ctx req ?T")
    case None
    then have "\<And>x. x \<in> set (accounts (view ctx w1)) \<Longrightarrow> a_id x = ptr_AccountID req \<Longrightarrow>
        \<not> in_scope (scope_arg ctx PermAccountReadAll (ptr_UserID req)) (a_owner_id x)"
      by (auto simp: visible_account_def find_None_iff w1(3))
    from AccountRepository_GetByID_runs(2) [OF w1(1,2) q this] obtain w2 where
      g: "AccountRepository_GetByID ctx \<lparr>gar_AccountID = ptr_AccountID req, gar_UserID = ptr_UserID req\<rparr> w1 =
        (Inl (Wrapped (''account '' @ ptr_AccountID req) (Sentinel ErrNotFound)), w2)"
      and w2: "moved ctx w1 w2" "view ctx w2 = ?T" by (auto simp: w1(3))
    have v: "?v = UnknownAccount" using None by (simp add: verdict_of_def)
    have "fault_free w2" "usable ctx w2" using w2(1) w1(1) moved_fault_free moved_usable(1) by blast+
    from reject_runs [OF this req, of ?v "Wrapped (''account '' @ ptr_AccountID req) (Sentinel ErrNotFound)" None now]
    obtain w3 e where "rejectTransaction ctx req (request_delta req) now None
        (Wrapped (''account '' @ ptr_AccountID req) (Sentinel ErrNotFound)) w2 =
        (Inl (Wrapped (''account '' @ ptr_AccountID req) (Sentinel ErrNotFound)), w3)"
      "audit_entries (view ctx w3) = audit_entries ?T @ [e]"
      "audits req None (verdict_outcome ?v) (verdict_reason ?v) e" by (auto simp: v w2(2))
    then show ?thesis
      using run tm g req(1) None env(2) v
      by (auto simp: WalletService_ProcessTransaction_def request_delta_def Let_def view_def)
  next
    case (Some a)
    then have a: "a \<in> set (accounts ?T)" "a_id a = ptr_AccountID req"
      "in_scope (scope_arg ctx PermAccountReadAll (ptr_UserID req)) (a_owner_id a)"
      by (auto simp: visible_account_def find_Some_iff)
    have dist: "distinct (map a_id (accounts ?T))" using ok(1) by (simp add: schema_ok_def accounts_ok_def)
    obtain acc where acc: "account_of_row a = Inr acc" "clean (a_owner_id a)"
      using ok(2) a(1) by (auto simp: sound_rows_def list_all_iff not_isl_iff)
    from AccountRepository_GetByID_runs(1) [OF w1(1,2) q, unfolded w1(3), OF dist a acc(1)] obtain w2 where
      g: "AccountRepository_GetByID ctx \<lparr>gar_AccountID = ptr_AccountID req, gar_UserID = ptr_UserID req\<rparr> w1 = (Inr acc, w2)"
      and w2: "moved ctx w1 w2" "view ctx w2 = ?T" by blast
    have "evolves (=) ctx w1 w2" using frozen.AccountRepository_reads_evolve(2) [of ctx w1] g by (metis snd_conv)
    then have w2': "w_tx w2 = None" "w_db w2 = ?T" "fault_free w2" "w_env w2 = w_env w"
      using evolves_idle [OF _ env(2) w1(5)] w1 w2 env(2) by (auto simp: view_def fault_free_def)
    let ?fn = "process_unit req (request_delta req) now occ (a_owner_id a)"
    define P where "P = (\<lambda>res (T :: tables). answers ?v res \<and> (\<forall>resp. res = Inr resp \<longrightarrow> (\<exists>e. audit_entries T = audit_entries ?T @ [e] \<and>
       audits req (Some (a_owner_id a)) (verdict_outcome ?v) (verdict_reason ?v) e)))"
    have same: "verdict_of (in_tx ctx) req T = verdict_of ctx req T" "visible_account (in_tx ctx) req T = visible_account ctx req T" for T
      by (simp_all add: verdict_of_def visible_account_def)
    have "\<exists>res u. ?fn (in_tx ctx) v = (res, u) \<and> moved (in_tx ctx) v u \<and> P res (view (in_tx ctx) u)"
      if "usable (in_tx ctx) v" "fault_free v" "view (in_tx ctx) v = w_db w2" "w_env v = w_env w2" for v
      using process_unit_runs [OF that(2,1) req, unfolded that(3,4) w2'(2,4) same in_tx_simps, OF ok _ _ a fits [OF Some] refl Some]
        new by (auto simp: fresh_uuids_def P_def)
    from RunInTx_runs [OF w2'(3) env(2) w2'(1), where fn = ?fn and P = P, OF this, unfolded w2'(2,4)]
    obtain res w3 T where tx: "RunInTx ctx ?fn w2 = (res, w3)" "P res T" "w_tx w3 = None" "w_env w3 = w_env w"
      "w_db w3 = (case res of Inr _ \<Rightarrow> T | Inl _ \<Rightarrow> ?T\<lparr>audit_seq := audit_seq T\<rparr>)"
      by blast
    have svc: "(r, w') = (case res of Inl err \<Rightarrow> rejectTransaction ctx req (request_delta req) now (Some (a_owner_id a)) err w3
        | Inr resp \<Rightarrow> (Inr resp, w3))"
      using run tm g req(1) tx(1) account_of_row_Inr [OF acc(1)]
      by (auto simp: WalletService_ProcessTransaction_def request_delta_def Let_def occ_def split: sum.splits)
    show ?thesis
    proof (cases res)
      case (Inr resp)
      then show ?thesis using svc tx(2,5) Some by (auto simp: P_def)
    next
      case (Inl err)
      have "answers ?v (Inl err)" using tx(2) Inl by (simp add: P_def)
      moreover have "fault_free w3" "usable ctx w3"
        using tx(3,4) env by (simp_all add: fault_free_def usable_def connected_def)
      ultimately obtain e where "rejectTransaction ctx req (request_delta req) now (Some (a_owner_id a)) err w3 = (Inl err, w')"
        "audit_entries (view ctx w') = audit_entries (view ctx w3) @ [e]"
        "audits req (Some (a_owner_id a)) (verdict_outcome ?v) (verdict_reason ?v) e"
        using reject_runs [OF _ _ req, of w3 ctx ?v err "Some (a_owner_id a)" now] acc(2) svc Inl by auto
      then show ?thesis using svc tx(5) Inl Some \<open>answers ?v (Inl err)\<close> env(2) by (auto simp: view_def)
    qed
  qed
qed


text \<open>
  C4: Without driver failures the service returns exactly the verdict that the tables give and
  leaves exactly one audit row saying so: accepted, duplicate, unknown account or insufficient
  balance, with the caller, the ref, the account, the signed points and the owner when one was
  found. Only the accepted verdict moves the ledger. The hypotheses say that the request is
  well-formed text, that the stored rows are readable, that generated ids are fresh and that the
  new balance fits the column.
\<close>

theorem process_transaction_verdict:
  assumes "WalletService_ProcessTransaction ctx req w = (r, w')"
    and "fault_free w" "\<not> ctx_Tx ctx" "w_tx w = None"
    and "ProcessTransactionRequest_Validate req = None" "clean_request req"
    and "schema_ok (w_db w)" "sound_rows (w_db w)" "fresh_uuids (w_env w) (w_db w)"
    and "\<And>a. visible_account ctx req (w_db w) = Some a \<Longrightarrow> fits64 (sint (a_balance a) + sint (request_delta req))"
  shows "answers (verdict_of ctx req (w_db w)) r \<and>
    (\<exists>e. audit_entries (w_db w') = audit_entries (w_db w) @ [e] \<and>
       audits req (map_option a_owner_id (visible_account ctx req (w_db w)))
         (verdict_outcome (verdict_of ctx req (w_db w))) (verdict_reason (verdict_of ctx req (w_db w))) e) \<and>
    (if verdict_of ctx req (w_db w) = Accepted
     then \<exists>x b. records req x \<and> posts x b (w_db w) (w_db w') \<and> (\<exists>resp. r = Inr resp \<and> ptp_Balance resp = b)
     else same_ledger (w_db w) (w_db w'))"
proof -
  note run = verdict_runs [OF assms]
  have "process_outcome req w r (w_db w')" using process_effect [OF assms(1,3,4,7)] by blast
  then show ?thesis
    using run assms(2)
    by (cases "verdict_of ctx req (w_db w)") (auto simp: process_outcome_def split: sum.splits if_splits)
qed

definition sample_earn :: ProcessTransactionRequest where
  "sample_earn = \<lparr>ptr_UserID = ''ann'', ptr_Ref = ''r1'', ptr_AccountID = ''acc'', ptr_Kind = KindEarn,
     ptr_Points = 10, ptr_OccurredAt = 0\<rparr>"

lemma sample_sound: "sound_rows sample_tables"
  unfolding sound_rows_def clean_def by code_simp

lemma sample_fresh: "fresh_uuids sample_env sample_tables"
proof -
  have "clean (strconv_Itoa (int n))" for n by (simp add: clean_def strconv_Itoa_def dec_not_nul)
  then show ?thesis
    by (simp add: fresh_uuids_def sample_env_def sample_tables_def clean_def)
qed

theorem process_transaction_verdict_witness:
  "\<exists>e. audit_entries (w_db (snd (WalletService_ProcessTransaction member_ctx (sample_earn\<lparr>ptr_Kind := KindSpend, ptr_Points := 31\<rparr>) sample_world))) = [e] \<and>
    e_reason e = ''insufficient balance'' \<and> e_owner_id e = Some ''ann''"
proof -
  let ?q = "sample_earn\<lparr>ptr_Kind := KindSpend, ptr_Points := 31\<rparr>"
  have "ProcessTransactionRequest_Validate ?q = None" "clean_request ?q"
    by (simp_all add: valid_simps sample_earn_def clean_request_def clean_def)
  moreover have acc: "visible_account member_ctx ?q sample_tables = Some a \<longleftrightarrow>
      a = \<lparr>a_id = ''acc'', a_owner_id = ''ann'', a_name = ''Primary'', a_balance = 30, a_created_at = ''2024-01-01T00:00:00Z''\<rparr>" for a
    by (auto simp: visible_account_def sample_tables_def sample_earn_def scope_arg_def in_scope_def split: if_splits)
  moreover have "request_delta ?q = - 31" by (simp add: request_delta_def signedDelta_def)
  moreover have "verdict_of member_ctx ?q sample_tables = InsufficientBalance"
    using acc [THEN iffD2, OF refl] \<open>request_delta ?q = - 31\<close>
    by (simp add: verdict_of_def) (simp add: sample_tables_def sample_earn_def)
  ultimately show ?thesis
    using process_transaction_verdict [OF run_fst_snd [of "WalletService_ProcessTransaction member_ctx ?q" sample_world]]
      sample_schema sample_sound sample_fresh
    by (auto simp: fits64_def audits_def sample_tables_def empty_tables_def)
qed

end
