(* ===== verification/WalletProperties.thy ===== *)
theory WalletProperties
  imports WalletVerdict
begin

text \<open>
  The properties of the wallet: refinement of the posting step, the ledger invariant and the
  balance floor under every driver failure, idempotency by ref, and the exact outcome and audit row
  of each branch when the driver works.
\<close>

section \<open>The ledger invariant\<close>

definition posted :: "string \<Rightarrow> transaction_row list \<Rightarrow> int" where
  "posted aid xs = sum_list (map (\<lambda>x. sint (t_points x)) (filter (\<lambda>x. t_account_id x = aid) xs))"

definition balanced :: "tables \<Rightarrow> bool" where
  "balanced T \<longleftrightarrow> list_all (\<lambda>a. sint (a_balance a) = posted (a_id a) (transactions T)) (accounts T)"

lemma posted_append: "posted aid (xs @ ys) = posted aid xs + posted aid ys"
  by (simp add: posted_def)

lemma balanced_same_ledger: "same_ledger T T' \<Longrightarrow> balanced T' = balanced T"
  by (simp add: balanced_def same_ledger_def)

lemma balanced_posts:
  assumes p: "posts x b T T'" and ok: "accounts_ok T" and bal: "balanced T"
  shows "balanced T'"
proof -
  from p obtain a where a: "a \<in> set (accounts T)" "a_id a = tr_AccountID x"
    "fits64 (sint (a_balance a) + sint (tr_Points x))" by (auto simp: posts_def)
  have uniq: "c = a" if "c \<in> set (accounts T)" "a_id c = tr_AccountID x" for c
    using that a ok by (auto simp: accounts_ok_def distinct_map inj_on_def)
  have row: "posted aid [row_of_transaction x] = (if aid = tr_AccountID x then sint (tr_Points x) else 0)" for aid
    by (simp add: posted_def row_of_transaction_def)
  have "sint (a_balance c') = posted (a_id c') (transactions T')" if c': "c' \<in> set (accounts T')" for c'
  proof -
    from c' p obtain c where c: "c \<in> set (accounts T)"
      "c' = (if a_id c = tr_AccountID x then c\<lparr>a_balance := a_balance c + tr_Points x\<rparr> else c)"
      by (auto simp: posts_def set_update_where)
    have "sint (a_balance c) = posted (a_id c) (transactions T)"
      using bal c(1) by (simp add: balanced_def list_all_iff)
    then show ?thesis
      using p c a(3) uniq [of c] by (auto simp: posts_def posted_append row sint_add_fits)
  qed
  then show ?thesis by (simp add: balanced_def list_all_iff)
qed

lemma outcome_balanced:
  "process_outcome req w r T' \<Longrightarrow> schema_ok (w_db w) \<Longrightarrow> balanced (w_db w) \<Longrightarrow> balanced T'"
  using balanced_posts balanced_same_ledger
  by (auto simp: process_outcome_def schema_ok_def split: sum.splits if_splits)

lemma process_durable:
  assumes "WalletService_ProcessTransaction ctx req w = (r, w')" "\<not> ctx_Tx ctx" "w_tx w = None"
  shows "durable (w_db w) (w_db w')"
  using evolves_idle [of durable ctx w w'] ProcessTransaction_durable [of ctx w req] assms by simp

text \<open>
  C1: Processing one transaction refines the choice between one posting and no posting. Whatever the
  driver does, starting from a database that satisfies the schema: an accepted result means exactly
  one ledger row with the request's ref and signed points was added and the account's balance moved
  by the same amount under the overdraft guard; a duplicate result means the ledger did not move and
  the stored row is returned; an error means the ledger did not move, unless the commit reached the
  server and only its reply was lost. No transaction is left open, and the ledger and the audit
  trail only grow.
\<close>

theorem process_transaction_refines_posting:
  assumes "WalletService_ProcessTransaction ctx req w = (r, w')"
    and "\<not> ctx_Tx ctx" "w_tx w = None" "schema_ok (w_db w)"
  shows "w_tx w' = None \<and> process_outcome req w r (w_db w') \<and> durable (w_db w) (w_db w')"
  using process_effect [OF assms] process_durable [OF assms(1-3)] by blast

theorem process_transaction_refines_posting_witness:
  "process_outcome sample_earn sample_world
     (fst (WalletService_ProcessTransaction member_ctx sample_earn sample_world))
     (w_db (snd (WalletService_ProcessTransaction member_ctx sample_earn sample_world)))"
  using process_transaction_refines_posting [OF run_fst_snd [of "WalletService_ProcessTransaction member_ctx sample_earn" sample_world]]
    sample_schema by simp

text \<open>
  C2: The ledger invariant and the schema survive every call: if each balance is the sum of the
  signed points posted to its account, it still is after processing any request under any driver
  failure, and no balance is ever negative.
\<close>

theorem process_transaction_keeps_ledger:
  assumes "WalletService_ProcessTransaction ctx req w = (r, w')"
    and "\<not> ctx_Tx ctx" "w_tx w = None" "schema_ok (w_db w)" "balanced (w_db w)"
  shows "balanced (w_db w') \<and> schema_ok (w_db w') \<and>
    list_all (\<lambda>a. 0 \<le> posted (a_id a) (transactions (w_db w'))) (accounts (w_db w'))"
proof -
  have b: "balanced (w_db w')" using process_effect [OF assms(1-4)] outcome_balanced assms(4,5) by blast
  moreover have s: "schema_ok (w_db w')"
    using process_durable [OF assms(1-3)] assms(4) by (simp add: durable_def)
  ultimately show ?thesis
    by (auto simp: balanced_def schema_ok_def accounts_ok_def list_all_iff)
qed

theorem process_transaction_keeps_ledger_witness:
  "balanced (w_db (snd (WalletService_ProcessTransaction member_ctx sample_earn sample_faulty)))"
proof -
  have "balanced sample_tables" by (simp add: balanced_def posted_def sample_tables_def empty_tables_def)
  then show ?thesis
    using process_transaction_keeps_ledger [OF run_fst_snd [of "WalletService_ProcessTransaction member_ctx sample_earn" sample_faulty]]
      sample_schema by simp
qed

text \<open>
  C3: Idempotency: once a ref is in the ledger, no call with that ref, by whomever and with whatever
  amount, moves the ledger again or is answered as newly accepted.
\<close>

theorem process_transaction_idempotent:
  assumes "WalletService_ProcessTransaction ctx req w = (r, w')"
    and "\<not> ctx_Tx ctx" "w_tx w = None" "schema_ok (w_db w)"
    and "ptr_Ref req \<in> t_ref ` set (transactions (w_db w))"
  shows "same_ledger (w_db w) (w_db w') \<and> (\<forall>resp. r = Inr resp \<longrightarrow> ptp_Duplicate resp)"
proof -
  have "\<not> posts x b (w_db w) T" if "records req x" for x b T
    using that assms(5) by (auto simp: posts_def records_def)
  then show ?thesis
    using process_effect [OF assms(1-4)] by (auto simp: process_outcome_def split: sum.splits if_splits)
qed

theorem process_transaction_idempotent_witness:
  "same_ledger sample_tables
     (w_db (snd (WalletService_ProcessTransaction member_ctx (sample_earn\<lparr>ptr_Ref := ''r0''\<rparr>) sample_faulty)))"
proof -
  have "ptr_Ref (sample_earn\<lparr>ptr_Ref := ''r0''\<rparr>) \<in> t_ref ` set (transactions (w_db sample_faulty))"
    by (simp add: sample_tables_def)
  then show ?thesis
    using process_transaction_idempotent [OF run_fst_snd [of
          "WalletService_ProcessTransaction member_ctx (sample_earn\<lparr>ptr_Ref := ''r0''\<rparr>)" sample_faulty]]
      sample_schema by simp
qed


section \<open>Ownership\<close>

lemma no_visible_account:
  assumes run: "WalletService_ProcessTransaction ctx req w = (r, w')"
    and idle: "\<not> ctx_Tx ctx" "w_tx w = None"
    and foreign: "\<not> IsGranted ctx PermAccountReadAll"
      "\<And>a. a \<in> set (accounts (w_db w)) \<Longrightarrow> a_id a = ptr_AccountID req \<Longrightarrow> a_owner_id a \<noteq> ptr_UserID req"
  shows "same_ledger (w_db w) (w_db w') \<and> (\<exists>e. r = Inl e)"
proof (cases "ProcessTransactionRequest_Validate req")
  case (Some err)
  with run show ?thesis by (auto simp: WalletService_ProcessTransaction_def)
next
  case None
  obtain now w1 where tm: "time_Now w = (now, w1)" by (cases "time_Now w")
  have w1: "w_tx w1 = None" "w_db w1 = w_db w" using tm idle by (auto simp: time_Now_def)
  let ?get = "AccountRepository_GetByID ctx
      \<lparr>gar_AccountID = ptr_AccountID req, gar_UserID = ptr_UserID req\<rparr>"
  obtain s w2 where g: "?get w1 = (s, w2)" by (cases "?get w1")
  have w2: "w_tx w2 = None \<and> w_db w2 = w_db w"
    using evolves_idle [of "(=)" ctx w1 w2] frozen.AccountRepository_reads_evolve(2) [of ctx w1] idle(1) w1
    by (metis g snd_conv)
  show ?thesis
  proof (cases s)
    case (Inl err)
    then have "rejectTransaction ctx req (request_delta req) now None err w2 = (r, w')"
      using run None tm g by (simp add: WalletService_ProcessTransaction_def request_delta_def Let_def)
    from rejectTransaction_ledger [OF this] w2 evolves_idle [of same_ledger ctx w2 w'] idle(1)
    show ?thesis by auto
  next
    case (Inr acc)
    have "connected ctx w1" "view ctx w1 = w_db w" using idle w1 by (simp_all add: connected_def view_def)
    from AccountRepository_GetByID_Inr [OF g [unfolded Inr] this(1)] this(2) foreign
    have False by (auto simp: scope_arg_def in_scope_def)
    then show ?thesis ..
  qed
qed

text \<open>
  C10: Ownership: a caller without the permission to read across owners cannot move an account that
  is not theirs. Under every driver failure, a request that names a foreign or a missing account
  ends in an error and the ledger does not change.
\<close>

theorem foreign_account_untouched:
  assumes "WalletService_ProcessTransaction ctx req w = (r, w')"
    and "\<not> ctx_Tx ctx" "w_tx w = None" "\<not> IsGranted ctx PermAccountReadAll"
    and "\<And>a. a \<in> set (accounts (w_db w)) \<Longrightarrow> a_id a = ptr_AccountID req \<Longrightarrow> a_owner_id a \<noteq> ptr_UserID req"
  shows "same_ledger (w_db w) (w_db w') \<and> (\<exists>e. r = Inl e)"
  using no_visible_account [OF assms] .

theorem foreign_account_untouched_witness:
  "same_ledger sample_tables
     (w_db (snd (WalletService_ProcessTransaction member_ctx (sample_earn\<lparr>ptr_UserID := ''eve''\<rparr>) sample_faulty)))"
proof -
  have "\<not> IsGranted member_ctx PermAccountReadAll" by code_simp
  then show ?thesis
    using foreign_account_untouched [OF run_fst_snd [of
          "WalletService_ProcessTransaction member_ctx (sample_earn\<lparr>ptr_UserID := ''eve''\<rparr>)" sample_faulty]]
    by (simp add: sample_tables_def sample_earn_def)
qed

section \<open>Spending\<close>

lemma spend_verdict:
  assumes "visible_account ctx (q\<lparr>ptr_Kind := KindSpend\<rparr>) T = Some a" "ptr_Ref q \<notin> t_ref ` set (transactions T)"
    and "0 < sint (ptr_Points q)"
  shows "verdict_of ctx (q\<lparr>ptr_Kind := KindSpend\<rparr>) T = (if sint (ptr_Points q) \<le> sint (a_balance a) then Accepted else InsufficientBalance)"
  using assms by (auto simp: verdict_of_def request_delta_def signedDelta_def sint_uminus_pos)

lemma spend_fits:
  assumes "0 < sint p" "0 \<le> sint (b :: int64)"
  shows "fits64 (sint b + sint (- p :: int64))"
  using assms fits64_sint [of p] fits64_sint [of b] by (simp add: sint_uminus_pos fits64_def)

definition request_of_spend :: "SpendPointsRequest \<Rightarrow> ProcessTransactionRequest" where
  "request_of_spend request =
     \<lparr>ptr_UserID = spr_UserID request, ptr_Ref = spr_Ref request, ptr_AccountID = spr_AccountID request,
        ptr_Kind = KindSpend, ptr_Points = spr_Points request, ptr_OccurredAt = spr_OccurredAt request\<rparr>"

text \<open>
  C11: The overdraft rule, exactly: without driver failures a spend with a new ref on an account the
  caller may read is accepted if and only if its points do not exceed the balance, and then the
  account keeps the difference; otherwise the answer is insufficient balance and nothing moves.
\<close>

theorem spend_accepted_iff_covered:
  assumes "WalletService_SpendPoints ctx q w = (r, w')"
    and "fault_free w" "\<not> ctx_Tx ctx" "w_tx w = None"
    and "ProcessTransactionRequest_Validate (request_of_spend q) = None" "clean_request (request_of_spend q)"
    and "schema_ok (w_db w)" "sound_rows (w_db w)" "fresh_uuids (w_env w) (w_db w)"
    and "visible_account ctx (request_of_spend q) (w_db w) = Some a"
    and "spr_Ref q \<notin> t_ref ` set (transactions (w_db w))"
  shows "if sint (spr_Points q) \<le> sint (a_balance a)
    then (\<exists>resp. r = Inr resp \<and> \<not> ptp_Duplicate resp \<and> sint (ptp_Balance resp) = sint (a_balance a) - sint (spr_Points q))
    else (\<exists>e. r = Inl e \<and> errors_Is e ErrInsufficientBalance) \<and> same_ledger (w_db w) (w_db w')"
proof -
  let ?q = "request_of_spend q"
  have q: "?q = ?q\<lparr>ptr_Kind := KindSpend\<rparr>" "ptr_Ref ?q = spr_Ref q" "ptr_Points ?q = spr_Points q"
    "request_delta ?q = - spr_Points q"
    by (simp_all add: request_of_spend_def request_delta_def signedDelta_def)
  have run: "WalletService_ProcessTransaction ctx ?q w = (r, w')"
    using assms(1) by (simp add: WalletService_SpendPoints_def request_of_spend_def)
  have a: "a \<in> set (accounts (w_db w))" "a_id a = ptr_AccountID ?q"
    using assms(10) by (auto simp: visible_account_def find_Some_iff)
  have pos: "0 < sint (spr_Points q)" "0 \<le> sint (a_balance a)"
    using assms(5,7) a(1) q(3) by (auto simp: valid_simps schema_ok_def accounts_ok_def list_all_iff)
  note fits = spend_fits [OF pos]
  have v: "verdict_of ctx ?q (w_db w) = (if sint (spr_Points q) \<le> sint (a_balance a) then Accepted else InsufficientBalance)"
    using spend_verdict [of ctx ?q "w_db w" a] assms(10,11) q pos by simp
  have "answers (verdict_of ctx ?q (w_db w)) r"
    using verdict_runs [OF run assms(2-9)] fits q(4) assms(10) by auto
  moreover have out: "process_outcome ?q w r (w_db w')"
    using process_effect [OF run assms(3,4,7)] by blast
  moreover have "sint b = sint (a_balance a) - sint (spr_Points q)"
    if "posts x b (w_db w) (w_db w')" "records ?q x" for x b
  proof -
    from that obtain c where "c \<in> set (accounts (w_db w))" "a_id c = a_id a" "b = a_balance c - spr_Points q"
      using a(2) q(4) by (auto simp: posts_def records_def)
    then have "b = a_balance a + - spr_Points q"
      using a(1) assms(7) by (auto simp: schema_ok_def accounts_ok_def distinct_map inj_on_def)
    then show ?thesis using fits pos by (simp only: sint_add_fits sint_uminus_pos)
  qed
  ultimately show ?thesis
    using v assms(2) by (auto simp: process_outcome_def)
qed

theorem spend_accepted_iff_covered_witness:
  "\<exists>resp. fst (WalletService_SpendPoints member_ctx
       \<lparr>spr_UserID = ''ann'', spr_Ref = ''r2'', spr_AccountID = ''acc'', spr_Points = 30, spr_OccurredAt = 0\<rparr> sample_world) = Inr resp \<and>
     sint (ptp_Balance resp) = 0"
proof -
  let ?q = "\<lparr>spr_UserID = ''ann'', spr_Ref = ''r2'', spr_AccountID = ''acc'', spr_Points = 30, spr_OccurredAt = 0\<rparr>"
  have "ProcessTransactionRequest_Validate (request_of_spend ?q) = None" "clean_request (request_of_spend ?q)"
    by (simp_all add: valid_simps request_of_spend_def clean_request_def clean_def)
  moreover have "visible_account member_ctx (request_of_spend ?q) sample_tables =
      Some \<lparr>a_id = ''acc'', a_owner_id = ''ann'', a_name = ''Primary'', a_balance = 30, a_created_at = ''2024-01-01T00:00:00Z''\<rparr>"
    by (auto simp: visible_account_def sample_tables_def request_of_spend_def scope_arg_def in_scope_def)
  moreover have "spr_Ref ?q \<notin> t_ref ` set (transactions sample_tables)" by (simp add: sample_tables_def)
  ultimately show ?thesis
    using spend_accepted_iff_covered [OF run_fst_snd [of "WalletService_SpendPoints member_ctx ?q" sample_world]]
      sample_schema sample_sound sample_fresh
    by fastforce
qed

end
