(* ===== verification/BatchProperties.thy ===== *)
theory BatchProperties
  imports WalletProperties
begin

text \<open>
  The batch operation: what its report says, that it keeps the ledger under every driver failure,
  that the order of submission only matters between equal timestamps, and that a batch without
  rejections can be submitted again without effect.
\<close>

section \<open>The report\<close>

definition count_outcome :: "string \<Rightarrow> BatchElementResult list \<Rightarrow> nat" where
  "count_outcome out xs = length (filter (\<lambda>x. ber_Outcome x = out) xs)"

lemma count_outcome_append [simp]: "count_outcome out (xs @ ys) = count_outcome out xs + count_outcome out ys"
  by (simp add: count_outcome_def)

definition report_ok :: "ProcessTransactionBatchResponse \<Rightarrow> bool" where
  "report_ok resp \<longleftrightarrow>
     pbp_Accepted resp = count_outcome BatchOutcomeAccepted (pbp_Results resp) \<and>
     pbp_Duplicate resp = count_outcome BatchOutcomeDuplicate (pbp_Results resp) \<and>
     pbp_Rejected resp = count_outcome BatchOutcomeRejected (pbp_Results resp) \<and>
     pbp_Accepted resp + pbp_Duplicate resp + pbp_Rejected resp = length (pbp_Results resp)"

text \<open>One pass appends one element with the ref of its request and counts it.\<close>

lemma batch_element_report:
  assumes "batch_element ctx q resp w = (resp', w')" "report_ok resp"
  shows "report_ok resp' \<and> (\<exists>x. pbp_Results resp' = pbp_Results resp @ [x] \<and> ber_Ref x = ptr_Ref q)"
  using assms
  by (auto simp: batch_element_def report_ok_def count_outcome_def batch_outcome_defs
      split: prod.splits sum.splits if_splits)

lemma batch_loop_report:
  assumes "batch_loop ctx qs resp w = (resp', w')" "report_ok resp"
  shows "report_ok resp' \<and> map ber_Ref (pbp_Results resp') = map ber_Ref (pbp_Results resp) @ map ptr_Ref qs"
  using assms
proof (induction qs arbitrary: resp w)
  case (Cons q qs)
  obtain r1 w1 where r1: "batch_element ctx q resp w = (r1, w1)" by fastforce
  with Cons.prems have "batch_loop ctx qs r1 w1 = (resp', w')" by simp
  from Cons.IH [OF this] batch_element_report [OF r1 Cons.prems(2)] show ?case by auto
qed simp

lemma empty_report: "report_ok \<lparr>pbp_Results = [], pbp_Accepted = 0, pbp_Duplicate = 0, pbp_Rejected = 0\<rparr>"
  by (simp add: report_ok_def count_outcome_def)

lemma batch_Inr:
  assumes "WalletService_ProcessTransactionBatch ctx request w = (Inr resp, w')"
  shows "ProcessTransactionBatchRequest_Validate request = None \<and>
    batch_loop ctx (sort_SliceStable occurs_before (pbr_Transactions request))
      \<lparr>pbp_Results = [], pbp_Accepted = 0, pbp_Duplicate = 0, pbp_Rejected = 0\<rparr> w = (resp, w')"
  using assms by (auto simp: WalletService_ProcessTransactionBatch_def Let_def split: option.splits prod.splits)

text \<open>
  C12: The batch report is complete and consistent: there is exactly one result per submitted
  transaction, in the applied order, which is the stable order by occurrence time; the three
  counters count the three outcomes and add up to the size of the batch, which is between 1 and
  1000.
\<close>

theorem batch_report_complete:
  assumes "WalletService_ProcessTransactionBatch ctx request w = (Inr resp, w')"
  shows "report_ok resp \<and>
    map ber_Ref (pbp_Results resp) = map ptr_Ref (sort_SliceStable occurs_before (pbr_Transactions request)) \<and>
    sorted_wrt (\<lambda>x y. \<not> occurs_before y x) (sort_SliceStable occurs_before (pbr_Transactions request)) \<and>
    mset (map ber_Ref (pbp_Results resp)) = mset (map ptr_Ref (pbr_Transactions request)) \<and>
    0 < length (pbp_Results resp) \<and> length (pbp_Results resp) \<le> 1000"
proof -
  note b = batch_Inr [OF assms]
  note rep = batch_loop_report [OF conjunct2 [OF b] empty_report]
  then have refs: "map ber_Ref (pbp_Results resp) = map ptr_Ref (sort_SliceStable occurs_before (pbr_Transactions request))"
    by simp
  from arg_cong [OF this, of length] have "length (pbp_Results resp) = length (pbr_Transactions request)" by simp
  moreover from refs have "mset (map ber_Ref (pbp_Results resp)) = mset (map ptr_Ref (pbr_Transactions request))"
    by simp
  ultimately show ?thesis
    using refs rep b batch_order.sorted_sort by (simp add: valid_simps maxBatchSize_def)
qed

definition sample_batch :: ProcessTransactionBatchRequest where
  "sample_batch = \<lparr>pbr_Transactions =
     [sample_earn\<lparr>ptr_Ref := ''s1'', ptr_Kind := KindSpend, ptr_Points := 35, ptr_OccurredAt := 20\<rparr>,
      sample_earn\<lparr>ptr_Ref := ''e1'', ptr_OccurredAt := 10\<rparr>]\<rparr>"

lemma sample_batch_valid: "ProcessTransactionBatchRequest_Validate sample_batch = None"
  by (simp add: valid_simps sample_batch_def maxBatchSize_def)

lemma batch_total:
  "ProcessTransactionBatchRequest_Validate request = None \<Longrightarrow>
   \<exists>resp w'. WalletService_ProcessTransactionBatch ctx request w = (Inr resp, w')"
  by (auto simp: WalletService_ProcessTransactionBatch_def Let_def split: prod.splits)

theorem batch_report_complete_witness:
  "\<exists>resp w'. WalletService_ProcessTransactionBatch admin_ctx sample_batch sample_world = (Inr resp, w') \<and>
     map ber_Ref (pbp_Results resp) = [''e1'', ''s1'']"
proof -
  obtain resp w' where b: "WalletService_ProcessTransactionBatch admin_ctx sample_batch sample_world = (Inr resp, w')"
    using batch_total [OF sample_batch_valid] by blast
  moreover have "map ptr_Ref (sort_SliceStable occurs_before (pbr_Transactions sample_batch)) = [''e1'', ''s1'']"
    by (simp add: sample_batch_def sample_earn_def occurs_before_def Before_def)
  ultimately show ?thesis using batch_report_complete [OF b] by auto
qed

section \<open>The ledger\<close>

text \<open>A relation that every call keeps is kept by the loop: the batch is a sequence of calls.\<close>

lemma batch_element_world:
  "snd (batch_element ctx q resp w) = snd (WalletService_ProcessTransaction ctx q w)"
  by (auto simp: batch_element_def split: prod.split sum.split)

lemma batch_loop_invariant:
  assumes step: "\<And>q w r w'. q \<in> set qs \<Longrightarrow> I w \<Longrightarrow> WalletService_ProcessTransaction ctx q w = (r, w') \<Longrightarrow> I w'"
    and "I w" "batch_loop ctx qs resp w = (resp', w')"
  shows "I w'"
  using assms
proof (induction qs arbitrary: resp w)
  case (Cons q qs)
  obtain r1 w1 where r1: "batch_element ctx q resp w = (r1, w1)" by fastforce
  then have "snd (WalletService_ProcessTransaction ctx q w) = w1" using batch_element_world [of ctx q resp w] by simp
  then obtain r where "WalletService_ProcessTransaction ctx q w = (r, w1)" by (metis prod.collapse)
  then have "I w1" using Cons.prems(1) [of q w r w1] Cons.prems(2) by simp
  show ?case
  proof (rule Cons.IH [OF _ \<open>I w1\<close>])
    show "batch_loop ctx qs r1 w1 = (resp', w')" using Cons.prems(3) r1 by simp
    show "I v'" if "p \<in> set qs" "I v" "WalletService_ProcessTransaction ctx p v = (t, v')" for p v t v'
      using Cons.prems(1) [OF _ that(2,3)] that(1) by simp
  qed
qed simp

definition ledger_sound :: "world \<Rightarrow> bool" where
  "ledger_sound w \<longleftrightarrow> w_tx w = None \<and> schema_ok (w_db w) \<and> balanced (w_db w)"

lemma process_ledger_sound:
  assumes "WalletService_ProcessTransaction ctx q w = (r, w')" "\<not> ctx_Tx ctx" "ledger_sound w"
  shows "ledger_sound w'"
  using process_effect [OF assms(1,2)] process_durable [OF assms(1,2)] outcome_balanced assms(3)
  by (auto simp: ledger_sound_def durable_def)

lemma process_durable_step:
  assumes "WalletService_ProcessTransaction ctx q v = (t, v')" "\<not> ctx_Tx ctx"
    and "ledger_sound v \<and> durable T (w_db v)"
  shows "ledger_sound v' \<and> durable T (w_db v')"
  using process_ledger_sound [OF assms(1,2)] process_durable [OF assms(1,2)] assms(3)
    durable.R_trans [of T "w_db v" "w_db v'"] by (simp add: ledger_sound_def)

lemma batch_loop_durable:
  assumes "batch_loop ctx qs resp w = (resp', w')" "\<not> ctx_Tx ctx" "ledger_sound w"
  shows "ledger_sound w' \<and> durable (w_db w) (w_db w')"
proof (rule batch_loop_invariant [where I = "\<lambda>v. ledger_sound v \<and> durable (w_db w) (w_db v)", OF _ _ assms(1)])
  show "ledger_sound w \<and> durable (w_db w) (w_db w)" using assms(3) durable.R_refl by blast
qed (rule process_durable_step [OF _ assms(2)])

text \<open>
  C13: A batch keeps the ledger invariant and the schema whatever the driver does in the middle of
  it: afterwards no transaction is open, every balance is the sum of the points posted to its
  account and no balance is negative; the ledger and the audit trail have only grown.
\<close>

theorem batch_keeps_ledger:
  assumes "WalletService_ProcessTransactionBatch ctx request w = (r, w')"
    and "\<not> ctx_Tx ctx" "w_tx w = None" "schema_ok (w_db w)" "balanced (w_db w)"
  shows "w_tx w' = None \<and> schema_ok (w_db w') \<and> balanced (w_db w') \<and> durable (w_db w) (w_db w')"
proof (cases r)
  case (Inl e)
  with assms show ?thesis
    by (auto simp: WalletService_ProcessTransactionBatch_def Let_def durable.R_refl split: option.splits prod.splits)
next
  case (Inr resp)
  have "ledger_sound w" using assms(3-5) by (simp add: ledger_sound_def)
  from batch_loop_durable [OF conjunct2 [OF batch_Inr [OF assms(1) [unfolded Inr]]] assms(2) this]
  show ?thesis by (simp add: ledger_sound_def)
qed

theorem batch_keeps_ledger_witness:
  "balanced (w_db (snd (WalletService_ProcessTransactionBatch admin_ctx sample_batch sample_faulty)))"
proof -
  have "balanced sample_tables" by (simp add: balanced_def posted_def sample_tables_def empty_tables_def)
  then show ?thesis
    using batch_keeps_ledger [OF run_fst_snd [of "WalletService_ProcessTransactionBatch admin_ctx sample_batch" sample_faulty]]
      sample_schema by simp
qed

section \<open>Order of submission\<close>

lemma distinct_times_filter:
  assumes "distinct (map ptr_OccurredAt xs)" "mset xs = mset ys"
  shows "filter (batch_order.tied z) xs = filter (batch_order.tied z) ys"
proof -
  have tied: "batch_order.tied z x \<longleftrightarrow> ptr_OccurredAt x = ptr_OccurredAt z" for x
    by (auto simp: batch_order.tied_def occurs_before_def Before_def)
  have small: "length (filter (batch_order.tied z) zs) \<le> 1" if "distinct (map ptr_OccurredAt zs)" for zs
    using that by (induction zs) (auto simp: tied length_0_conv filter_empty_conv image_iff)
  have d: "distinct (map ptr_OccurredAt ys)"
    using assms by (metis mset_map mset_eq_imp_distinct_iff)
  have m: "mset (filter (batch_order.tied z) xs) = mset (filter (batch_order.tied z) ys)"
    using assms(2) by (simp add: mset_filter)
  then have len: "length (filter (batch_order.tied z) xs) = length (filter (batch_order.tied z) ys)"
    by (metis size_mset)
  show ?thesis
    using small [OF assms(1)] small [OF d] m len
    by (cases "filter (batch_order.tied z) xs"; cases "filter (batch_order.tied z) ys") auto
qed

text \<open>
  C14: Submission order does not matter when the timestamps differ: two batches with the same
  transactions, all at different times, in any two orders, give the same report and the same
  database.
\<close>

theorem batch_order_irrelevant:
  assumes "mset (pbr_Transactions b1) = mset (pbr_Transactions b2)"
    and "distinct (map ptr_OccurredAt (pbr_Transactions b1))"
  shows "WalletService_ProcessTransactionBatch ctx b1 w = WalletService_ProcessTransactionBatch ctx b2 w"
proof -
  have "sort_SliceStable occurs_before (pbr_Transactions b1) = sort_SliceStable occurs_before (pbr_Transactions b2)"
    using distinct_times_filter [OF assms(2,1)]
    by (intro batch_order.sort_determined) (simp_all add: batch_order.sorted_sort batch_order.sort_stable)
  moreover have "length (pbr_Transactions b1) = length (pbr_Transactions b2)" using assms(1) by (metis size_mset)
  moreover from \<open>length (pbr_Transactions b1) = length (pbr_Transactions b2)\<close>
  have "ProcessTransactionBatchRequest_Validate b1 = ProcessTransactionBatchRequest_Validate b2"
    by (simp only: ProcessTransactionBatchRequest_Validate_def)
  ultimately show ?thesis
    by (simp only: WalletService_ProcessTransactionBatch_def)
qed

theorem batch_order_irrelevant_witness:
  "WalletService_ProcessTransactionBatch admin_ctx sample_batch sample_faulty =
   WalletService_ProcessTransactionBatch admin_ctx \<lparr>pbr_Transactions = rev (pbr_Transactions sample_batch)\<rparr> sample_faulty"
  by (rule batch_order_irrelevant) (simp_all add: sample_batch_def sample_earn_def)

section \<open>Submitting again\<close>

definition in_ledger :: "world \<Rightarrow> string \<Rightarrow> bool" where
  "in_ledger w ref \<longleftrightarrow> ref \<in> t_ref ` set (transactions (w_db w))"

lemma in_ledger_durable: "durable (w_db w) (w_db w') \<Longrightarrow> in_ledger w ref \<Longrightarrow> in_ledger w' ref"
  using grows_set by (auto simp: durable_def in_ledger_def)

lemma process_recorded:
  assumes "WalletService_ProcessTransaction ctx q w = (Inr resp, w')" "\<not> ctx_Tx ctx" "w_tx w = None" "schema_ok (w_db w)"
  shows "in_ledger w' (ptr_Ref q)"
proof (cases "ptp_Duplicate resp")
  case True
  then obtain r where "r \<in> set (transactions (w_db w))" "t_ref r = ptr_Ref q" "same_ledger (w_db w) (w_db w')"
    using process_effect [OF assms] by (auto simp: process_outcome_def replays_def)
  then show ?thesis unfolding in_ledger_def same_ledger_def by (metis image_eqI)
next
  case False
  then show ?thesis using process_effect [OF assms]
    by (auto simp: process_outcome_def in_ledger_def posts_def records_def row_of_transaction_def)
qed

lemma batch_loop_recorded:
  assumes "batch_loop ctx qs resp w = (resp', w')" "\<not> ctx_Tx ctx" "ledger_sound w"
    and "pbp_Rejected resp' = pbp_Rejected resp" "q \<in> set qs"
  shows "in_ledger w' (ptr_Ref q)"
  using assms
proof (induction qs arbitrary: resp w)
  case (Cons p qs)
  obtain r1 w1 where r1: "batch_element ctx p resp w = (r1, w1)" by fastforce
  then have loop: "batch_loop ctx qs r1 w1 = (resp', w')" using Cons.prems(1) by simp
  have mono: "pbp_Rejected r \<le> pbp_Rejected r'" if "batch_loop ctx xs r v = (r', v')" for xs r v r' v'
    using that
  proof (induction xs arbitrary: r v)
    case (Cons x xs)
    then show ?case
      by (fastforce simp: batch_element_def split: prod.splits sum.splits if_splits)
  qed simp
  from mono [OF loop] r1 Cons.prems(4) obtain s where
    p: "WalletService_ProcessTransaction ctx p w = (Inr s, w1)" "pbp_Rejected r1 = pbp_Rejected resp"
    by (auto simp: batch_element_def split: prod.splits sum.splits if_splits)
  have sound: "ledger_sound w1" by (rule process_ledger_sound [OF p(1) Cons.prems(2,3)])
  have "durable (w_db w1) (w_db w')" using batch_loop_durable [OF loop Cons.prems(2) sound] by simp
  moreover have "in_ledger w1 (ptr_Ref p)"
    using process_recorded [OF p(1) Cons.prems(2)] Cons.prems(3) by (simp add: ledger_sound_def)
  ultimately show ?case
    using Cons.IH [OF loop Cons.prems(2) sound] Cons.prems(4,5) p(2) in_ledger_durable by auto
qed simp

lemma process_replay:
  assumes "WalletService_ProcessTransaction ctx q w = (r, w')" "\<not> ctx_Tx ctx" "w_tx w = None" "schema_ok (w_db w)"
    and "ptr_Ref q \<in> t_ref ` set (transactions (w_db w))"
  shows "same_ledger (w_db w) (w_db w')"
proof -
  have "\<not> posts x b (w_db w) T" if "records q x" for x b T
    using that assms(5) by (auto simp: posts_def records_def)
  then show ?thesis
    using process_effect [OF assms(1-4)] by (auto simp: process_outcome_def split: sum.splits if_splits)
qed

lemma batch_loop_replay:
  assumes "batch_loop ctx qs resp w = (resp', w')" "\<not> ctx_Tx ctx" "ledger_sound w"
    and "\<And>q. q \<in> set qs \<Longrightarrow> in_ledger w (ptr_Ref q)"
  shows "same_ledger (w_db w) (w_db w')"
proof -
  have "ledger_sound w' \<and> same_ledger (w_db w) (w_db w')"
  proof (rule batch_loop_invariant [where I = "\<lambda>v. ledger_sound v \<and> same_ledger (w_db w) (w_db v)", OF _ _ assms(1)])
    show "ledger_sound w \<and> same_ledger (w_db w) (w_db w)" using assms(3) same_ledger.R_refl by blast
    show "ledger_sound v' \<and> same_ledger (w_db w) (w_db v')"
      if "q \<in> set qs" "ledger_sound v \<and> same_ledger (w_db w) (w_db v)"
        "WalletService_ProcessTransaction ctx q v = (t, v')" for q v t v'
    proof -
      have "ptr_Ref q \<in> t_ref ` set (transactions (w_db v))"
        using assms(4) [OF that(1)] that(2) by (simp add: in_ledger_def same_ledger_def)
      then have "same_ledger (w_db v) (w_db v')"
        using process_replay [OF that(3) assms(2)] that(2) by (simp add: ledger_sound_def)
      then show ?thesis
        using that(2) process_ledger_sound [OF that(3) assms(2)] same_ledger.R_trans by blast
    qed
  qed
  then show ?thesis ..
qed

text \<open>
  C15: A batch that reported no rejection can be submitted again: whatever the driver does during the
  second submission, and however its answer looks, the ledger and the balances do not change.
\<close>

theorem batch_resubmission_safe:
  assumes "WalletService_ProcessTransactionBatch ctx b w = (Inr resp, w')" "pbp_Rejected resp = 0"
    and "\<not> ctx_Tx ctx" "w_tx w = None" "schema_ok (w_db w)" "balanced (w_db w)"
    and "WalletService_ProcessTransactionBatch ctx b (w'\<lparr>w_env := e\<rparr>) = (r, w'')"
  shows "same_ledger (w_db w') (w_db w'')"
proof -
  note first = conjunct2 [OF batch_Inr [OF assms(1)]]
  have sound: "ledger_sound w" using assms(4-6) by (simp add: ledger_sound_def)
  have "ledger_sound w'"
    by (rule batch_loop_invariant [where I = ledger_sound, OF process_ledger_sound sound first])
       (use assms(3) in auto)
  then have sound': "ledger_sound (w'\<lparr>w_env := e\<rparr>)" by (simp add: ledger_sound_def)
  have rec: "in_ledger (w'\<lparr>w_env := e\<rparr>) (ptr_Ref q)"
    if "q \<in> set (sort_SliceStable occurs_before (pbr_Transactions b))" for q
    using batch_loop_recorded [OF first assms(3) sound _ that] assms(2) by (simp add: in_ledger_def)
  obtain resp2 where "r = Inr resp2"
    using assms(7) batch_total [OF conjunct1 [OF batch_Inr [OF assms(1)]], of ctx "w'\<lparr>w_env := e\<rparr>"] by auto
  from batch_loop_replay [OF conjunct2 [OF batch_Inr [OF assms(7) [unfolded this]]] assms(3) sound' rec]
  show ?thesis by simp
qed


lemma sample_batch_accepted:
  "case fst (WalletService_ProcessTransactionBatch admin_ctx sample_batch sample_world) of
     Inr resp \<Rightarrow> pbp_Rejected resp = 0 \<and> pbp_Accepted resp = 2 | Inl _ \<Rightarrow> False"
  by code_simp

theorem batch_resubmission_safe_witness:
  "\<exists>w'. snd (WalletService_ProcessTransactionBatch admin_ctx sample_batch sample_world) = w' \<and>
     same_ledger (w_db w')
       (w_db (snd (WalletService_ProcessTransactionBatch admin_ctx sample_batch (w'\<lparr>w_env := w_env sample_faulty\<rparr>))))"
proof -
  obtain resp w' where b: "WalletService_ProcessTransactionBatch admin_ctx sample_batch sample_world = (Inr resp, w')"
    using batch_total [OF sample_batch_valid] by blast
  then have "pbp_Rejected resp = 0" using sample_batch_accepted by simp
  moreover have "balanced sample_tables" by (simp add: balanced_def posted_def sample_tables_def empty_tables_def)
  ultimately show ?thesis
    using batch_resubmission_safe [OF b _ _ _ _ _ run_fst_snd [of "WalletService_ProcessTransactionBatch admin_ctx sample_batch"
          "w'\<lparr>w_env := w_env sample_faulty\<rparr>"]] sample_schema b by auto
qed

end
