(* ===== verification/WalletRPC.thy ===== *)
theory WalletRPC
  imports WalletService
begin

text \<open>
  The JSON-RPC adaptor of the wallet (\<open>pkg/wallets/walletServiceJSONRPCAdaptor.go\<close>) and the audit
  service with its adaptor (\<open>internal/pkg/audit/auditServiceImpl.go\<close>,
  \<open>pkg/audits/auditServiceValidations.go\<close>, \<open>auditServiceJSONRPCAdaptor.go\<close>).
\<close>

section \<open>Wallet adaptor\<close>

record ProcessTransactionJSONRPCRequest =
  pjr_Ref :: string
  pjr_AccountID :: string
  pjr_Kind :: string
  pjr_Points :: int64
  pjr_OccurredAt :: gotime

record ProcessTransactionJSONRPCResponse =
  pjp_Ref :: string
  pjp_AccountID :: string
  pjp_Kind :: string
  pjp_Points :: int64
  pjp_OccurredAt :: gotime
  pjp_RecordedAt :: gotime
  pjp_Balance :: int64
  pjp_Duplicate :: bool

record EarnPointsJSONRPCRequest =
  ejr_Ref :: string
  ejr_AccountID :: string
  ejr_Points :: int64
  ejr_OccurredAt :: gotime

record SpendPointsJSONRPCRequest =
  sjr_Ref :: string
  sjr_AccountID :: string
  sjr_Points :: int64
  sjr_OccurredAt :: gotime

record BatchTransactionResult =
  btr_Ref :: string
  btr_Status :: string
  btr_Reason :: string
  btr_Balance :: int64

record BatchSummary =
  bs_Accepted :: nat
  bs_Duplicate :: nat
  bs_Rejected :: nat

record ProcessTransactionBatchResult =
  pbt_Results :: "BatchTransactionResult list"
  pbt_Summary :: BatchSummary

definition mapProcessError :: "go_error \<Rightarrow> go_error" where
  "mapProcessError err =
     (if errors_Is err ErrForbidden then WithMessage ErrForbidden ''you do not own this account''
      else if errors_Is err ErrInsufficientBalance then WithMessage ErrInsufficientBalance ''insufficient balance''
      else if errors_Is err ErrNotFound then WithMessage ErrNotFound ''account not found''
      else if errors_Is err ErrInvalidArgument then err
      else WithMessage ErrInternal ''could not process transaction'')"

definition fillProcessResult :: "ProcessTransactionResponse \<Rightarrow> ProcessTransactionJSONRPCResponse" where
  "fillProcessResult resp =
     (let x = ptp_Transaction resp in
      \<lparr>pjp_Ref = tr_Ref x, pjp_AccountID = tr_AccountID x, pjp_Kind = tr_Kind x, pjp_Points = tr_Points x,
       pjp_OccurredAt = tr_OccurredAt x, pjp_RecordedAt = tr_RecordedAt x,
       pjp_Balance = ptp_Balance resp, pjp_Duplicate = ptp_Duplicate resp\<rparr>)"

definition WalletAdaptor_ProcessTransaction ::
    "go_context \<Rightarrow> ProcessTransactionJSONRPCRequest \<Rightarrow> ProcessTransactionJSONRPCResponse op" where
  "WalletAdaptor_ProcessTransaction ctx params w =
     (case LoginClaimFromContext ctx of
        None \<Rightarrow> (Inl (Sentinel ErrUnauthorized), w)
      | Some claim \<Rightarrow>
        (case WalletService_ProcessTransaction ctx
                \<lparr>ptr_UserID = claim_UserID claim, ptr_Ref = pjr_Ref params, ptr_AccountID = pjr_AccountID params,
                 ptr_Kind = pjr_Kind params, ptr_Points = pjr_Points params, ptr_OccurredAt = pjr_OccurredAt params\<rparr> w of
           (Inl err, w) \<Rightarrow> (Inl (mapProcessError err), w)
         | (Inr resp, w) \<Rightarrow> (Inr (fillProcessResult resp), w)))"

definition WalletAdaptor_EarnPoints ::
    "go_context \<Rightarrow> EarnPointsJSONRPCRequest \<Rightarrow> ProcessTransactionJSONRPCResponse op" where
  "WalletAdaptor_EarnPoints ctx params w =
     (case LoginClaimFromContext ctx of
        None \<Rightarrow> (Inl (Sentinel ErrUnauthorized), w)
      | Some claim \<Rightarrow>
        (case WalletService_EarnPoints ctx
                \<lparr>epr_UserID = claim_UserID claim, epr_Ref = ejr_Ref params, epr_AccountID = ejr_AccountID params,
                 epr_Points = ejr_Points params, epr_OccurredAt = ejr_OccurredAt params\<rparr> w of
           (Inl err, w) \<Rightarrow> (Inl (mapProcessError err), w)
         | (Inr resp, w) \<Rightarrow> (Inr (fillProcessResult resp), w)))"

definition WalletAdaptor_SpendPoints ::
    "go_context \<Rightarrow> SpendPointsJSONRPCRequest \<Rightarrow> ProcessTransactionJSONRPCResponse op" where
  "WalletAdaptor_SpendPoints ctx params w =
     (case LoginClaimFromContext ctx of
        None \<Rightarrow> (Inl (Sentinel ErrUnauthorized), w)
      | Some claim \<Rightarrow>
        (case WalletService_SpendPoints ctx
                \<lparr>spr_UserID = claim_UserID claim, spr_Ref = sjr_Ref params, spr_AccountID = sjr_AccountID params,
                 spr_Points = sjr_Points params, spr_OccurredAt = sjr_OccurredAt params\<rparr> w of
           (Inl err, w) \<Rightarrow> (Inl (mapProcessError err), w)
         | (Inr resp, w) \<Rightarrow> (Inr (fillProcessResult resp), w)))"

definition WalletAdaptor_ProcessTransactionBatch ::
    "go_context \<Rightarrow> ProcessTransactionJSONRPCRequest list \<Rightarrow> ProcessTransactionBatchResult op" where
  "WalletAdaptor_ProcessTransactionBatch ctx params w =
     (case LoginClaimFromContext ctx of
        None \<Rightarrow> (Inl (Sentinel ErrUnauthorized), w)
      | Some claim \<Rightarrow>
        if claim_Role claim \<noteq> RoleAdmin then
          (Inl (WithMessage ErrForbidden ''batch ingestion is admin-only''), w)
        else
        (case WalletService_ProcessTransactionBatch ctx
                \<lparr>pbr_Transactions = map (\<lambda>p.
                   \<lparr>ptr_UserID = claim_UserID claim, ptr_Ref = pjr_Ref p, ptr_AccountID = pjr_AccountID p,
                    ptr_Kind = pjr_Kind p, ptr_Points = pjr_Points p, ptr_OccurredAt = pjr_OccurredAt p\<rparr>) params\<rparr> w of
           (Inl err, w) \<Rightarrow>
             if errors_Is err ErrInvalidArgument then (Inl err, w)
             else (Inl (WithMessage ErrInternal ''could not process transaction batch''), w)
         | (Inr resp, w) \<Rightarrow>
             (Inr \<lparr>pbt_Results = map (\<lambda>e. \<lparr>btr_Ref = ber_Ref e, btr_Status = ber_Outcome e,
                     btr_Reason = ber_Reason e, btr_Balance = ber_Balance e\<rparr>) (pbp_Results resp),
                   pbt_Summary = \<lparr>bs_Accepted = pbp_Accepted resp, bs_Duplicate = pbp_Duplicate resp,
                     bs_Rejected = pbp_Rejected resp\<rparr>\<rparr>, w)))"

section \<open>Audit service and adaptor\<close>

record ListAuditByRefRequest =
  larr_UserID :: string
  larr_TransactionRef :: string

definition ListAuditByRefRequest_Validate :: "ListAuditByRefRequest \<Rightarrow> go_error option" where
  "ListAuditByRefRequest_Validate r = NewValidationError (
     (if larr_TransactionRef r = [] then [''TransactionRef is required''] else []) @
     (if larr_UserID r = [] then [''UserID is required''] else []))"

definition AuditService_FetchTransactionAuditTrail ::
    "go_context \<Rightarrow> ListAuditByRefRequest \<Rightarrow> AuditEntry list op" where
  "AuditService_FetchTransactionAuditTrail ctx request w =
     (case ListAuditByRefRequest_Validate request of
        Some err \<Rightarrow> (Inl (Wrapped ''invalid request for FetchTransactionAuditTrail'' err), w)
      | None \<Rightarrow>
        (case AuditEntryRepository_ListByTransactionRef ctx
                \<lparr>ltrr_TransactionRef = larr_TransactionRef request, ltrr_UserID = larr_UserID request\<rparr> w of
           (Inl err, w) \<Rightarrow> (Inl (Wrapped ''could not list audit entries by transaction ref'' err), w)
         | (Inr entries, w) \<Rightarrow> (Inr entries, w)))"

record AuditEntryResult =
  aer_ID :: int
  aer_UserID :: string
  aer_TransactionRef :: "string option"
  aer_AccountID :: "string option"
  aer_OwnerID :: "string option"
  aer_Kind :: "string option"
  aer_Points :: "int64 option"
  aer_Outcome :: string
  aer_Reason :: string
  aer_CreatedAt :: gotime

record ListByTransactionRefResult =
  lbr_TransactionRef :: string
  lbr_Entries :: "AuditEntryResult list"

definition audit_result :: "AuditEntry \<Rightarrow> AuditEntryResult" where
  "audit_result entry =
     \<lparr>aer_ID = aud_ID entry, aer_UserID = aud_UserID entry, aer_TransactionRef = aud_TransactionRef entry,
      aer_AccountID = aud_AccountID entry, aer_OwnerID = aud_OwnerID entry, aer_Kind = aud_Kind entry,
      aer_Points = aud_Points entry, aer_Outcome = aud_Outcome entry, aer_Reason = aud_Reason entry,
      aer_CreatedAt = aud_CreatedAt entry\<rparr>"

definition AuditAdaptor_FetchTransactionAuditTrail ::
    "go_context \<Rightarrow> string \<Rightarrow> ListByTransactionRefResult op" where
  "AuditAdaptor_FetchTransactionAuditTrail ctx ref w =
     (case LoginClaimFromContext ctx of
        None \<Rightarrow> (Inl (Sentinel ErrUnauthorized), w)
      | Some claim \<Rightarrow>
        (case AuditService_FetchTransactionAuditTrail ctx
                \<lparr>larr_UserID = claim_UserID claim, larr_TransactionRef = ref\<rparr> w of
           (Inl err, w) \<Rightarrow>
             if errors_Is err ErrInvalidArgument then (Inl err, w)
             else (Inl (WithMessage ErrInternal ''could not retrieve audit trail''), w)
         | (Inr entries, w) \<Rightarrow>
             (Inr \<lparr>lbr_TransactionRef = ref, lbr_Entries = map audit_result entries\<rparr>, w)))"

section \<open>Facts\<close>

lemma mapProcessError_Is:
  "errors_Is (mapProcessError err) s \<longrightarrow>
     s \<in> {ErrForbidden, ErrInsufficientBalance, ErrNotFound, ErrInternal} \<or> errors_Is err ErrInvalidArgument"
  by (auto simp: mapProcessError_def errs_simps)

context table_relation
begin

lemma batch_loop_evolves:
  assumes "\<And>row T n T'. insert_transaction row T = Inr (n, T') \<Longrightarrow> R T T'"
    and "\<And>aid d sc T n T'. update_balance aid d sc T = Inr (n, T') \<Longrightarrow> R T T'"
    and "\<And>row T n T'. insert_audit row T = Inr (n, T') \<Longrightarrow> R T T'"
  shows "evolves R ctx w (snd (batch_loop ctx qs resp w))"
proof (induction qs arbitrary: resp w)
  case Nil
  show ?case by (simp add: evolves_refl)
next
  case (Cons q qs)
  have "evolves R ctx w (snd (batch_element ctx q resp w))"
    unfolding batch_element_def
    by (intro evolves_rules ProcessTransaction_evolves) (blast intro: assms)+
  then show ?case unfolding batch_loop.simps by (rule evolves_bind) (rule Cons.IH)
qed

lemma WalletAdaptor_evolves:
  assumes "\<And>row T n T'. insert_transaction row T = Inr (n, T') \<Longrightarrow> R T T'"
    and "\<And>aid d sc T n T'. update_balance aid d sc T = Inr (n, T') \<Longrightarrow> R T T'"
    and "\<And>row T n T'. insert_audit row T = Inr (n, T') \<Longrightarrow> R T T'"
  shows "evolves R ctx w (snd (WalletAdaptor_ProcessTransaction ctx p1 w))"
    and "evolves R ctx w (snd (WalletAdaptor_EarnPoints ctx p2 w))"
    and "evolves R ctx w (snd (WalletAdaptor_SpendPoints ctx p3 w))"
    and "evolves R ctx w (snd (WalletAdaptor_ProcessTransactionBatch ctx p4 w))"
  unfolding WalletAdaptor_ProcessTransaction_def WalletAdaptor_EarnPoints_def WalletAdaptor_SpendPoints_def
    WalletAdaptor_ProcessTransactionBatch_def WalletService_EarnPoints_def WalletService_SpendPoints_def
    WalletService_ProcessTransactionBatch_def Let_def
  by (intro evolves_rules ProcessTransaction_evolves batch_loop_evolves; (blast intro: assms)?)+

lemma AuditAdaptor_evolves: "evolves R ctx w (snd (AuditAdaptor_FetchTransactionAuditTrail ctx ref w))"
  unfolding AuditAdaptor_FetchTransactionAuditTrail_def AuditService_FetchTransactionAuditTrail_def
  by (intro evolves_rules AuditEntryRepository_reads_evolve)

end

end
