(* ===== verification/IngestService.thy ===== *)
theory IngestService
  imports IngestProperties BatchProperties WalletRPC
begin

text \<open>
  The batch client against the server: the request built from a file, as the server decodes it, the
  order in which the server applies it, and the summary printed from the reply.
\<close>

section \<open>The wire\<close>

text \<open>
  How \<open>encoding/json\<close> fills \<open>ProcessTransactionJSONRPCRequest\<close>: an omitted time is the zero time, a
  present one is read by \<open>time.Parse\<close>.
\<close>

definition decode_element :: "transactionParams \<Rightarrow> ProcessTransactionJSONRPCRequest option" where
  "decode_element p = map_option (\<lambda>t.
     \<lparr>pjr_Ref = tp_Ref p, pjr_AccountID = tp_AccountID p, pjr_Kind = tp_Kind p, pjr_Points = tp_Points p, pjr_OccurredAt = t\<rparr>)
     (if tp_OccurredAt p = [] then Some 0 else time_Parse (tp_OccurredAt p))"

definition decode_request :: "Request \<Rightarrow> ProcessTransactionJSONRPCRequest list option" where
  "decode_request request = those (map decode_element (concat (map bp_Transactions (rq_Params request))))"

definition wire_result :: "ProcessTransactionBatchResult \<Rightarrow> batchResult" where
  "wire_result r =
     \<lparr>br_Results = map (\<lambda>e. \<lparr>bl_Ref = btr_Ref e, bl_Status = btr_Status e, bl_Reason = btr_Reason e\<rparr>) (pbt_Results r),
      br_Accepted = int (bs_Accepted (pbt_Summary r)), br_Duplicate = int (bs_Duplicate (pbt_Summary r)),
      br_Rejected = int (bs_Rejected (pbt_Summary r))\<rparr>"

section \<open>Facts\<close>

text \<open>A row as the server sees it: the instant is cut to the second.\<close>

definition sent_row :: "Row \<Rightarrow> ProcessTransactionJSONRPCRequest" where
  "sent_row row = \<lparr>pjr_Ref = row_Ref row, pjr_AccountID = row_AccountID row, pjr_Kind = row_Kind row, pjr_Points = row_Points row,
     pjr_OccurredAt = tm_Instant (row_OccurredAt row) - tm_Instant (row_OccurredAt row) mod second\<rparr>"

lemma format_nonempty: "time_FormatRFC3339 t \<noteq> []"
  by (simp add: time_FormatRFC3339_def Let_def split: prod.split)

lemma decode_row:
  assumes "read_row row"
  shows "decode_element (row_params row) =
    (if \<bar>tm_Offset (row_OccurredAt row)\<bar> = 90000 \<and> tm_Instant (row_OccurredAt row) \<noteq> 0 then None else Some (sent_row row))"
proof (cases "tm_Instant (row_OccurredAt row) = 0")
  case True
  then show ?thesis by (simp add: decode_element_def row_params_def IsZero_def sent_row_def)
next
  case False
  then obtain s where "time_ParseZoned s = Some (row_OccurredAt row)" using assms by (auto simp: read_row_def zero_Time_def)
  from read_back [OF this] False show ?thesis
    by (simp add: decode_element_def row_params_def IsZero_def sent_row_def format_nonempty)
qed

lemma those_Some: "those xs = Some ys \<longleftrightarrow> xs = map Some ys"
proof (induction xs arbitrary: ys)
  case (Cons x xs)
  then show ?case by (cases x; cases ys) auto
qed auto

lemma decode_rows:
  assumes "list_all read_row rows" "decode_request (BuildRequest rows names) = Some params"
  shows "params = map sent_row rows"
proof -
  have "map decode_element (map row_params rows) = map Some params"
    using assms(2) by (simp add: decode_request_def BuildRequest_def those_Some)
  then show ?thesis using assms(1)
  proof (induction rows arbitrary: params)
    case (Cons row rows)
    then show ?case by (cases params) (auto simp: decode_row split: if_splits)
  qed simp
qed

lemma cut_mono: "(s :: int) \<le> t \<Longrightarrow> s - s mod second \<le> t - t mod second"
  using zdiv_mono1 [of s t second] by (simp add: minus_mod_eq_mult_div second_def)

definition batch_request :: "string \<Rightarrow> ProcessTransactionJSONRPCRequest \<Rightarrow> ProcessTransactionRequest" where
  "batch_request user p = \<lparr>ptr_UserID = user, ptr_Ref = pjr_Ref p, ptr_AccountID = pjr_AccountID p,
     ptr_Kind = pjr_Kind p, ptr_Points = pjr_Points p, ptr_OccurredAt = pjr_OccurredAt p\<rparr>"

text \<open>The server's own sort leaves the order of the client as it is.\<close>

lemma server_keeps_order:
  "sort_SliceStable occurs_before (map (batch_request user) (map sent_row (SortRows rows))) =
     map (batch_request user) (map sent_row (SortRows rows))"
proof (rule batch_order.sort_idem)
  have "sorted_wrt (\<lambda>a b. \<not> row_before b a) (SortRows rows)" unfolding SortRows_def by (rule rows.sorted_sort)
  then have "sorted_wrt (\<lambda>a b. \<not> occurs_before (batch_request user (sent_row b)) (batch_request user (sent_row a))) (SortRows rows)"
    by (rule sorted_wrt_mono_rel [rotated])
      (auto simp: row_before_key occurs_before_def Before_def batch_request_def sent_row_def not_less less_prod_def intro!: cut_mono)
  then show "sorted_wrt (\<lambda>x y. \<not> occurs_before y x) (map (batch_request user) (map sent_row (SortRows rows)))"
    by (simp add: sorted_wrt_map)
qed

lemma adaptor_batch:
  assumes "WalletAdaptor_ProcessTransactionBatch ctx params w = (Inr result, w')"
  obtains user resp where
    "WalletService_ProcessTransactionBatch ctx \<lparr>pbr_Transactions = map (batch_request user) params\<rparr> w = (Inr resp, w')"
    "result = \<lparr>pbt_Results = map (\<lambda>e. \<lparr>btr_Ref = ber_Ref e, btr_Status = ber_Outcome e,
         btr_Reason = ber_Reason e, btr_Balance = ber_Balance e\<rparr>) (pbp_Results resp),
       pbt_Summary = \<lparr>bs_Accepted = pbp_Accepted resp, bs_Duplicate = pbp_Duplicate resp, bs_Rejected = pbp_Rejected resp\<rparr>\<rparr>"
  using assms unfolding WalletAdaptor_ProcessTransactionBatch_def batch_request_def [abs_def]
  by (auto split: option.splits if_splits prod.splits sum.splits)

lemma batch_refs_and_report:
  assumes "WalletService_ProcessTransactionBatch ctx request w = (Inr resp, w')"
  shows "report_ok resp" "map ber_Ref (pbp_Results resp) = map ptr_Ref (sort_SliceStable occurs_before (pbr_Transactions request))"
  using batch_loop_report [OF conjunct2 [OF batch_Inr [OF assms]] empty_report] by simp_all

lemma accounts_for_count: "accounts_for 1 n rows errs \<Longrightarrow> 0 \<le> n \<Longrightarrow> int (length rows) + int (length errs) = n"
proof -
  assume "accounts_for 1 n rows errs" "0 \<le> n"
  then have "size (mset (map row_Line rows @ map rer_Line errs)) = size (mset [1..n])" by (simp only: accounts_for_def)
  then show ?thesis using \<open>0 \<le> n\<close> by simp
qed

text \<open>
  C23: The file to ledger chain. When the server answers a batch built from a file, it has applied the
  rows in exactly the order the client printed; every record the reader finds in the file, a malformed
  one included, is counted once, as accepted, duplicate, rejected or local error, and has its own
  number; and the report has one line for each local error and for each rejected row, with its ref.
\<close>

theorem ingest_reports_every_record:
  assumes "ParseCSV bytes None = Some (Parsed rows errs)"
    and "decode_request (BuildRequest (SortRows rows) names) = Some params"
    and "WalletAdaptor_ProcessTransactionBatch ctx params w = (Inr result, w')"
    and "decode answer = Inr (wire_result result)"
    and "s = Summarize decode base (SortRows rows) errs (Some (ok_reply answer))"
  shows "map btr_Ref (pbt_Results result) = map row_Ref (SortRows rows) \<and>
    sm_Accepted s + sm_Duplicates s + sm_Rejected s = sm_Sent s \<and>
    sm_Accepted s + sm_Duplicates s + sm_Rejected s + sm_LocalErrors s = int (length (file_records bytes)) \<and>
    int (length (sm_Rejections s)) = sm_LocalErrors s + sm_Rejected s \<and>
    map rj_Ref (sm_Rejections s) = map rer_Ref errs @
      map btr_Ref (filter (\<lambda>e. btr_Status e = BatchOutcomeRejected) (pbt_Results result)) \<and>
    mset (map row_Line rows @ map rer_Line errs) = mset [1..int (length (file_records bytes))]"
proof -
  note n = ParseCSV_Parsed [OF assms(1)]
  have params: "params = map sent_row (SortRows rows)"
    by (rule decode_rows [OF _ assms(2)]) (use n(2) in \<open>simp add: SortRows_def list_all_iff\<close>)
  obtain user resp where b: "WalletService_ProcessTransactionBatch ctx \<lparr>pbr_Transactions = map (batch_request user) params\<rparr> w = (Inr resp, w')"
    and result: "result = \<lparr>pbt_Results = map (\<lambda>e. \<lparr>btr_Ref = ber_Ref e, btr_Status = ber_Outcome e,
         btr_Reason = ber_Reason e, btr_Balance = ber_Balance e\<rparr>) (pbp_Results resp),
       pbt_Summary = \<lparr>bs_Accepted = pbp_Accepted resp, bs_Duplicate = pbp_Duplicate resp, bs_Rejected = pbp_Rejected resp\<rparr>\<rparr>"
    using assms(3) by (rule adaptor_batch)
  note rep = batch_refs_and_report [OF b]
  have refs: "map ber_Ref (pbp_Results resp) = map row_Ref (SortRows rows)"
    using rep(2) by (simp add: params server_keeps_order [simplified] batch_request_def sent_row_def)
  from arg_cong [OF this, of length] have len: "length (pbp_Results resp) = length rows" by (simp add: SortRows_def)
  have out: "map btr_Ref (pbt_Results result) = map ber_Ref (pbp_Results resp)" by (simp add: result comp_def)
  have rejected: "length (rejected_lines (wire_result result)) = pbp_Rejected resp"
    using rep(1) by (simp add: rejected_lines_def wire_result_def result report_ok_def count_outcome_def
      batch_outcome_defs filter_map comp_def)
  have counts: "sm_Accepted s = int (pbp_Accepted resp)" "sm_Duplicates s = int (pbp_Duplicate resp)"
    "sm_Rejected s = int (pbp_Rejected resp)" "sm_Sent s = int (length rows)" "sm_LocalErrors s = int (length errs)"
    "length (sm_Rejections s) = length errs + length (rejected_lines (wire_result result))"
    unfolding assms(5) Summarize_ok [where decode = decode and result = answer, OF assms(4)] by (simp_all add: wire_result_def result SortRows_def)
  have total: "pbp_Accepted resp + pbp_Duplicate resp + pbp_Rejected resp = length rows" using rep(1) len by (simp add: report_ok_def)
  have all: "length rows + length errs = length (file_records bytes)" using accounts_for_count [OF n(1)] by simp
  have refs_reported: "map rj_Ref (sm_Rejections s) = map rer_Ref errs @
      map btr_Ref (filter (\<lambda>e. btr_Status e = BatchOutcomeRejected) (pbt_Results result))"
    unfolding assms(5) Summarize_ok [where decode = decode and result = answer, OF assms(4)]
    by (simp add: rejected_lines_def wire_result_def filter_map comp_def batch_outcome_defs)
  show ?thesis
  proof (intro conjI)
    show "map btr_Ref (pbt_Results result) = map row_Ref (SortRows rows)" using out refs by simp
    show "sm_Accepted s + sm_Duplicates s + sm_Rejected s = sm_Sent s" unfolding counts total [symmetric] by simp
    show "sm_Accepted s + sm_Duplicates s + sm_Rejected s + sm_LocalErrors s = int (length (file_records bytes))"
      unfolding counts all [symmetric] total [symmetric] by simp
    show "int (length (sm_Rejections s)) = sm_LocalErrors s + sm_Rejected s" unfolding counts rejected by simp
    show "mset (map row_Line rows @ map rer_Line errs) = mset [1..int (length (file_records bytes))]"
      using n(1) by (simp only: accounts_for_def)
  qed (rule refs_reported)
qed

definition sample_file :: string where
  "sample_file = ExpectedHeader @ [newline] @ ''s1,acc,spend,35,2024-01-01T00:00:02Z'' @ [newline] @
     ''x,acc,earn,many,'' @ [newline] @ ''e1,acc,earn,10,2024-01-01T00:00:01.5Z'' @ [newline]"

definition sample_file_rows :: "Row list" where
  "sample_file_rows =
     [\<lparr>row_Line = 1, row_Ref = ''s1'', row_AccountID = ''acc'', row_Kind = ''spend'', row_Points = 35,
       row_OccurredAt = \<lparr>tm_Instant = 63839664002 * second, tm_Offset = 0\<rparr>\<rparr>,
      \<lparr>row_Line = 3, row_Ref = ''e1'', row_AccountID = ''acc'', row_Kind = ''earn'', row_Points = 10,
       row_OccurredAt = \<lparr>tm_Instant = 63839664001 * second + 500000000, tm_Offset = 0\<rparr>\<rparr>]"

lemma sample_file_parsed:
  "ParseCSV sample_file None = Some (Parsed sample_file_rows
     [\<lparr>rer_Line = 2, rer_Ref = ''x'', rer_Reason = ''invalid points: '' @ strconv_Quote ''many''\<rparr>])"
  by code_simp

lemma sample_file_sorted: "SortRows sample_file_rows = rev sample_file_rows"
  by code_simp

lemma sample_file_decoded:
  "decode_request (BuildRequest (rev sample_file_rows) names) = Some (map sent_row (rev sample_file_rows))"
  by (simp add: decode_request_def BuildRequest_def sample_file_rows_def) code_simp

lemma sample_file_served:
  "\<exists>result w'. WalletAdaptor_ProcessTransactionBatch admin_ctx (map sent_row (rev sample_file_rows)) sample_world = (Inr result, w')"
proof -
  let ?request = "\<lparr>pbr_Transactions = map (batch_request ''bob'') (map sent_row (rev sample_file_rows))\<rparr>"
  have "ProcessTransactionBatchRequest_Validate ?request = None"
    by (simp add: valid_simps maxBatchSize_def sample_file_rows_def)
  then obtain resp w' where "WalletService_ProcessTransactionBatch admin_ctx ?request sample_world = (Inr resp, w')"
    using batch_total by blast
  then show ?thesis
    by (simp add: WalletAdaptor_ProcessTransactionBatch_def admin_ctx_def LoginClaimFromContext_def ContextWithLoginClaim_def
        member_claim_def batch_request_def [abs_def] comp_def)
qed

theorem ingest_reports_every_record_witness:
  "\<exists>result w'. WalletAdaptor_ProcessTransactionBatch admin_ctx (map sent_row (rev sample_file_rows)) sample_world = (Inr result, w') \<and>
     map btr_Ref (pbt_Results result) = [''e1'', ''s1'']"
proof -
  obtain result w' where served:
    "WalletAdaptor_ProcessTransactionBatch admin_ctx (map sent_row (rev sample_file_rows)) sample_world = (Inr result, w')"
    using sample_file_served by blast
  have "decode_request (BuildRequest (SortRows sample_file_rows) []) = Some (map sent_row (rev sample_file_rows))"
    unfolding sample_file_sorted by (rule sample_file_decoded)
  from ingest_reports_every_record [where decode = "\<lambda>_. Inr (wire_result result)" and answer = "[]" and base = "''f''",
      OF sample_file_parsed this served refl refl]
  have "map btr_Ref (pbt_Results result) = map row_Ref (rev sample_file_rows)" unfolding sample_file_sorted by simp
  moreover have "map row_Ref (rev sample_file_rows) = [''e1'', ''s1'']" by (simp add: sample_file_rows_def)
  ultimately show ?thesis using served by metis
qed

end
