(* ===== verification/AccountServices.thy ===== *)
theory AccountServices
  imports AccountRepository
begin

text \<open>
  The account service, the account opener and their JSON-RPC adaptors
  (\<open>internal/pkg/accounts/accountServiceImpl.go\<close>, \<open>accountOpenerServiceImpl.go\<close>,
  \<open>pkg/accounts/accountServiceValidations.go\<close>, \<open>accountOpenerValidations.go\<close>,
  \<open>accountServiceJSONRPCAdaptor.go\<close>, \<open>accountOpenerJSONRPCAdaptor.go\<close>). An adaptor takes the user
  from the login claim of the context, never from its parameters, and hides every error that is
  not the caller's behind a fixed message.
\<close>

section \<open>Requests\<close>

record FetchMyAccountsRequest =
  fma_UserID :: string

record ReadAccountRequest =
  rar_UserID :: string
  rar_AccountID :: string

record ReadAccountBalanceRequest =
  rbr_UserID :: string
  rbr_AccountID :: string

record RenameAccountRequest =
  ren_UserID :: string
  ren_AccountID :: string
  ren_Name :: string

record AdjustAccountBalanceRequest =
  abr_UserID :: string
  abr_AccountID :: string
  abr_Delta :: int64

record OpenAccountRequest =
  oar_UserID :: string
  oar_Name :: string

definition FetchMyAccountsRequest_Validate :: "FetchMyAccountsRequest \<Rightarrow> go_error option" where
  "FetchMyAccountsRequest_Validate r = NewValidationError (
     if fma_UserID r = [] then [''UserID is required''] else [])"

definition ReadAccountRequest_Validate :: "ReadAccountRequest \<Rightarrow> go_error option" where
  "ReadAccountRequest_Validate r = NewValidationError (
     (if rar_AccountID r = [] then [''AccountID is required''] else []) @
     (if rar_UserID r = [] then [''UserID is required''] else []))"

definition ReadAccountBalanceRequest_Validate :: "ReadAccountBalanceRequest \<Rightarrow> go_error option" where
  "ReadAccountBalanceRequest_Validate r = NewValidationError (
     (if rbr_AccountID r = [] then [''AccountID is required''] else []) @
     (if rbr_UserID r = [] then [''UserID is required''] else []))"

definition RenameAccountRequest_Validate :: "RenameAccountRequest \<Rightarrow> go_error option" where
  "RenameAccountRequest_Validate r = NewValidationError (
     (if ren_AccountID r = [] then [''AccountID is required''] else []) @
     (if ren_Name r = [] then [''Name is required''] else []) @
     (if ren_UserID r = [] then [''UserID is required''] else []))"

definition AdjustAccountBalanceRequest_Validate :: "AdjustAccountBalanceRequest \<Rightarrow> go_error option" where
  "AdjustAccountBalanceRequest_Validate r = NewValidationError (
     (if abr_AccountID r = [] then [''AccountID is required''] else []) @
     (if abr_Delta r = 0 then [''Delta must be non-zero''] else []) @
     (if abr_UserID r = [] then [''UserID is required''] else []))"

definition OpenAccountRequest_Validate :: "OpenAccountRequest \<Rightarrow> go_error option" where
  "OpenAccountRequest_Validate r = NewValidationError (
     if oar_UserID r = [] then [''UserID is required''] else [])"

section \<open>Services\<close>

definition AccountService_FetchMyAccounts :: "go_context \<Rightarrow> FetchMyAccountsRequest \<Rightarrow> Account list op" where
  "AccountService_FetchMyAccounts ctx request w =
     (case FetchMyAccountsRequest_Validate request of
        Some err \<Rightarrow> (Inl (Wrapped ''invalid request for FetchMyAccounts'' err), w)
      | None \<Rightarrow>
        (case AccountRepository_List ctx \<lparr>lar_UserID = fma_UserID request\<rparr> w of
           (Inl err, w) \<Rightarrow> (Inl (Wrapped ''could not fetch accounts'' err), w)
         | (Inr accs, w) \<Rightarrow> (Inr accs, w)))"

definition AccountService_GetAccountByID :: "go_context \<Rightarrow> ReadAccountRequest \<Rightarrow> Account op" where
  "AccountService_GetAccountByID ctx request w =
     (case ReadAccountRequest_Validate request of
        Some err \<Rightarrow> (Inl (Wrapped ''invalid request for GetAccountByID'' err), w)
      | None \<Rightarrow>
        (case AccountRepository_GetByID ctx
                \<lparr>gar_AccountID = rar_AccountID request, gar_UserID = rar_UserID request\<rparr> w of
           (Inl err, w) \<Rightarrow> (Inl (Wrapped ''could not get account'' err), w)
         | (Inr account, w) \<Rightarrow> (Inr account, w)))"

definition AccountService_GetAccountBalance :: "go_context \<Rightarrow> ReadAccountBalanceRequest \<Rightarrow> int64 op" where
  "AccountService_GetAccountBalance ctx request w =
     (case ReadAccountBalanceRequest_Validate request of
        Some err \<Rightarrow> (Inl (Wrapped ''invalid request for GetAccountBalance'' err), w)
      | None \<Rightarrow>
        (case AccountRepository_GetAccountBalance ctx
                \<lparr>gbr_AccountID = rbr_AccountID request, gbr_UserID = rbr_UserID request\<rparr> w of
           (Inl err, w) \<Rightarrow> (Inl (Wrapped ''could not get account balance'' err), w)
         | (Inr balance, w) \<Rightarrow> (Inr balance, w)))"

definition AccountService_UpdateAccountName :: "go_context \<Rightarrow> RenameAccountRequest \<Rightarrow> Account op" where
  "AccountService_UpdateAccountName ctx request w =
     (case RenameAccountRequest_Validate request of
        Some err \<Rightarrow> (Inl (Wrapped ''invalid request for UpdateAccountName'' err), w)
      | None \<Rightarrow>
        (case AccountRepository_UpdateAccountName ctx
                \<lparr>unr_AccountID = ren_AccountID request, unr_Name = ren_Name request, unr_UserID = ren_UserID request\<rparr> w of
           (Inl err, w) \<Rightarrow> (Inl (Wrapped ''could not update account name'' err), w)
         | (Inr account, w) \<Rightarrow> (Inr account, w)))"

definition AccountService_UpdateAccountBalance :: "go_context \<Rightarrow> AdjustAccountBalanceRequest \<Rightarrow> int64 op" where
  "AccountService_UpdateAccountBalance ctx request w =
     (case AdjustAccountBalanceRequest_Validate request of
        Some err \<Rightarrow> (Inl (Wrapped ''invalid request for UpdateAccountBalance'' err), w)
      | None \<Rightarrow>
        (case AccountRepository_UpdateAccountBalance ctx
                \<lparr>ubr_AccountID = abr_AccountID request, ubr_Delta = abr_Delta request, ubr_UserID = abr_UserID request\<rparr> w of
           (Inl err, w) \<Rightarrow> (Inl (Wrapped ''could not update account balance'' err), w)
         | (Inr balance, w) \<Rightarrow> (Inr balance, w)))"

definition defaultAccountName :: string where
  "defaultAccountName = ''Primary Wallet''"

definition AccountOpener_OpenAccount :: "go_context \<Rightarrow> OpenAccountRequest \<Rightarrow> Account op" where
  "AccountOpener_OpenAccount ctx request w =
     (case OpenAccountRequest_Validate request of
        Some err \<Rightarrow> (Inl (Wrapped ''invalid request for OpenAccount'' err), w)
      | None \<Rightarrow>
        let nm = (if oar_Name request = [] then defaultAccountName else oar_Name request) in
        (case time_Now w of (now, w) \<Rightarrow>
        (case AccountRepository_Create ctx
                \<lparr>car_Account = \<lparr>acc_ID = [], acc_OwnerID = oar_UserID request, acc_Name = nm,
                   acc_Balance = 0, acc_CreatedAt = now\<rparr>\<rparr> w of
           (Inl err, w) \<Rightarrow> (Inl (Wrapped ''could not open account'' err), w)
         | (Inr created, w) \<Rightarrow> (Inr created, w))))"

section \<open>JSON-RPC adaptors\<close>

record GetByIDParams =
  gbp_AccountID :: string

record AccountResult =
  ars_ID :: string
  ars_UserID :: string
  ars_Name :: string
  ars_Balance :: int64
  ars_CreatedAt :: gotime

record BalanceResult =
  brs_AccountID :: string
  brs_Balance :: int64

record UpdateAccountNameParams =
  unp_AccountID :: string
  unp_Name :: string

record UpdateAccountBalanceParams =
  ubp_AccountID :: string
  ubp_Delta :: int64

record OpenAccountParams =
  oap_Name :: string

record OpenAccountResult =
  ors_AccountID :: string
  ors_Name :: string
  ors_OwnerID :: string
  ors_Balance :: int64
  ors_CreatedAt :: gotime

definition account_result :: "Account \<Rightarrow> AccountResult" where
  "account_result account =
     \<lparr>ars_ID = acc_ID account, ars_UserID = acc_OwnerID account, ars_Name = acc_Name account,
      ars_Balance = acc_Balance account, ars_CreatedAt = acc_CreatedAt account\<rparr>"

definition notFoundOrInternal :: "go_error \<Rightarrow> go_error" where
  "notFoundOrInternal err =
     (if errors_Is err ErrNotFound then WithMessage ErrNotFound ''account not found''
      else if errors_Is err ErrInvalidArgument then err
      else WithMessage ErrInternal ''could not retrieve account'')"

definition AccountAdaptor_FetchMyAccounts :: "go_context \<Rightarrow> AccountResult list op" where
  "AccountAdaptor_FetchMyAccounts ctx w =
     (case LoginClaimFromContext ctx of
        None \<Rightarrow> (Inl (Sentinel ErrUnauthorized), w)
      | Some claim \<Rightarrow>
        (case AccountService_FetchMyAccounts ctx \<lparr>fma_UserID = claim_UserID claim\<rparr> w of
           (Inl err, w) \<Rightarrow>
             if errors_Is err ErrInvalidArgument then (Inl err, w)
             else (Inl (WithMessage ErrInternal ''could not retrieve accounts''), w)
         | (Inr accs, w) \<Rightarrow> (Inr (map account_result accs), w)))"

definition AccountAdaptor_GetAccountByID :: "go_context \<Rightarrow> GetByIDParams \<Rightarrow> AccountResult op" where
  "AccountAdaptor_GetAccountByID ctx params w =
     (case LoginClaimFromContext ctx of
        None \<Rightarrow> (Inl (Sentinel ErrUnauthorized), w)
      | Some claim \<Rightarrow>
        (case AccountService_GetAccountByID ctx
                \<lparr>rar_UserID = claim_UserID claim, rar_AccountID = gbp_AccountID params\<rparr> w of
           (Inl err, w) \<Rightarrow> (Inl (notFoundOrInternal err), w)
         | (Inr account, w) \<Rightarrow> (Inr (account_result account), w)))"

definition AccountAdaptor_GetAccountBalance :: "go_context \<Rightarrow> GetByIDParams \<Rightarrow> BalanceResult op" where
  "AccountAdaptor_GetAccountBalance ctx params w =
     (case LoginClaimFromContext ctx of
        None \<Rightarrow> (Inl (Sentinel ErrUnauthorized), w)
      | Some claim \<Rightarrow>
        (case AccountService_GetAccountBalance ctx
                \<lparr>rbr_UserID = claim_UserID claim, rbr_AccountID = gbp_AccountID params\<rparr> w of
           (Inl err, w) \<Rightarrow> (Inl (notFoundOrInternal err), w)
         | (Inr balance, w) \<Rightarrow> (Inr \<lparr>brs_AccountID = gbp_AccountID params, brs_Balance = balance\<rparr>, w)))"

definition AccountAdaptor_UpdateAccountName :: "go_context \<Rightarrow> UpdateAccountNameParams \<Rightarrow> AccountResult op" where
  "AccountAdaptor_UpdateAccountName ctx params w =
     (case LoginClaimFromContext ctx of
        None \<Rightarrow> (Inl (Sentinel ErrUnauthorized), w)
      | Some claim \<Rightarrow>
        (case AccountService_UpdateAccountName ctx
                \<lparr>ren_UserID = claim_UserID claim, ren_AccountID = unp_AccountID params, ren_Name = unp_Name params\<rparr> w of
           (Inl err, w) \<Rightarrow> (Inl (notFoundOrInternal err), w)
         | (Inr account, w) \<Rightarrow> (Inr (account_result account), w)))"

definition AccountAdaptor_UpdateAccountBalance :: "go_context \<Rightarrow> UpdateAccountBalanceParams \<Rightarrow> BalanceResult op" where
  "AccountAdaptor_UpdateAccountBalance ctx params w =
     (case LoginClaimFromContext ctx of
        None \<Rightarrow> (Inl (Sentinel ErrUnauthorized), w)
      | Some claim \<Rightarrow>
        if claim_Role claim \<noteq> RoleAdmin then
          (Inl (WithMessage ErrForbidden ''balance adjustment is admin-only''), w)
        else
        (case AccountService_UpdateAccountBalance ctx
                \<lparr>abr_UserID = claim_UserID claim, abr_AccountID = ubp_AccountID params, abr_Delta = ubp_Delta params\<rparr> w of
           (Inl err, w) \<Rightarrow>
             if errors_Is err ErrInsufficientBalance then
               (Inl (WithMessage ErrInsufficientBalance ''insufficient balance''), w)
             else if errors_Is err ErrNotFound then
               (Inl (WithMessage ErrNotFound ''account not found''), w)
             else if errors_Is err ErrInvalidArgument then (Inl err, w)
             else (Inl (WithMessage ErrInternal ''could not update account balance''), w)
         | (Inr balance, w) \<Rightarrow> (Inr \<lparr>brs_AccountID = ubp_AccountID params, brs_Balance = balance\<rparr>, w)))"

definition OpenerAdaptor_OpenAccount :: "go_context \<Rightarrow> OpenAccountParams \<Rightarrow> OpenAccountResult op" where
  "OpenerAdaptor_OpenAccount ctx params w =
     (case LoginClaimFromContext ctx of
        None \<Rightarrow> (Inl (Sentinel ErrUnauthorized), w)
      | Some claim \<Rightarrow>
        (case AccountOpener_OpenAccount ctx \<lparr>oar_UserID = claim_UserID claim, oar_Name = oap_Name params\<rparr> w of
           (Inl err, w) \<Rightarrow>
             if errors_Is err ErrInvalidArgument then (Inl err, w)
             else (Inl (WithMessage ErrInternal ''could not open account''), w)
         | (Inr account, w) \<Rightarrow>
             (Inr \<lparr>ors_AccountID = acc_ID account, ors_Name = acc_Name account,
                  ors_OwnerID = acc_OwnerID account, ors_Balance = acc_Balance account,
                  ors_CreatedAt = acc_CreatedAt account\<rparr>, w)))"

section \<open>Facts\<close>

lemma account_service_requests_valid [valid_simps]:
  "FetchMyAccountsRequest_Validate r1 = None \<longleftrightarrow> fma_UserID r1 \<noteq> []"
  "ReadAccountRequest_Validate r2 = None \<longleftrightarrow> rar_AccountID r2 \<noteq> [] \<and> rar_UserID r2 \<noteq> []"
  "ReadAccountBalanceRequest_Validate r3 = None \<longleftrightarrow> rbr_AccountID r3 \<noteq> [] \<and> rbr_UserID r3 \<noteq> []"
  "RenameAccountRequest_Validate r4 = None \<longleftrightarrow> ren_AccountID r4 \<noteq> [] \<and> ren_Name r4 \<noteq> [] \<and> ren_UserID r4 \<noteq> []"
  "AdjustAccountBalanceRequest_Validate r5 = None \<longleftrightarrow>
     abr_AccountID r5 \<noteq> [] \<and> abr_Delta r5 \<noteq> 0 \<and> abr_UserID r5 \<noteq> []"
  "OpenAccountRequest_Validate r6 = None \<longleftrightarrow> oar_UserID r6 \<noteq> []"
  by (auto simp: FetchMyAccountsRequest_Validate_def ReadAccountRequest_Validate_def
      ReadAccountBalanceRequest_Validate_def RenameAccountRequest_Validate_def
      AdjustAccountBalanceRequest_Validate_def OpenAccountRequest_Validate_def)

context table_relation
begin

lemma AccountAdaptor_reads_evolve:
  "evolves R ctx w (snd (AccountAdaptor_FetchMyAccounts ctx w))"
  "evolves R ctx w (snd (AccountAdaptor_GetAccountByID ctx p w))"
  "evolves R ctx w (snd (AccountAdaptor_GetAccountBalance ctx p w))"
  unfolding AccountAdaptor_FetchMyAccounts_def AccountAdaptor_GetAccountByID_def
    AccountAdaptor_GetAccountBalance_def AccountService_FetchMyAccounts_def
    AccountService_GetAccountByID_def AccountService_GetAccountBalance_def
  by (intro evolves_rules AccountRepository_reads_evolve)+

lemma AccountAdaptor_UpdateAccountName_evolves:
  "(\<And>aid nm sc T x T'. update_name aid nm sc T = Inr (x, T') \<Longrightarrow> R T T') \<Longrightarrow>
   evolves R ctx w (snd (AccountAdaptor_UpdateAccountName ctx params w))"
  unfolding AccountAdaptor_UpdateAccountName_def AccountService_UpdateAccountName_def
  by (intro evolves_rules AccountRepository_UpdateAccountName_evolves) blast+

lemma AccountAdaptor_UpdateAccountBalance_evolves:
  "(\<And>aid d sc T n T'. update_balance aid d sc T = Inr (n, T') \<Longrightarrow> R T T') \<Longrightarrow>
   evolves R ctx w (snd (AccountAdaptor_UpdateAccountBalance ctx ps w))"
  unfolding AccountAdaptor_UpdateAccountBalance_def AccountService_UpdateAccountBalance_def
  by (intro evolves_rules AccountRepository_UpdateAccountBalance_evolves) blast+

lemma OpenerAdaptor_OpenAccount_evolves:
  "(\<And>row T x T'. insert_account row T = Inr (x, T') \<Longrightarrow> R T T') \<Longrightarrow>
   evolves R ctx w (snd (OpenerAdaptor_OpenAccount ctx op_params w))"
  unfolding OpenerAdaptor_OpenAccount_def AccountOpener_OpenAccount_def Let_def
  by (intro evolves_rules AccountRepository_Create_evolves evolves_time_Now) blast+

end

end
