(* ===== verification/UserRepository.thy ===== *)
theory UserRepository
  imports AccountRepository
begin

text \<open>
  The users and their repository (\<open>pkg/users/user.go\<close>, \<open>userRepository.go\<close>,
  \<open>userRepositoryValidations.go\<close>, \<open>internal/pkg/users/userRepositoryImpl.go\<close>): creation, the reads
  scoped to the caller's own row, and the token version that revokes sessions.
\<close>

section \<open>Data and requests\<close>

record User =
  usr_ID :: string
  usr_Email :: string
  usr_PasswordHash :: string
  usr_Role :: string
  usr_CreatedAt :: gotime
  usr_TokenVersion :: int64

record CreateUserRequest =
  cur_User :: User

record ListUsersRequest =
  lur_UserID :: string

record GetUserByIDRequest =
  gur_ID :: string
  gur_UserID :: string

record GetUserByEmailRequest =
  ger_Email :: string
  ger_UserID :: string

record GetTokenVersionRequest =
  gtv_UserID :: string

record IncrementTokenVersionRequest =
  itv_UserID :: string

definition CreateUserRequest_Validate :: "CreateUserRequest \<Rightarrow> go_error option" where
  "CreateUserRequest_Validate r = NewValidationError (
     (if usr_Email (cur_User r) = [] then [''Email is required''] else []) @
     (if usr_PasswordHash (cur_User r) = [] then [''PasswordHash is required''] else []) @
     (if usr_Role (cur_User r) \<in> set [RoleMember, RoleAdmin] then []
      else [''Role must be '' @ squote ''member'' @ '' or '' @ squote ''admin'']))"

definition GetUserByIDRequest_Validate :: "GetUserByIDRequest \<Rightarrow> go_error option" where
  "GetUserByIDRequest_Validate r = NewValidationError (
     if gur_ID r = [] then [''ID is required''] else [])"

definition GetUserByEmailRequest_Validate :: "GetUserByEmailRequest \<Rightarrow> go_error option" where
  "GetUserByEmailRequest_Validate r = NewValidationError (
     if ger_Email r = [] then [''Email is required''] else [])"

definition ListUsersRequest_Validate :: "ListUsersRequest \<Rightarrow> go_error option" where
  "ListUsersRequest_Validate r = None"

definition GetTokenVersionRequest_Validate :: "GetTokenVersionRequest \<Rightarrow> go_error option" where
  "GetTokenVersionRequest_Validate r =
     (if gtv_UserID r = [] then NewValidationError [''UserID is required''] else None)"

definition IncrementTokenVersionRequest_Validate :: "IncrementTokenVersionRequest \<Rightarrow> go_error option" where
  "IncrementTokenVersionRequest_Validate r =
     (if itv_UserID r = [] then NewValidationError [''UserID is required''] else None)"

section \<open>Statements\<close>

text \<open>\<open>token_version\<close> is not named in the insert: the column default, zero, applies.\<close>

definition insert_user :: "user_row \<Rightarrow> unit stmt" where
  "insert_user row T =
     (if \<not> valid_role (u_role row) then Inl (check_violation ''users'' ''users_role_check'')
      else if list_ex (\<lambda>u. u_id u = u_id row) (users T) then Inl (unique_violation ''users_pkey'')
      else if list_ex (\<lambda>u. u_email u = u_email row) (users T) then Inl (unique_violation ''users_email_key'')
      else Inr ((), T\<lparr>users := users T @ [row\<lparr>u_token_version := 0\<rparr>]\<rparr>))"

definition user_before :: "(string \<Rightarrow> string \<Rightarrow> bool) \<Rightarrow> user_row \<Rightarrow> user_row \<Rightarrow> bool" where
  "user_before le x y \<longleftrightarrow> text_lt le (u_created_at x) (u_created_at y) \<or>
     u_created_at x = u_created_at y \<and> text_lt le (u_id x) (u_id y)"

definition select_users :: "(string \<Rightarrow> string \<Rightarrow> bool) \<Rightarrow> string option \<Rightarrow> user_row list stmt" where
  "select_users le sc T =
     Inr (sort_SliceStable (user_before le) (filter (\<lambda>u. in_scope sc (u_id u)) (users T)), T)"

definition select_user_by_id :: "string \<Rightarrow> string option \<Rightarrow> user_row option stmt" where
  "select_user_by_id uid sc T = Inr (List.find (\<lambda>u. u_id u = uid \<and> in_scope sc (u_id u)) (users T), T)"

definition select_user_by_email :: "string \<Rightarrow> string option \<Rightarrow> user_row option stmt" where
  "select_user_by_email email sc T =
     Inr (List.find (\<lambda>u. u_email u = email \<and> in_scope sc (u_id u)) (users T), T)"

definition select_token_version :: "string \<Rightarrow> int64 option stmt" where
  "select_token_version uid T = Inr (map_option u_token_version (List.find (\<lambda>u. u_id u = uid) (users T)), T)"

definition increment_token_version :: "string \<Rightarrow> int64 option stmt" where
  "increment_token_version uid T =
     (if list_ex (\<lambda>u. u_id u = uid \<and> \<not> fits64 (sint (u_token_version u) + 1)) (users T) then Inl bigint_out_of_range
      else let rows = update_where (\<lambda>u. u_id u = uid) (\<lambda>u. u\<lparr>u_token_version := u_token_version u + 1\<rparr>) (users T)
        in Inr (map_option u_token_version (List.find (\<lambda>u. u_id u = uid) rows), T\<lparr>users := rows\<rparr>))"

section \<open>Operations\<close>

definition user_of_row :: "user_row \<Rightarrow> go_error + User" where
  "user_of_row r =
     (case ParseTime (u_created_at r) of
        Inl err \<Rightarrow> Inl err
      | Inr parsedCreatedAt \<Rightarrow>
          Inr \<lparr>usr_ID = u_id r, usr_Email = u_email r, usr_PasswordHash = u_password_hash r,
               usr_Role = u_role r, usr_CreatedAt = parsedCreatedAt, usr_TokenVersion = u_token_version r\<rparr>)"

definition scanUser :: "go_error + user_row option \<Rightarrow> go_error + User" where
  "scanUser row =
     (case row of
        Inl err \<Rightarrow> Inl (Wrapped ''could not scan user'' err)
      | Inr None \<Rightarrow> Inl SqlNoRows
      | Inr (Some r) \<Rightarrow> user_of_row r)"

primrec scanUsers :: "user_row list \<Rightarrow> go_error + User list" where
  "scanUsers [] = Inr []"
| "scanUsers (r # rows) =
     (case scanUser (Inr (Some r)) of
        Inl err \<Rightarrow> Inl err
      | Inr x \<Rightarrow> (case scanUsers rows of Inl err \<Rightarrow> Inl err | Inr xs \<Rightarrow> Inr (x # xs)))"

definition UserRepository_Create :: "go_context \<Rightarrow> CreateUserRequest \<Rightarrow> User op" where
  "UserRepository_Create ctx request w =
     (case CreateUserRequest_Validate request of
        Some err \<Rightarrow> (Inl (Wrapped ''invalid request for Create'' err), w)
      | None \<Rightarrow>
        let user = cur_User request in
        (case sql_exec ctx
             [usr_ID user, usr_Email user, usr_PasswordHash user, usr_Role user, FormatTime (usr_CreatedAt user)]
             (insert_user \<lparr>u_id = usr_ID user, u_email = usr_Email user, u_password_hash = usr_PasswordHash user,
                u_role = usr_Role user, u_created_at = FormatTime (usr_CreatedAt user), u_token_version = 0\<rparr>) w of
           (Inl err, w) \<Rightarrow>
             if IsUniqueConstraintViolation err then
               (Inl (Wrapped (''user '' @ usr_ID user) (Sentinel ErrAlreadyExists)), w)
             else (Inl (Wrapped ''could not insert user'' err), w)
         | (Inr _, w) \<Rightarrow> (Inr user, w)))"

definition UserRepository_List :: "go_context \<Rightarrow> ListUsersRequest \<Rightarrow> User list op" where
  "UserRepository_List ctx request w =
     (case ListUsersRequest_Validate request of
        Some err \<Rightarrow> (Inl (Wrapped ''invalid request for List'' err), w)
      | None \<Rightarrow>
        let sc = scope_arg ctx PermUserReadAll (lur_UserID request) in
        (case sql_exec ctx (scope_args sc) (select_users (env_text_le (w_env w)) sc) w of
           (Inl err, w) \<Rightarrow> (Inl (Wrapped ''could not query users'' err), w)
         | (Inr rows, w) \<Rightarrow>
             (case fetch_rows ctx rows w of ((rows, iterErr), w) \<Rightarrow>
                (case scanUsers rows of
                   Inl err \<Rightarrow> (Inl err, w)
                 | Inr us \<Rightarrow>
                     (case iterErr of
                        Some err \<Rightarrow> (Inl (Wrapped ''could not iterate users'' err), w)
                      | None \<Rightarrow> (Inr us, w))))))"

definition UserRepository_GetByID :: "go_context \<Rightarrow> GetUserByIDRequest \<Rightarrow> User op" where
  "UserRepository_GetByID ctx request w =
     (case GetUserByIDRequest_Validate request of
        Some err \<Rightarrow> (Inl (Wrapped ''invalid request for GetByID'' err), w)
      | None \<Rightarrow>
        let sc = scope_arg ctx PermUserReadAll (gur_UserID request) in
        (case sql_exec ctx (gur_ID request # scope_args sc) (select_user_by_id (gur_ID request) sc) w of
           (row, w) \<Rightarrow>
             (case scanUser row of
                Inl err \<Rightarrow>
                  if errors_Is_NoRows err then
                    (Inl (Wrapped (''user '' @ gur_ID request) (Sentinel ErrNotFound)), w)
                  else (Inl err, w)
              | Inr user \<Rightarrow> (Inr user, w))))"

definition UserRepository_GetByEmail :: "go_context \<Rightarrow> GetUserByEmailRequest \<Rightarrow> User op" where
  "UserRepository_GetByEmail ctx request w =
     (case GetUserByEmailRequest_Validate request of
        Some err \<Rightarrow> (Inl (Wrapped ''invalid request for GetByEmail'' err), w)
      | None \<Rightarrow>
        let sc = (if \<not> IsGranted ctx PermUserReadAll \<and> ger_UserID request \<noteq> RootUserID
                  then Some (ger_UserID request) else None) in
        (case sql_exec ctx (ger_Email request # scope_args sc) (select_user_by_email (ger_Email request) sc) w of
           (row, w) \<Rightarrow>
             (case scanUser row of
                Inl err \<Rightarrow>
                  if errors_Is_NoRows err then
                    (Inl (Wrapped (''user '' @ ger_Email request) (Sentinel ErrNotFound)), w)
                  else (Inl err, w)
              | Inr user \<Rightarrow> (Inr user, w))))"

definition UserRepository_GetTokenVersion :: "go_context \<Rightarrow> GetTokenVersionRequest \<Rightarrow> int64 op" where
  "UserRepository_GetTokenVersion ctx request w =
     (case GetTokenVersionRequest_Validate request of
        Some err \<Rightarrow> (Inl (Wrapped ''invalid request for GetTokenVersion'' err), w)
      | None \<Rightarrow>
        (case sql_exec ctx [gtv_UserID request] (select_token_version (gtv_UserID request)) w of
           (Inr None, w) \<Rightarrow> (Inl (Wrapped (''user '' @ gtv_UserID request) (Sentinel ErrNotFound)), w)
         | (Inl err, w) \<Rightarrow> (Inl (Wrapped ''could not read token version'' err), w)
         | (Inr (Some version), w) \<Rightarrow> (Inr version, w)))"

definition UserRepository_IncrementTokenVersion :: "go_context \<Rightarrow> IncrementTokenVersionRequest \<Rightarrow> int64 op" where
  "UserRepository_IncrementTokenVersion ctx request w =
     (case IncrementTokenVersionRequest_Validate request of
        Some err \<Rightarrow> (Inl (Wrapped ''invalid request for IncrementTokenVersion'' err), w)
      | None \<Rightarrow>
        (case sql_exec ctx [itv_UserID request] (increment_token_version (itv_UserID request)) w of
           (Inr None, w) \<Rightarrow> (Inl (Wrapped (''user '' @ itv_UserID request) (Sentinel ErrNotFound)), w)
         | (Inl err, w) \<Rightarrow> (Inl (Wrapped ''could not increment token version'' err), w)
         | (Inr (Some version), w) \<Rightarrow> (Inr version, w)))"

section \<open>Facts\<close>

lemma user_requests_valid [valid_simps]:
  "CreateUserRequest_Validate r = None \<longleftrightarrow> usr_Email (cur_User r) \<noteq> [] \<and> usr_PasswordHash (cur_User r) \<noteq> [] \<and>
     usr_Role (cur_User r) \<in> {RoleMember, RoleAdmin}"
  "GetUserByIDRequest_Validate r1 = None \<longleftrightarrow> gur_ID r1 \<noteq> []"
  "GetUserByEmailRequest_Validate r2 = None \<longleftrightarrow> ger_Email r2 \<noteq> []"
  "GetTokenVersionRequest_Validate r3 = None \<longleftrightarrow> gtv_UserID r3 \<noteq> []"
  "IncrementTokenVersionRequest_Validate r4 = None \<longleftrightarrow> itv_UserID r4 \<noteq> []"
  by (auto simp: CreateUserRequest_Validate_def GetUserByIDRequest_Validate_def
      GetUserByEmailRequest_Validate_def GetTokenVersionRequest_Validate_def
      IncrementTokenVersionRequest_Validate_def)

lemma user_reads_frame:
  "select_users le sc T = Inr (x1, T') \<Longrightarrow> T' = T"
  "select_user_by_id uid sc T = Inr (x2, T') \<Longrightarrow> T' = T"
  "select_user_by_email email sc T = Inr (x3, T') \<Longrightarrow> T' = T"
  "select_token_version uid T = Inr (x4, T') \<Longrightarrow> T' = T"
  by (simp_all add: select_users_def select_user_by_id_def select_user_by_email_def select_token_version_def)

lemma durable_usersI:
  assumes ok: "users_ok T \<Longrightarrow> users_ok (T\<lparr>users := us\<rparr>)"
    and ids: "grows (map user_identity (users T)) (map user_identity us)"
  shows "durable T (T\<lparr>users := us\<rparr>)"
proof -
  have "fst ` set (map user_identity (users T)) \<subseteq> fst ` set (map user_identity us)"
    using grows_set [OF ids] by (rule image_mono)
  then have "set (map u_id (users T)) \<subseteq> set (map u_id us)"
    by (simp add: image_image user_identity_def)
  then have "accounts_ok T \<Longrightarrow> accounts_ok (T\<lparr>users := us\<rparr>)" "transactions_ok T \<Longrightarrow> transactions_ok (T\<lparr>users := us\<rparr>)"
    by (auto simp: transactions_ok_def accounts_ok_def list_all_iff)
  then show ?thesis
    using ok ids by (simp add: durable_def schema_ok_def audit_ok_def)
qed

lemma insert_user_Inr:
  "insert_user row T = Inr (x, T') \<longleftrightarrow> valid_role (u_role row) \<and> u_id row \<notin> u_id ` set (users T) \<and>
     u_email row \<notin> u_email ` set (users T) \<and> T' = T\<lparr>users := users T @ [row\<lparr>u_token_version := 0\<rparr>]\<rparr>"
  by (auto simp: insert_user_def list_ex_key)

lemma insert_user_Inl: "insert_user row T = Inl e \<Longrightarrow> driver_error e"
  by (auto simp: insert_user_def split: if_splits)

lemma insert_user_durable: "insert_user row T = Inr (x, T') \<Longrightarrow> durable T T'"
  by (auto simp: insert_user_Inr users_ok_def intro!: durable_usersI)

lemma increment_durable: "increment_token_version uid T = Inr (x, T') \<Longrightarrow> durable T T'"
  by (auto simp: increment_token_version_def Let_def user_identity_def users_ok_def list_all_iff
      set_update_where intro!: durable_usersI split: if_splits)

context table_relation
begin

lemma UserRepository_reads_evolve:
  "evolves R ctx w (snd (UserRepository_List ctx r1 w))"
  "evolves R ctx w (snd (UserRepository_GetByID ctx r2 w))"
  "evolves R ctx w (snd (UserRepository_GetByEmail ctx r3 w))"
  "evolves R ctx w (snd (UserRepository_GetTokenVersion ctx r4 w))"
  unfolding UserRepository_List_def UserRepository_GetByID_def UserRepository_GetByEmail_def
    UserRepository_GetTokenVersion_def Let_def
  by (intro evolves_rules evolves_read evolves_fetch; blast dest: user_reads_frame)+

lemma UserRepository_Create_evolves:
  "(\<And>row T x T'. insert_user row T = Inr (x, T') \<Longrightarrow> R T T') \<Longrightarrow>
   evolves R ctx w (snd (UserRepository_Create ctx request w))"
  unfolding UserRepository_Create_def Let_def by (intro evolves_rules evolves_sql_exec) blast+

lemma UserRepository_IncrementTokenVersion_evolves:
  "(\<And>uid T x T'. increment_token_version uid T = Inr (x, T') \<Longrightarrow> R T T') \<Longrightarrow>
   evolves R ctx w (snd (UserRepository_IncrementTokenVersion ctx request w))"
  unfolding UserRepository_IncrementTokenVersion_def by (intro evolves_rules evolves_sql_exec) blast+

end

interpretation user_lookup: scoped_lookup select_user_by_id users u_id u_id "\<lambda>r. r"
  by unfold_locales (simp add: select_user_by_id_def option.map_ident)

interpretation email_lookup: scoped_lookup select_user_by_email users u_email u_id "\<lambda>r. r"
  by unfold_locales (simp add: select_user_by_email_def option.map_ident)

lemma scanUser_Inr: "scanUser row = Inr a \<longleftrightarrow> (\<exists>r. row = Inr (Some r) \<and> user_of_row r = Inr a)"
  by (auto simp: scanUser_def split: sum.splits option.splits)

lemma user_of_row_Inr: "user_of_row r = Inr u \<Longrightarrow>
    usr_ID u = u_id r \<and> usr_Email u = u_email r \<and> usr_PasswordHash u = u_password_hash r \<and>
    usr_Role u = u_role r \<and> usr_TokenVersion u = u_token_version r"
  by (auto simp: user_of_row_def split: sum.splits)

lemma UserRepository_GetByEmail_Inr:
  assumes "UserRepository_GetByEmail ctx req w = (Inr u, w')" "connected ctx w"
  shows "moved ctx w w' \<and> view ctx w' = view ctx w \<and>
    (\<exists>r \<in> set (users (view ctx w)). u_email r = ger_Email req \<and> user_of_row r = Inr u)"
  using assms
  by (auto simp: UserRepository_GetByEmail_def Let_def scanUser_Inr
      split: option.splits prod.splits sum.splits if_splits
      dest!: sql_exec_InrD email_lookup.select_Some)

lemma UserRepository_GetTokenVersion_Inr:
  assumes "UserRepository_GetTokenVersion ctx req w = (Inr n, w')" "connected ctx w"
  shows "moved ctx w w' \<and> view ctx w' = view ctx w \<and>
    (\<exists>r \<in> set (users (view ctx w)). u_id r = gtv_UserID req \<and> u_token_version r = n)"
  using assms
  by (clarsimp simp: UserRepository_GetTokenVersion_def select_token_version_def
      split: option.splits prod.splits sum.splits
      dest!: sql_exec_InrD find_Some_filter) blast

lemma increment_token_version_Inr:
  assumes "increment_token_version uid T = Inr (Some n, T')"
  shows "(\<exists>r \<in> set (users T). u_id r = uid \<and> sint n = sint (u_token_version r) + 1 \<and> n = u_token_version r + 1) \<and>
    T' = T\<lparr>users := update_where (\<lambda>u. u_id u = uid) (\<lambda>u. u\<lparr>u_token_version := u_token_version u + 1\<rparr>) (users T)\<rparr>"
proof -
  let ?inc = "\<lambda>u. u\<lparr>u_token_version := u_token_version u + 1\<rparr>"
  have fits: "\<And>u. u \<in> set (users T) \<Longrightarrow> u_id u = uid \<Longrightarrow> fits64 (sint (u_token_version u) + 1)"
    and T': "T' = T\<lparr>users := update_where (\<lambda>u. u_id u = uid) ?inc (users T)\<rparr>"
    and n: "map_option (\<lambda>r. u_token_version (if u_id r = uid then ?inc r else r)) (List.find (\<lambda>u. u_id u = uid) (users T)) = Some n"
    using assms by (auto simp: increment_token_version_def Let_def find_update_where list_ex_iff option.map_comp o_def
        split: if_splits)
  from n obtain z where z: "List.find (\<lambda>u. u_id u = uid) (users T) = Some z" and nz: "u_token_version (if u_id z = uid then ?inc z else z) = n"
    by auto
  have "u_id z = uid" "z \<in> set (users T)" using find_Some_filter [OF z] by auto
  moreover have "sint (u_token_version z + 1) = sint (u_token_version z) + sint (1 :: int64)"
    using fits [of z] calculation by (intro sint_add_fits) simp
  ultimately show ?thesis using nz T' by auto
qed

lemma UserRepository_IncrementTokenVersion_Inr:
  assumes "UserRepository_IncrementTokenVersion ctx req w = (Inr n, w')" "connected ctx w"
  shows "moved ctx w w' \<and> increment_token_version (itv_UserID req) (view ctx w) = Inr (Some n, view ctx w')"
  using assms
  by (auto simp: UserRepository_IncrementTokenVersion_def
      split: option.splits prod.splits sum.splits dest!: sql_exec_InrD)

lemma UserRepository_Create_Inr:
  assumes "UserRepository_Create ctx req w = (Inr u, w')" "connected ctx w"
  shows "moved ctx w w' \<and> u = cur_User req \<and>
    insert_user \<lparr>u_id = usr_ID u, u_email = usr_Email u, u_password_hash = usr_PasswordHash u,
      u_role = usr_Role u, u_created_at = FormatTime (usr_CreatedAt u), u_token_version = 0\<rparr> (view ctx w) =
      Inr ((), view ctx w')"
  using assms
  by (auto simp: UserRepository_Create_def Let_def
      split: option.splits prod.splits sum.splits if_splits dest!: sql_exec_InrD)

end
