(* ===== verification/Authentication.thy ===== *)
theory Authentication
  imports UserRepository
begin

text \<open>
  Access tokens, login and logout (\<open>internal/pkg/authentication\<close>, \<open>pkg/authentication\<close>). A token is a
  signed login claim that carries the user's token version at issue time; validation compares it
  with the stored version, and logout increments that version. The signature and password hash
  libraries and the JSON codec of the claim are the parameter \<open>crypto\<close>; \<open>crypto_ok\<close> is what the
  code relies on: what was signed verifies, what was marshalled unmarshals, what was hashed
  compares equal, and a hash is non-empty text without NUL.
\<close>

section \<open>The cryptographic parameters\<close>

text \<open>
  \<open>bcrypt_Generate n p\<close> hashes \<open>p\<close> with the \<open>n\<close>-th random salt. \<open>'s\<close> is the signed object of the
  JOSE library; the signer and the public key are fixed when the service is built.
\<close>

record 's crypto =
  bcrypt_Generate :: "nat \<Rightarrow> string \<Rightarrow> go_error + string"
  bcrypt_Compare :: "string \<Rightarrow> string \<Rightarrow> bool"
  json_MarshalClaim :: "LoginClaim \<Rightarrow> go_error + string"
  json_UnmarshalClaim :: "string \<Rightarrow> go_error + LoginClaim"
  jose_Sign :: "string \<Rightarrow> go_error + 's"
  jose_CompactSerialize :: "'s \<Rightarrow> go_error + string"
  jose_ParseSigned :: "string \<Rightarrow> go_error + 's"
  jose_Verify :: "'s \<Rightarrow> go_error + string"

text \<open>
  JSON strings are UTF-8, and bytes that are not come back replaced: the round trip of a claim is promised
  for its numbers, and for each text that is ASCII.
\<close>

definition ascii :: "string \<Rightarrow> bool" where
  "ascii s \<longleftrightarrow> list_all (\<lambda>c. (of_char c :: nat) < 128) s"

definition ascii_claim :: "LoginClaim \<Rightarrow> bool" where
  "ascii_claim c \<longleftrightarrow> ascii (claim_UserID c) \<and> ascii (claim_LastName c) \<and> ascii (claim_Email c) \<and>
     ascii (claim_Role c) \<and> list_all ascii (claim_Permissions c)"

section \<open>Data and requests\<close>

record IssueAccessTokenRequest =
  iat_LoginClaim :: LoginClaim

record ValidateAccessTokenRequest =
  vat_AccessToken :: string

record EmailPasswordAuthenticatorRequest =
  epa_Email :: string
  epa_Password :: string

record EmailPasswordAuthenticatorResponse =
  ear_Token :: string
  ear_UserID :: string
  ear_Email :: string

record LogoutRequest =
  lor_UserID :: string

definition EmailPasswordAuthenticatorRequest_Validate ::
  "EmailPasswordAuthenticatorRequest \<Rightarrow> go_error option" where
  "EmailPasswordAuthenticatorRequest_Validate r = NewValidationError (
     (if epa_Email r = [] then [''Email is required''] else []) @
     (if epa_Password r = [] then [''Password is required''] else []))"

definition LogoutRequest_Validate :: "LogoutRequest \<Rightarrow> go_error option" where
  "LogoutRequest_Validate r =
     (if lor_UserID r = [] then Some (Plain ''validation failed: UserID is required'') else None)"

section \<open>Access tokens\<close>

definition IssueAccessToken :: "'s crypto \<Rightarrow> IssueAccessTokenRequest \<Rightarrow> go_error + string" where
  "IssueAccessToken cr request =
     (case json_MarshalClaim cr (iat_LoginClaim request) of
        Inl err \<Rightarrow> Inl (Wrapped ''IssueAccessToken failed: could not marshal claims'' err)
      | Inr claimsPayload \<Rightarrow>
        (case jose_Sign cr claimsPayload of
           Inl err \<Rightarrow> Inl (Wrapped ''IssueAccessToken failed: could not sign payload'' err)
         | Inr signedObj \<Rightarrow>
           (case jose_CompactSerialize cr signedObj of
              Inl err \<Rightarrow> Inl (Wrapped ''IssueAccessToken failed: could not serialize token'' err)
            | Inr signedJWT \<Rightarrow> Inr signedJWT)))"

text \<open>What the code relies on; the errors of the libraries carry none of the program's sentinels.\<close>

definition crypto_ok :: "'s crypto \<Rightarrow> bool" where
  "crypto_ok cr \<longleftrightarrow>
     (\<forall>n p h. bcrypt_Generate cr n p = Inr h \<longrightarrow> bcrypt_Compare cr h p \<and> h \<noteq> [] \<and> clean h) \<and>
     (\<forall>c s. json_MarshalClaim cr c = Inr s \<longrightarrow> (\<exists>c'. json_UnmarshalClaim cr s = Inr c' \<and>
        claim_TokenVersion c' = claim_TokenVersion c \<and> (ascii (claim_UserID c) \<longrightarrow> claim_UserID c' = claim_UserID c) \<and>
        (ascii_claim c \<longrightarrow> c' = c))) \<and>
     (\<forall>p obj t. jose_Sign cr p = Inr obj \<longrightarrow> jose_CompactSerialize cr obj = Inr t \<longrightarrow>
        (\<exists>parsed. jose_ParseSigned cr t = Inr parsed \<and> jose_Verify cr parsed = Inr p)) \<and>
     (\<forall>rq e. IssueAccessToken cr rq = Inl e \<longrightarrow> (\<forall>s. \<not> errors_Is e s))"

definition ValidateAccessToken ::
  "'s crypto \<Rightarrow> go_context \<Rightarrow> ValidateAccessTokenRequest \<Rightarrow> LoginClaim op" where
  "ValidateAccessToken cr ctx request w =
     (case jose_ParseSigned cr (vat_AccessToken request) of
        Inl err \<Rightarrow> (Inl (Wrapped ''ValidateAccessToken failed: could not parse token'' err), w)
      | Inr sigObj \<Rightarrow>
        (case jose_Verify cr sigObj of
           Inl err \<Rightarrow> (Inl (Wrapped ''ValidateAccessToken failed: could not verify token signature'' err), w)
         | Inr payload \<Rightarrow>
           (case json_UnmarshalClaim cr payload of
              Inl err \<Rightarrow> (Inl (Wrapped ''ValidateAccessToken failed: could not unmarshal claims'' err), w)
            | Inr claim \<Rightarrow>
              (case time_Now w of (now, w) \<Rightarrow>
                 if Unix now > claim_ExpirationTime claim then
                   (Inl (Plain ''ValidateAccessToken failed: token has expired''), w)
                 else
                 (case UserRepository_GetTokenVersion ctx \<lparr>gtv_UserID = claim_UserID claim\<rparr> w of
                    (Inl err, w) \<Rightarrow>
                      (Inl (Wrapped ''ValidateAccessToken failed: could not read token version'' err), w)
                  | (Inr version, w) \<Rightarrow>
                      if claim_TokenVersion claim \<noteq> version then
                        (Inl (Plain ''ValidateAccessToken failed: token has been revoked''), w)
                      else (Inr claim, w))))))"

section \<open>Login\<close>

definition accessTokenTTL :: int where "accessTokenTTL = hour"

definition Authenticate ::
  "'s crypto \<Rightarrow> go_context \<Rightarrow> EmailPasswordAuthenticatorRequest \<Rightarrow> EmailPasswordAuthenticatorResponse op" where
  "Authenticate cr ctx request w =
     (case EmailPasswordAuthenticatorRequest_Validate request of
        Some err \<Rightarrow> (Inl (Wrapped ''invalid request for Authenticate'' err), w)
      | None \<Rightarrow>
        (case UserRepository_GetByEmail ctx \<lparr>ger_Email = epa_Email request, ger_UserID = RootUserID\<rparr> w of
           (Inl err, w) \<Rightarrow>
             if errors_Is err ErrNotFound then (Inl (Sentinel ErrUnauthorized), w)
             else (Inl (Wrapped ''could not retrieve user by email'' err), w)
         | (Inr user, w) \<Rightarrow>
             if \<not> bcrypt_Compare cr (usr_PasswordHash user) (epa_Password request) then
               (Inl (Sentinel ErrUnauthorized), w)
             else
             (case time_Now w of (now, w) \<Rightarrow>
               (case IssueAccessToken cr \<lparr>iat_LoginClaim =
                       \<lparr>claim_UserID = usr_ID user, claim_ExpirationTime = Unix (now + accessTokenTTL),
                        claim_LastName = [], claim_Email = usr_Email user, claim_Role = usr_Role user,
                        claim_Permissions = PermissionsForRole (usr_Role user),
                        claim_TokenVersion = usr_TokenVersion user\<rparr>\<rparr> of
                  Inl err \<Rightarrow> (Inl (Wrapped ''could not issue access token'' err), w)
                | Inr token \<Rightarrow>
                    (Inr \<lparr>ear_Token = token, ear_UserID = usr_ID user, ear_Email = usr_Email user\<rparr>, w)))))"

definition LoginAdaptor_Login ::
  "'s crypto \<Rightarrow> go_context \<Rightarrow> EmailPasswordAuthenticatorRequest \<Rightarrow> EmailPasswordAuthenticatorResponse op" where
  "LoginAdaptor_Login cr ctx request w =
     (case Authenticate cr ctx request w of
        (Inl err, w) \<Rightarrow> (Inl (WithMessage ErrUnauthorized ''invalid credentials''), w)
      | (Inr authResp, w) \<Rightarrow> (Inr authResp, w))"

section \<open>Logout\<close>

definition LogoutService_Logout :: "go_context \<Rightarrow> LogoutRequest \<Rightarrow> int64 op" where
  "LogoutService_Logout ctx request w =
     (case LogoutRequest_Validate request of
        Some err \<Rightarrow> (Inl (Wrapped ''invalid request for Logout'' err), w)
      | None \<Rightarrow>
        (case UserRepository_IncrementTokenVersion ctx \<lparr>itv_UserID = lor_UserID request\<rparr> w of
           (Inl err, w) \<Rightarrow> (Inl (Wrapped ''could not revoke tokens'' err), w)
         | (Inr version, w) \<Rightarrow> (Inr version, w)))"

definition LogoutAdaptor_Logout :: "go_context \<Rightarrow> bool op" where
  "LogoutAdaptor_Logout ctx w =
     (case LoginClaimFromContext ctx of
        None \<Rightarrow> (Inl (Sentinel ErrUnauthorized), w)
      | Some claim \<Rightarrow>
        (case LogoutService_Logout ctx \<lparr>lor_UserID = claim_UserID claim\<rparr> w of
           (Inl err, w) \<Rightarrow> (Inl (WithMessage ErrInternal ''could not log out''), w)
         | (Inr version, w) \<Rightarrow> (Inr True, w)))"

section \<open>Facts\<close>

lemma auth_requests_valid [valid_simps]:
  "EmailPasswordAuthenticatorRequest_Validate r1 = None \<longleftrightarrow> epa_Email r1 \<noteq> [] \<and> epa_Password r1 \<noteq> []"
  "LogoutRequest_Validate r2 = None \<longleftrightarrow> lor_UserID r2 \<noteq> []"
  by (auto simp: EmailPasswordAuthenticatorRequest_Validate_def LogoutRequest_Validate_def)

context table_relation
begin

lemma ValidateAccessToken_evolves: "evolves R ctx w (snd (ValidateAccessToken cr ctx rq w))"
  unfolding ValidateAccessToken_def by (intro evolves_rules evolves_time_Now UserRepository_reads_evolve)

lemma Authenticate_evolves: "evolves R ctx w (snd (Authenticate cr ctx rq w))"
  unfolding Authenticate_def by (intro evolves_rules evolves_time_Now UserRepository_reads_evolve)

lemma LoginAdaptor_Login_evolves: "evolves R ctx w (snd (LoginAdaptor_Login cr ctx rq w))"
  unfolding LoginAdaptor_Login_def by (intro evolves_rules Authenticate_evolves)

lemma Logout_evolves:
  assumes "\<And>uid T x T'. increment_token_version uid T = Inr (x, T') \<Longrightarrow> R T T'"
  shows "evolves R ctx w (snd (LogoutService_Logout ctx lr w))" "evolves R ctx w (snd (LogoutAdaptor_Logout ctx w))"
  unfolding LogoutAdaptor_Logout_def LogoutService_Logout_def
  by (intro evolves_rules UserRepository_IncrementTokenVersion_evolves assms; assumption)+

end

text \<open>A token decodes to the claim it was issued for.\<close>

definition decodes :: "'s crypto \<Rightarrow> string \<Rightarrow> LoginClaim \<Rightarrow> bool" where
  "decodes cr token claim \<longleftrightarrow> (\<exists>sigObj payload. jose_ParseSigned cr token = Inr sigObj \<and>
     jose_Verify cr sigObj = Inr payload \<and> json_UnmarshalClaim cr payload = Inr claim)"

lemma decodes_unique: "decodes cr t c \<Longrightarrow> decodes cr t c' \<Longrightarrow> c = c'"
  by (auto simp: decodes_def)

lemma IssueAccessToken_decodes:
  assumes "IssueAccessToken cr rq = Inr token" "crypto_ok cr" "ascii (claim_UserID (iat_LoginClaim rq))"
  shows "\<exists>claim. decodes cr token claim \<and> claim_UserID claim = claim_UserID (iat_LoginClaim rq) \<and>
    claim_TokenVersion claim = claim_TokenVersion (iat_LoginClaim rq)"
proof -
  obtain s obj where "json_MarshalClaim cr (iat_LoginClaim rq) = Inr s" "jose_Sign cr s = Inr obj"
    "jose_CompactSerialize cr obj = Inr token"
    using assms(1) by (auto simp: IssueAccessToken_def split: sum.splits)
  then show ?thesis using assms(2,3) unfolding crypto_ok_def decodes_def by metis
qed

lemma ValidateAccessToken_Inr:
  assumes "ValidateAccessToken cr ctx rq w = (Inr claim, w')" "connected ctx w"
  shows "view ctx w' = view ctx w \<and> decodes cr (vat_AccessToken rq) claim \<and>
    Unix (env_Now (w_env w) (w_ticks w)) \<le> claim_ExpirationTime claim \<and>
    (\<exists>r \<in> set (users (view ctx w)). u_id r = claim_UserID claim \<and> u_token_version r = claim_TokenVersion claim)"
proof -
  have ticks: "connected ctx (w\<lparr>w_ticks := n\<rparr>) = connected ctx w" for n by (simp add: connected_def)
  from assms show ?thesis
    by (auto simp: ValidateAccessToken_def decodes_def time_Now_def ticks
        split: sum.splits prod.splits if_splits dest!: UserRepository_GetTokenVersion_Inr)
qed

definition login_claim :: "user_row \<Rightarrow> gotime \<Rightarrow> LoginClaim" where
  "login_claim r now = \<lparr>claim_UserID = u_id r, claim_ExpirationTime = Unix (now + accessTokenTTL),
     claim_LastName = [], claim_Email = u_email r, claim_Role = u_role r,
     claim_Permissions = PermissionsForRole (u_role r), claim_TokenVersion = u_token_version r\<rparr>"

lemma Authenticate_Inr:
  assumes "Authenticate cr ctx rq w = (Inr resp, w')" "connected ctx w"
  shows "view ctx w' = view ctx w \<and>
    (\<exists>r \<in> set (users (view ctx w)). \<exists>now. u_email r = epa_Email rq \<and>
       bcrypt_Compare cr (u_password_hash r) (epa_Password rq) \<and> ear_UserID resp = u_id r \<and>
       ear_Email resp = u_email r \<and> IssueAccessToken cr \<lparr>iat_LoginClaim = login_claim r now\<rparr> = Inr (ear_Token resp))"
  using assms
  by (clarsimp simp: Authenticate_def login_claim_def time_Now_def
      split: option.splits sum.splits prod.splits if_splits
      dest!: UserRepository_GetByEmail_Inr) (drule user_of_row_Inr, erule bexI [rotated], auto)

end
