(* ===== verification/Registration.thy ===== *)
theory Registration
  imports Authentication
begin

text \<open>
  Sign-up (\<open>pkg/users/userRegistrationService*.go\<close>, \<open>internal/pkg/users/userRegistrationServiceImpl.go\<close>):
  the request validation, the unit of work that inserts the user and their first account, and the
  token that logs the new user in.
\<close>

section \<open>The service\<close>

record RegisterRequest =
  rrq_Email :: string
  rrq_Password :: string
  rrq_Name :: string
  rrq_AccountName :: string

record RegisterResponse =
  rrs_Token :: string
  rrs_UserID :: string
  rrs_AccountID :: string
  rrs_Email :: string

definition minPasswordLength :: nat where "minPasswordLength = 8"

definition RegisterRequest_Validate :: "RegisterRequest \<Rightarrow> go_error option" where
  "RegisterRequest_Validate r = NewValidationError (
     (if rrq_Email r = [] then [''Email is required'']
      else if \<not> strings_ContainsByte (rrq_Email r) CHR ''@'' then [''Email must be a valid email address'']
      else []) @
     (if rrq_Password r = [] then [''Password is required'']
      else if length (rrq_Password r) < minPasswordLength then
        [''Password must be at least '' @ strconv_Itoa (int minPasswordLength) @ '' characters'']
      else []) @
     (if rrq_Name r = [] then [''Name is required''] else []))"

definition registrationTokenTTL :: int where "registrationTokenTTL = hour"
definition defaultAccountName :: string where "defaultAccountName = ''Primary Wallet''"

text \<open>\<open>bcrypt.GenerateFromPassword\<close> draws its salt from the random source that also feeds the UUIDs.\<close>

definition bcrypt_GenerateFromPassword :: "'s crypto \<Rightarrow> string \<Rightarrow> string op" where
  "bcrypt_GenerateFromPassword cr password w =
     (bcrypt_Generate cr (w_uuids w) password, w\<lparr>w_uuids := Suc (w_uuids w)\<rparr>)"

definition register_unit :: "User \<Rightarrow> string \<Rightarrow> go_context \<Rightarrow> string op" where
  "register_unit user accountName ctx w =
     (case UserRepository_Create ctx \<lparr>cur_User = user\<rparr> w of
        (Inl err, w) \<Rightarrow> (Inl err, w)
      | (Inr _, w) \<Rightarrow>
        (case time_Now w of (now, w) \<Rightarrow>
          (case AccountRepository_Create ctx
                  \<lparr>car_Account = \<lparr>acc_ID = [], acc_OwnerID = usr_ID user, acc_Name = accountName,
                     acc_Balance = 0, acc_CreatedAt = now\<rparr>\<rparr> w of
             (Inl err, w) \<Rightarrow> (Inl err, w)
           | (Inr account, w) \<Rightarrow> (Inr (acc_ID account), w))))"

definition Register :: "'s crypto \<Rightarrow> go_context \<Rightarrow> RegisterRequest \<Rightarrow> RegisterResponse op" where
  "Register cr ctx request w =
     (case RegisterRequest_Validate request of
        Some err \<Rightarrow> (Inl (Wrapped ''invalid request for Register'' err), w)
      | None \<Rightarrow>
        (case bcrypt_GenerateFromPassword cr (rrq_Password request) w of
           (Inl err, w) \<Rightarrow> (Inl (Wrapped ''could not hash password'' err), w)
         | (Inr passwordHash, w) \<Rightarrow>
           let accountName = (if rrq_AccountName request = [] then defaultAccountName
                              else rrq_AccountName request) in
           (case uuid_NewString w of (uid, w) \<Rightarrow>
           (case time_Now w of (now, w) \<Rightarrow>
           let user = \<lparr>usr_ID = uid, usr_Email = rrq_Email request, usr_PasswordHash = passwordHash,
                       usr_Role = RoleMember, usr_CreatedAt = now, usr_TokenVersion = 0\<rparr> in
           (case RunInTx ctx (register_unit user accountName) w of
              (Inl err, w) \<Rightarrow> (Inl (Wrapped ''could not register user'' err), w)
            | (Inr accountID, w) \<Rightarrow>
              (case time_Now w of (now, w) \<Rightarrow>
                (case IssueAccessToken cr \<lparr>iat_LoginClaim =
                        \<lparr>claim_UserID = usr_ID user, claim_ExpirationTime = Unix (now + registrationTokenTTL),
                         claim_LastName = [], claim_Email = usr_Email user, claim_Role = usr_Role user,
                         claim_Permissions = PermissionsForRole (usr_Role user),
                         claim_TokenVersion = usr_TokenVersion user\<rparr>\<rparr> of
                   Inl err \<Rightarrow> (Inl (Wrapped ''could not issue access token'' err), w)
                 | Inr token \<Rightarrow>
                     (Inr \<lparr>rrs_Token = token, rrs_UserID = usr_ID user, rrs_AccountID = accountID,
                          rrs_Email = usr_Email user\<rparr>, w))))))))"

definition RegistrationAdaptor_Register :: "'s crypto \<Rightarrow> go_context \<Rightarrow> RegisterRequest \<Rightarrow> RegisterResponse op" where
  "RegistrationAdaptor_Register cr ctx request w =
     (case Register cr ctx request w of
        (Inl err, w) \<Rightarrow>
          if errors_Is err ErrAlreadyExists then
            (Inl (WithMessage ErrAlreadyExists ''an account with this email already exists''), w)
          else if errors_Is err ErrInvalidArgument then (Inl err, w)
          else (Inl (WithMessage ErrInternal ''could not register user''), w)
      | (Inr registerResp, w) \<Rightarrow> (Inr registerResp, w))"

section \<open>Facts\<close>

lemma RegisterRequest_valid [valid_simps]:
  "RegisterRequest_Validate r = None \<longleftrightarrow>
     strings_ContainsByte (rrq_Email r) CHR ''@'' \<and> minPasswordLength \<le> length (rrq_Password r) \<and> rrq_Name r \<noteq> []"
  by (auto simp: RegisterRequest_Validate_def minPasswordLength_def strings_ContainsByte_def)

text \<open>
  \<open>registers rq uid aid T T'\<close>: one user row with the member role and token version zero, and one
  account of that user with balance zero, have been appended; nothing else changed.
\<close>

definition registers :: "'s crypto \<Rightarrow> RegisterRequest \<Rightarrow> string \<Rightarrow> string \<Rightarrow> tables \<Rightarrow> tables \<Rightarrow> bool" where
  "registers cr rq uid aid T T' \<longleftrightarrow> (\<exists>n hash t1 t2.
     bcrypt_Generate cr n (rrq_Password rq) = Inr hash \<and>
     uid \<notin> u_id ` set (users T) \<and> rrq_Email rq \<notin> u_email ` set (users T) \<and> aid \<notin> a_id ` set (accounts T) \<and>
     T' = T\<lparr>
       users := users T @ [\<lparr>u_id = uid, u_email = rrq_Email rq, u_password_hash = hash, u_role = RoleMember,
         u_created_at = FormatTime t1, u_token_version = 0\<rparr>],
       accounts := accounts T @ [\<lparr>a_id = aid, a_owner_id = uid,
         a_name = (if rrq_AccountName rq = [] then defaultAccountName else rrq_AccountName rq),
         a_balance = 0, a_created_at = FormatTime t2\<rparr>]\<rparr>)"

lemma registersI:
  assumes "bcrypt_Generate cr n (rrq_Password rq) = Inr hash"
    "uid \<notin> u_id ` set (users T)" "rrq_Email rq \<notin> u_email ` set (users T)" "aid \<notin> a_id ` set (accounts T)"
    "T' = T\<lparr>
       users := users T @ [\<lparr>u_id = uid, u_email = rrq_Email rq, u_password_hash = hash, u_role = RoleMember,
         u_created_at = FormatTime tu, u_token_version = 0\<rparr>],
       accounts := accounts T @ [\<lparr>a_id = aid, a_owner_id = uid,
         a_name = (if rrq_AccountName rq = [] then defaultAccountName else rrq_AccountName rq),
         a_balance = 0, a_created_at = FormatTime ta\<rparr>]\<rparr>"
  shows "registers cr rq uid aid T T'"
  using assms unfolding registers_def by blast

context table_relation
begin

lemma evolves_bcrypt: "evolves R ctx w (snd (bcrypt_GenerateFromPassword cr p w))"
  using evolves_uuid [of ctx w] by (simp add: bcrypt_GenerateFromPassword_def uuid_NewString_def)

lemma register_unit_evolves:
  assumes "\<And>row T x T'. insert_user row T = Inr (x, T') \<Longrightarrow> R T T'"
    "\<And>row T x T'. insert_account row T = Inr (x, T') \<Longrightarrow> R T T'"
  shows "evolves R ctx w (snd (register_unit user nm ctx w))"
  unfolding register_unit_def
  by (intro evolves_rules UserRepository_Create_evolves AccountRepository_Create_evolves evolves_time_Now assms; assumption)

lemma Register_evolves:
  assumes "\<And>row T x T'. insert_user row T = Inr (x, T') \<Longrightarrow> R T T'"
    "\<And>row T x T'. insert_account row T = Inr (x, T') \<Longrightarrow> R T T'"
  shows "evolves R ctx w (snd (RegistrationAdaptor_Register cr ctx rq w))"
  unfolding RegistrationAdaptor_Register_def Register_def Let_def
  by (intro evolves_rules evolves_RunInTx register_unit_evolves evolves_time_Now evolves_uuid evolves_bcrypt assms; assumption)

end

lemma register_unit_Inr:
  assumes "register_unit user nm ctx v = (Inr aid, u)" "usable ctx v"
  shows "\<exists>t2. usr_ID user \<notin> u_id ` set (users (view ctx v)) \<and>
    usr_Email user \<notin> u_email ` set (users (view ctx v)) \<and> aid \<notin> a_id ` set (accounts (view ctx v)) \<and>
    view ctx u = (view ctx v)\<lparr>
       users := users (view ctx v) @ [\<lparr>u_id = usr_ID user, u_email = usr_Email user,
         u_password_hash = usr_PasswordHash user, u_role = usr_Role user,
         u_created_at = FormatTime (usr_CreatedAt user), u_token_version = 0\<rparr>],
       accounts := accounts (view ctx v) @ [\<lparr>a_id = aid, a_owner_id = usr_ID user, a_name = nm,
         a_balance = 0, a_created_at = FormatTime t2\<rparr>]\<rparr>"
proof -
  obtain us v1 now v2 acc where us: "UserRepository_Create ctx \<lparr>cur_User = user\<rparr> v = (Inr us, v1)"
    and now: "time_Now v1 = (now, v2)" and aid: "aid = acc_ID acc"
    and acc: "AccountRepository_Create ctx \<lparr>car_Account = \<lparr>acc_ID = [], acc_OwnerID = usr_ID user, acc_Name = nm,
                     acc_Balance = 0, acc_CreatedAt = now\<rparr>\<rparr> v2 = (Inr acc, u)"
    using assms(1) by (auto simp: register_unit_def time_Now_def split: prod.splits sum.splits)
  note c = UserRepository_Create_Inr [OF us moved_usable(3) [OF assms(2)]]
  have v2: "connected ctx v2" "view ctx v2 = view ctx v1"
    using now c by (auto simp: time_Now_def moved_def usable_def connected_def view_def)
  from AccountRepository_Create_Inr [OF acc v2(1)] c v2(2) aid show ?thesis
    by (auto simp: insert_user_Inr insert_account_Inr)
qed

lemma register_unit_keeps: "keeps_connection ctx w (snd (register_unit user nm ctx w))"
  by (rule connection.register_unit_evolves) simp_all

text \<open>Sign-up never touches the audit trail, not even its identity sequence.\<close>

interpretation unaudited: table_relation "\<lambda>T T'. audit_seq T' = audit_seq T"
  by unfold_locales simp_all

lemma register_unit_RunInTx:
  assumes run: "RunInTx ctx (register_unit user nm) w = (r, w')" and idle: "\<not> ctx_Tx ctx" "w_tx w = None"
  defines "done aid \<equiv> usr_ID user \<notin> u_id ` set (users (w_db w)) \<and>
      usr_Email user \<notin> u_email ` set (users (w_db w)) \<and> aid \<notin> a_id ` set (accounts (w_db w)) \<and>
      (\<exists>t2. w_db w' = (w_db w)\<lparr>
       users := users (w_db w) @ [\<lparr>u_id = usr_ID user, u_email = usr_Email user,
         u_password_hash = usr_PasswordHash user, u_role = usr_Role user,
         u_created_at = FormatTime (usr_CreatedAt user), u_token_version = 0\<rparr>],
       accounts := accounts (w_db w) @ [\<lparr>a_id = aid, a_owner_id = usr_ID user, a_name = nm,
         a_balance = 0, a_created_at = FormatTime t2\<rparr>]\<rparr>)"
  shows "w_tx w' = None \<and> w_env w' = w_env w \<and>
    (case r of Inr aid \<Rightarrow> done aid | Inl e \<Rightarrow> w_db w' = w_db w \<or> \<not> fault_free w \<and> (\<exists>aid. done aid))"
proof -
  note out = RunInTx_outcome [OF run idle register_unit_keeps]
  have "evolves (\<lambda>T T'. audit_seq T' = audit_seq T) ctx w (snd (RunInTx ctx (register_unit user nm) w))"
    by (intro unaudited.evolves_RunInTx unaudited.register_unit_evolves)
       (auto simp: insert_user_Inr insert_account_Inr)
  then have seq: "audit_seq (w_db w') = audit_seq (w_db w)"
    using evolves_idle [OF _ idle, of "\<lambda>T T'. audit_seq T' = audit_seq T" w'] run by simp
  have unit: "done aid" if "usable (in_tx ctx) v" "view (in_tx ctx) v = w_db w"
    "register_unit user nm (in_tx ctx) v = (Inr aid, u)" "w_db w' = view (in_tx ctx) u" for v u aid
    using register_unit_Inr [OF that(3,1)] that(2,4) unfolding done_def by auto
  show ?thesis
  proof (cases r)
    case (Inr aid)
    then show ?thesis using out unit by auto
  next
    case (Inl e)
    have "w_db w' = w_db w" if "w_db w' = (w_db w)\<lparr>audit_seq := n\<rparr>" for n
      using that seq by (metis tables.surjective tables.update_convs(5) tables.select_convs(5))
    moreover have "\<not> fault_free w \<and> (\<exists>aid. done aid)" if "lost_commit ctx (register_unit user nm) w w'"
      using that unit unfolding lost_commit_def by metis
    ultimately show ?thesis using out Inl by auto
  qed
qed

text \<open>The steps of a valid registration around its unit of work.\<close>

definition registered_user :: "RegisterRequest \<Rightarrow> string \<Rightarrow> world \<Rightarrow> User" where
  "registered_user rq hash w = \<lparr>usr_ID = env_UUID (w_env w) (Suc (w_uuids w)), usr_Email = rrq_Email rq,
     usr_PasswordHash = hash, usr_Role = RoleMember, usr_CreatedAt = env_Now (w_env w) (w_ticks w), usr_TokenVersion = 0\<rparr>"

definition account_name :: "RegisterRequest \<Rightarrow> string" where
  "account_name rq = (if rrq_AccountName rq = [] then defaultAccountName else rrq_AccountName rq)"

definition before_unit :: "world \<Rightarrow> world" where
  "before_unit w = w\<lparr>w_uuids := Suc (Suc (w_uuids w)), w_ticks := Suc (w_ticks w)\<rparr>"

lemma before_unit_simps [simp]:
  "w_db (before_unit w) = w_db w" "w_tx (before_unit w) = w_tx w" "w_env (before_unit w) = w_env w"
  "fault_free (before_unit w) = fault_free w"
  by (simp_all add: before_unit_def fault_free_def)

lemma Register_tx:
  assumes "RegisterRequest_Validate rq = None" "bcrypt_Generate cr (w_uuids w) (rrq_Password rq) = Inr hash"
    and "RunInTx ctx (register_unit (registered_user rq hash w) (account_name rq)) (before_unit w) = (s, w2)"
  shows "case s of
      Inl err \<Rightarrow> Register cr ctx rq w = (Inl (Wrapped ''could not register user'' err), w2)
    | Inr aid \<Rightarrow> \<exists>w3. w_db w3 = w_db w2 \<and>
        ((\<exists>resp. Register cr ctx rq w = (Inr resp, w3) \<and> rrs_UserID resp = usr_ID (registered_user rq hash w) \<and>
            rrs_AccountID resp = aid \<and>
            (\<exists>claim. IssueAccessToken cr \<lparr>iat_LoginClaim = claim\<rparr> = Inr (rrs_Token resp) \<and>
               claim_UserID claim = rrs_UserID resp \<and> claim_TokenVersion claim = 0)) \<or>
         (\<exists>claim e. IssueAccessToken cr \<lparr>iat_LoginClaim = claim\<rparr> = Inl e \<and>
            Register cr ctx rq w = (Inl (Wrapped ''could not issue access token'' e), w3)))"
  using assms
  by (auto simp: Register_def bcrypt_GenerateFromPassword_def uuid_NewString_def time_Now_def before_unit_def
      registered_user_def account_name_def Let_def split: sum.split)

lemma registered:
  assumes "bcrypt_Generate cr n (rrq_Password rq) = Inr hash"
    and "usr_ID (registered_user rq hash w) \<notin> u_id ` set (users T) \<and>
      usr_Email (registered_user rq hash w) \<notin> u_email ` set (users T) \<and> aid \<notin> a_id ` set (accounts T) \<and>
      (\<exists>t2. T' = T\<lparr>
       users := users T @ [\<lparr>u_id = usr_ID (registered_user rq hash w), u_email = usr_Email (registered_user rq hash w),
         u_password_hash = usr_PasswordHash (registered_user rq hash w), u_role = usr_Role (registered_user rq hash w),
         u_created_at = FormatTime (usr_CreatedAt (registered_user rq hash w)), u_token_version = 0\<rparr>],
       accounts := accounts T @ [\<lparr>a_id = aid, a_owner_id = usr_ID (registered_user rq hash w), a_name = account_name rq,
         a_balance = 0, a_created_at = FormatTime t2\<rparr>]\<rparr>)"
  shows "registers cr rq (usr_ID (registered_user rq hash w)) aid T T'"
  using assms by (elim conjE exE) (rule registersI, auto simp: registered_user_def account_name_def)

text \<open>The session that a successful registration opens.\<close>

lemma Register_session:
  assumes run: "Register cr ctx rq w = (Inr resp, w')" and idle: "\<not> ctx_Tx ctx" "w_tx w = None"
  shows "\<exists>u \<in> set (users (w_db w')). \<exists>claim. u_id u = rrs_UserID resp \<and>
    IssueAccessToken cr \<lparr>iat_LoginClaim = claim\<rparr> = Inr (rrs_Token resp) \<and>
    claim_UserID claim = u_id u \<and> claim_TokenVersion claim = u_token_version u"
proof -
  have valid: "RegisterRequest_Validate rq = None" using run by (auto simp: Register_def split: option.splits)
  then obtain hash where hash: "bcrypt_Generate cr (w_uuids w) (rrq_Password rq) = Inr hash"
    using run by (auto simp: Register_def bcrypt_GenerateFromPassword_def split: sum.splits)
  let ?user = "registered_user rq hash w"
  obtain s w2 where tx: "RunInTx ctx (register_unit ?user (account_name rq)) (before_unit w) = (s, w2)" by fastforce
  note step = Register_tx [OF valid hash tx]
  obtain aid where s: "s = Inr aid" using step run by (cases s) auto
  have w': "w_db w' = w_db w2" "rrs_UserID resp = usr_ID ?user"
    "\<exists>claim. IssueAccessToken cr \<lparr>iat_LoginClaim = claim\<rparr> = Inr (rrs_Token resp) \<and>
       claim_UserID claim = rrs_UserID resp \<and> claim_TokenVersion claim = 0"
    using step run s by auto
  have "\<exists>u \<in> set (users (w_db w2)). u_id u = usr_ID ?user \<and> u_token_version u = 0"
    using register_unit_RunInTx [OF tx idle(1)] idle(2) s by auto
  then show ?thesis using w' by (metis (no_types))
qed

end
