(* ===== verification/RegistrationVerdict.thy ===== *)
theory RegistrationVerdict
  imports Registration Cursor
begin

text \<open>
  Sign-up on a driver that works: forward rules for the two inserts and the unit of work, and the
  two outcomes of a valid request. A taken email aborts the transaction at the first insert.
\<close>

lemma RunInTx_error:
  assumes ff: "fault_free w" and idle: "\<not> ctx_Tx ctx" "w_tx w = None"
    and keeps: "\<And>v. keeps_connection (in_tx ctx) v (snd (fn (in_tx ctx) v))"
    and fn: "\<And>v. usable (in_tx ctx) v \<Longrightarrow> fault_free v \<Longrightarrow> view (in_tx ctx) v = w_db w \<Longrightarrow>
      w_env v = w_env w \<Longrightarrow> w_uuids v = w_uuids w \<Longrightarrow> \<exists>u. fn (in_tx ctx) v = (Inl e, u)"
  shows "\<exists>w'. RunInTx ctx fn w = (Inl e, w')"
proof -
  define v where "v = w\<lparr>w_calls := Suc (w_calls w), w_tx := Some \<lparr>tx_tables = w_db w, tx_aborted = False\<rparr>\<rparr>"
  have b: "begin_tx w = (Inr (), v)"
    using ff by (simp add: begin_tx_def driver_call_def v_def fault_free_def)
  have "usable (in_tx ctx) v" "view (in_tx ctx) v = w_db w" "w_env v = w_env w" "w_uuids v = w_uuids w" "fault_free v"
    using ff by (simp_all add: v_def usable_def connected_def view_def in_tx_def fault_free_def)
  with fn obtain u where u: "fn (in_tx ctx) v = (Inl e, u)" by metis
  have "w_env u = w_env v" using keeps [of v] u by (simp add: evolves_def)
  then have "fault_free u" using ff by (simp add: v_def fault_free_def)
  then show ?thesis using idle b u
    by (auto simp: RunInTx_def in_tx_def rollback_tx_def driver_call_def fault_free_def)
qed

lemma clean_FormatTime [simp]: "clean (FormatTime t)"
  by (simp add: clean_def FormatTime_not_nul)

lemma unique_violation_Is [simp]: "IsUniqueConstraintViolation (unique_violation con)"
  by (simp add: IsUniqueConstraintViolation_def unique_violation_def)

lemma insert_user_taken:
  "valid_role (u_role row) \<Longrightarrow> u_email row \<in> u_email ` set (users T) \<Longrightarrow>
   \<exists>con. insert_user row T = Inl (unique_violation con)"
  by (auto simp: insert_user_def list_ex_key)

lemma UserRepository_Create_runs:
  assumes env: "fault_free w" "usable ctx w"
    and req: "CreateUserRequest_Validate \<lparr>cur_User = u\<rparr> = None"
      "list_all clean [usr_ID u, usr_Email u, usr_PasswordHash u, usr_Role u]"
  shows "usr_ID u \<notin> u_id ` set (users (view ctx w)) \<Longrightarrow> usr_Email u \<notin> u_email ` set (users (view ctx w)) \<Longrightarrow>
      \<exists>w'. UserRepository_Create ctx \<lparr>cur_User = u\<rparr> w = (Inr u, w') \<and> moved ctx w w' \<and>
        view ctx w' = (view ctx w)\<lparr>users := users (view ctx w) @ [\<lparr>u_id = usr_ID u, u_email = usr_Email u,
         u_password_hash = usr_PasswordHash u, u_role = usr_Role u,
         u_created_at = FormatTime (usr_CreatedAt u), u_token_version = 0\<rparr>]\<rparr>"
    and "usr_Email u \<in> u_email ` set (users (view ctx w)) \<Longrightarrow>
      \<exists>w'. UserRepository_Create ctx \<lparr>cur_User = u\<rparr> w =
        (Inl (Wrapped (''user '' @ usr_ID u) (Sentinel ErrAlreadyExists)), w')"
proof -
  let ?row = "\<lparr>u_id = usr_ID u, u_email = usr_Email u, u_password_hash = usr_PasswordHash u,
    u_role = usr_Role u, u_created_at = FormatTime (usr_CreatedAt u), u_token_version = 0\<rparr>"
  let ?args = "[usr_ID u, usr_Email u, usr_PasswordHash u, usr_Role u, FormatTime (usr_CreatedAt u)]"
  have args: "list_all clean ?args" and role: "valid_role (usr_Role u)"
    using req by (auto simp: valid_simps valid_role_def RoleMember_def RoleAdmin_def)
  show "\<exists>w'. UserRepository_Create ctx \<lparr>cur_User = u\<rparr> w = (Inr u, w') \<and> moved ctx w w' \<and>
        view ctx w' = (view ctx w)\<lparr>users := users (view ctx w) @ [?row]\<rparr>"
    if "usr_ID u \<notin> u_id ` set (users (view ctx w))" "usr_Email u \<notin> u_email ` set (users (view ctx w))"
  proof -
    have "insert_user ?row (view ctx w) = Inr ((), (view ctx w)\<lparr>users := users (view ctx w) @ [?row]\<rparr>)"
      using that role by (simp add: insert_user_Inr)
    from sql_exec_runs [where st = "insert_user ?row", OF env args this] req(1) show ?thesis
      by (auto simp: UserRepository_Create_def Let_def)
  qed
  show "\<exists>w'. UserRepository_Create ctx \<lparr>cur_User = u\<rparr> w =
        (Inl (Wrapped (''user '' @ usr_ID u) (Sentinel ErrAlreadyExists)), w')"
    if taken: "usr_Email u \<in> u_email ` set (users (view ctx w))"
  proof -
    obtain con where "insert_user ?row (view ctx w) = Inl (unique_violation con)"
      using insert_user_taken [of ?row "view ctx w"] taken role by auto
    moreover have "list_all (\<lambda>s. CHR 0x00 \<notin> set s) ?args" using args by (simp add: clean_def)
    ultimately obtain w' where "sql_exec ctx ?args (insert_user ?row) w = (Inl (unique_violation con), w')"
      using sql_exec_fault_free(2) [where st = "insert_user ?row", OF env] by blast
    then show ?thesis using req(1) by (simp add: UserRepository_Create_def Let_def)
  qed
qed

lemma AccountRepository_Create_runs:
  assumes env: "fault_free w" "usable ctx w"
    and req: "CreateAccountRequest_Validate \<lparr>car_Account = a\<rparr> = None" "acc_ID a = []"
    and new: "env_UUID (w_env w) (w_uuids w) \<notin> a_id ` set (accounts (view ctx w))"
    and args: "list_all clean [env_UUID (w_env w) (w_uuids w), acc_OwnerID a, acc_Name a]"
    and owner: "acc_OwnerID a \<in> u_id ` set (users (view ctx w))"
  shows "\<exists>w'. AccountRepository_Create ctx \<lparr>car_Account = a\<rparr> w =
      (Inr (a\<lparr>acc_ID := env_UUID (w_env w) (w_uuids w)\<rparr>), w') \<and> moved ctx w w' \<and>
    view ctx w' = (view ctx w)\<lparr>accounts := accounts (view ctx w) @ [\<lparr>a_id = env_UUID (w_env w) (w_uuids w),
      a_owner_id = acc_OwnerID a, a_name = acc_Name a, a_balance = acc_Balance a,
      a_created_at = FormatTime (acc_CreatedAt a)\<rparr>]\<rparr>"
proof -
  let ?w = "w\<lparr>w_uuids := Suc (w_uuids w)\<rparr>"
  let ?row = "\<lparr>a_id = env_UUID (w_env w) (w_uuids w), a_owner_id = acc_OwnerID a, a_name = acc_Name a,
    a_balance = acc_Balance a, a_created_at = FormatTime (acc_CreatedAt a)\<rparr>"
  have env': "fault_free ?w" "usable ctx ?w" "list_all clean [a_id ?row, acc_OwnerID a, acc_Name a, FormatTime (acc_CreatedAt a)]"
    using env args by simp_all
  have "insert_account ?row (view ctx ?w) = Inr ((), (view ctx w)\<lparr>accounts := accounts (view ctx w) @ [?row]\<rparr>)"
    using req new owner by (simp add: insert_account_Inr valid_simps)
  from sql_exec_runs [where st = "insert_account ?row", OF env' this] obtain w' where
    "sql_exec ctx [a_id ?row, acc_OwnerID a, acc_Name a, FormatTime (acc_CreatedAt a)] (insert_account ?row) ?w = (Inr (), w')"
    "moved ctx ?w w'" "view ctx w' = (view ctx w)\<lparr>accounts := accounts (view ctx w) @ [?row]\<rparr>" by blast
  then show ?thesis using req by (auto simp: AccountRepository_Create_def uuid_NewString_def moved_def usable_def connected_def)
qed

text \<open>What sign-up needs of the environment: fresh NUL-free UUIDs and a NUL-free request.\<close>

definition fresh_ids :: "env \<Rightarrow> tables \<Rightarrow> bool" where
  "fresh_ids ev T \<longleftrightarrow> (\<forall>n. env_UUID ev n \<noteq> [] \<and> clean (env_UUID ev n) \<and>
     env_UUID ev n \<notin> u_id ` set (users T) \<and> env_UUID ev n \<notin> a_id ` set (accounts T))"

definition clean_registration :: "RegisterRequest \<Rightarrow> bool" where
  "clean_registration rq \<longleftrightarrow> clean (rrq_Email rq) \<and> clean (rrq_AccountName rq)"

lemma register_unit_runs:
  assumes env: "fault_free v" "usable ctx v" "fresh_ids (w_env v) (view ctx v)"
    and user: "CreateUserRequest_Validate \<lparr>cur_User = user\<rparr> = None" "usr_ID user \<noteq> []"
      "list_all clean [usr_ID user, usr_Email user, usr_PasswordHash user, usr_Role user]"
    and nm: "nm \<noteq> []" "clean nm"
  shows "usr_Email user \<in> u_email ` set (users (view ctx v)) \<Longrightarrow>
      \<exists>u. register_unit user nm ctx v = (Inl (Wrapped (''user '' @ usr_ID user) (Sentinel ErrAlreadyExists)), u)"
    and "usr_Email user \<notin> u_email ` set (users (view ctx v)) \<Longrightarrow> usr_ID user \<notin> u_id ` set (users (view ctx v)) \<Longrightarrow>
      \<exists>aid u. register_unit user nm ctx v = (Inr aid, u) \<and> moved ctx v u"
proof -
  show "\<exists>u. register_unit user nm ctx v = (Inl (Wrapped (''user '' @ usr_ID user) (Sentinel ErrAlreadyExists)), u)"
    if taken: "usr_Email user \<in> u_email ` set (users (view ctx v))"
    using UserRepository_Create_runs(2) [OF env(1,2) user(1,3) taken] by (auto simp: register_unit_def)
  show "\<exists>aid u. register_unit user nm ctx v = (Inr aid, u) \<and> moved ctx v u"
    if free: "usr_Email user \<notin> u_email ` set (users (view ctx v))" "usr_ID user \<notin> u_id ` set (users (view ctx v))"
  proof -
    obtain v1 where v1: "UserRepository_Create ctx \<lparr>cur_User = user\<rparr> v = (Inr user, v1)" "moved ctx v v1"
      "u_id ` set (users (view ctx v1)) = insert (usr_ID user) (u_id ` set (users (view ctx v)))"
      "accounts (view ctx v1) = accounts (view ctx v)"
      using UserRepository_Create_runs(1) [OF env(1,2) user(1,3) free(2,1)] by auto
    let ?v2 = "v1\<lparr>w_ticks := Suc (w_ticks v1)\<rparr>"
    let ?a = "\<lparr>acc_ID = [], acc_OwnerID = usr_ID user, acc_Name = nm, acc_Balance = 0, acc_CreatedAt = env_Now (w_env v1) (w_ticks v1)\<rparr>"
    have v2: "fault_free ?v2" "usable ctx ?v2" "w_env ?v2 = w_env v"
      using v1(2) env by (simp_all add: moved_def moved_fault_free fault_free_def)
    have "\<exists>w'. AccountRepository_Create ctx \<lparr>car_Account = ?a\<rparr> ?v2 =
        (Inr (?a\<lparr>acc_ID := env_UUID (w_env ?v2) (w_uuids ?v2)\<rparr>), w') \<and> moved ctx ?v2 w'"
      using AccountRepository_Create_runs [OF v2(1,2), of ?a] env(3) user nm v1 v2(3)
      by (auto simp: valid_simps fresh_ids_def)
    then show ?thesis using v1(1,2) v2(2)
      by (auto simp: register_unit_def time_Now_def moved_def)
  qed
qed

end
