(* ===== verification/IdentityProperties.thy ===== *)
theory IdentityProperties
  imports RegistrationVerdict Sample
begin

text \<open>
  The properties of sign-up, login, token validation and logout: registration is all or nothing
  under every driver failure, a token is only accepted within its lifetime and session epoch, and
  a logout revokes, for good, every token issued before it.
\<close>

section \<open>Registration\<close>

text \<open>
  C16: Registration is all or nothing, whatever the driver does. A success appends exactly one user
  (role member, token version zero, the hash of the password) and one account of that user with
  balance zero, under an id and an email that were free. A failure leaves the database as it was,
  unless the commit took effect and only its reply was lost, or the rows are committed and issuing
  the token failed; then too both rows are there.
\<close>

theorem register_all_or_nothing:
  assumes run: "Register cr ctx rq w = (r, w')" and idle: "\<not> ctx_Tx ctx" "w_tx w = None"
  shows "case r of
      Inr resp \<Rightarrow> registers cr rq (rrs_UserID resp) (rrs_AccountID resp) (w_db w) (w_db w')
    | Inl e \<Rightarrow> w_db w' = w_db w \<or>
        (\<exists>uid aid. registers cr rq uid aid (w_db w) (w_db w')) \<and>
        (\<not> fault_free w \<or> (\<exists>claim e. IssueAccessToken cr \<lparr>iat_LoginClaim = claim\<rparr> = Inl e))"
proof (cases "RegisterRequest_Validate rq")
  case (Some e)
  then show ?thesis using run by (auto simp: Register_def)
next
  case None
  show ?thesis
  proof (cases "bcrypt_Generate cr (w_uuids w) (rrq_Password rq)")
    case (Inl e)
    then show ?thesis using run None by (auto simp: Register_def bcrypt_GenerateFromPassword_def)
  next
    case (Inr hash)
    let ?user = "registered_user rq hash w"
    obtain s w2 where tx: "RunInTx ctx (register_unit ?user (account_name rq)) (before_unit w) = (s, w2)" by fastforce
    note out = register_unit_RunInTx [OF tx idle(1), simplified, OF idle(2)]
    note reg = registered [OF Inr, where T = "w_db w" and T' = "w_db w2" and w = w]
    note step = Register_tx [OF None Inr tx]
    show ?thesis
    proof (cases s)
      case (Inl err)
      then show ?thesis using step run out reg by auto
    next
      case (Inr aid)
      then have "registers cr rq (usr_ID ?user) aid (w_db w) (w_db w2)" using out reg by auto
      moreover have "w_db w' = w_db w2 \<and>
        ((\<exists>resp. r = Inr resp \<and> rrs_UserID resp = usr_ID ?user \<and> rrs_AccountID resp = aid) \<or>
         (\<exists>e. r = Inl e) \<and> (\<exists>claim e. IssueAccessToken cr \<lparr>iat_LoginClaim = claim\<rparr> = Inl e))"
        using step run Inr by auto
      ultimately show ?thesis by (elim conjE disjE exE) (simp, simp, blast)
    qed
  qed
qed

text \<open>A concrete instance of the parameters, for one claim.\<close>

definition sample_crypto :: "LoginClaim \<Rightarrow> string crypto" where
  "sample_crypto c = \<lparr>bcrypt_Generate = (\<lambda>n p. if length p \<le> 72 \<and> clean p then Inr (''h:'' @ p) else Inl (Plain ''too long'')),
     bcrypt_Compare = (\<lambda>h p. h = ''h:'' @ p),
     json_MarshalClaim = (\<lambda>c'. if c' = c then Inr ''claim'' else Inl (Plain ''unsupported'')),
     json_UnmarshalClaim = (\<lambda>s. if s = ''claim'' then Inr c else Inl (Plain ''syntax'')),
     jose_Sign = (\<lambda>p. Inr (''sig:'' @ p)),
     jose_CompactSerialize = (\<lambda>obj. Inr obj),
     jose_ParseSigned = (\<lambda>t. if take 4 t = ''sig:'' then Inr t else Inl (Plain ''malformed'')),
     jose_Verify = (\<lambda>obj. Inr (drop 4 obj))\<rparr>"

lemma sample_crypto_ok: "crypto_ok (sample_crypto c)"
  by (auto simp: crypto_ok_def sample_crypto_def clean_def IssueAccessToken_def split: if_splits)

definition sample_register :: RegisterRequest where
  "sample_register = \<lparr>rrq_Email = ''cy@x'', rrq_Password = ''12345678'', rrq_Name = ''Cy'', rrq_AccountName = []\<rparr>"

theorem register_all_or_nothing_witness:
  "case fst (Register (sample_crypto member_claim) background sample_register sample_faulty) of
      Inr resp \<Rightarrow> registers (sample_crypto member_claim) sample_register (rrs_UserID resp) (rrs_AccountID resp) sample_tables
        (w_db (snd (Register (sample_crypto member_claim) background sample_register sample_faulty)))
    | Inl e \<Rightarrow> w_db (snd (Register (sample_crypto member_claim) background sample_register sample_faulty)) = sample_tables \<or>
        (\<exists>uid aid. registers (sample_crypto member_claim) sample_register uid aid sample_tables
          (w_db (snd (Register (sample_crypto member_claim) background sample_register sample_faulty)))) \<and>
        (\<not> fault_free sample_faulty \<or> (\<exists>claim e. IssueAccessToken (sample_crypto member_claim) \<lparr>iat_LoginClaim = claim\<rparr> = Inl e))"
  using register_all_or_nothing [OF run_fst_snd [of "Register (sample_crypto member_claim) background sample_register" sample_faulty]
      sample_idle(6,5)]
  unfolding sample_idle(4) .

text \<open>
  C17: On a driver that works, an email decides a valid sign-up: if a user has it, the caller gets the
  documented error and the database is untouched; if no user has it, the user and the account are
  there afterwards (and the caller gets a token unless signing it failed).
\<close>

theorem register_decided_by_email:
  assumes ff: "fault_free w" and idle: "\<not> ctx_Tx ctx" "w_tx w = None"
    and cr: "crypto_ok cr" "bcrypt_Generate cr (w_uuids w) (rrq_Password rq) = Inr hash"
    and rq: "RegisterRequest_Validate rq = None" "clean_registration rq" "fresh_ids (w_env w) (w_db w)"
  shows "if rrq_Email rq \<in> u_email ` set (users (w_db w))
    then \<exists>w'. RegistrationAdaptor_Register cr ctx rq w =
        (Inl (WithMessage ErrAlreadyExists ''an account with this email already exists''), w') \<and> w_db w' = w_db w
    else \<exists>r w' uid aid. RegistrationAdaptor_Register cr ctx rq w = (r, w') \<and>
        registers cr rq uid aid (w_db w) (w_db w') \<and>
        (r = Inl (WithMessage ErrInternal ''could not register user'') \<or>
         (\<exists>resp. r = Inr resp \<and> rrs_UserID resp = uid \<and> rrs_AccountID resp = aid))"
proof -
  let ?user = "registered_user rq hash w"
  let ?unit = "register_unit ?user (account_name rq)"
  obtain s w2 where tx: "RunInTx ctx ?unit (before_unit w) = (s, w2)" by fastforce
  note step = Register_tx [OF rq(1) cr(2) tx]
  note out = register_unit_RunInTx [OF tx idle(1), simplified, OF idle(2)]
  have hash: "hash \<noteq> []" "clean hash" using cr unfolding crypto_ok_def by blast+
  have user: "CreateUserRequest_Validate \<lparr>cur_User = ?user\<rparr> = None" "usr_ID ?user \<noteq> []"
    "list_all clean [usr_ID ?user, usr_Email ?user, usr_PasswordHash ?user, usr_Role ?user]"
    "account_name rq \<noteq> []" "clean (account_name rq)" "usr_ID ?user \<notin> u_id ` set (users (w_db w))"
    using rq hash by (auto simp: valid_simps registered_user_def fresh_ids_def clean_registration_def
        account_name_def defaultAccountName_def strings_ContainsByte_def clean_def RoleMember_def)
  note runs = register_unit_runs [OF _ _ _ user(1-5)]
  show ?thesis
  proof (cases "rrq_Email rq \<in> u_email ` set (users (w_db w))")
    case True
    have "\<exists>w'. RunInTx ctx ?unit (before_unit w) =
        (Inl (Wrapped (''user '' @ usr_ID ?user) (Sentinel ErrAlreadyExists)), w')"
      using ff idle rq(3) True runs(1)
      by (intro RunInTx_error register_unit_keeps) (simp_all add: registered_user_def)
    then show ?thesis using True tx step out ff
      by (simp add: RegistrationAdaptor_Register_def WithMessage_def)
  next
    case False
    have "\<exists>res w' T. RunInTx ctx ?unit (before_unit w) = (res, w') \<and> (\<exists>aid. res = Inr aid) \<and> w_tx w' = None \<and>
        w_env w' = w_env (before_unit w) \<and>
        w_db w' = (case res of Inr _ \<Rightarrow> T | Inl _ \<Rightarrow> (w_db (before_unit w))\<lparr>audit_seq := audit_seq T\<rparr>)"
      using ff idle
    proof (intro RunInTx_runs)
      fix v assume "usable (in_tx ctx) v" "fault_free v" "view (in_tx ctx) v = w_db (before_unit w)" "w_env v = w_env (before_unit w)"
      then show "\<exists>res u. ?unit (in_tx ctx) v = (res, u) \<and> moved (in_tx ctx) v u \<and> (\<exists>aid. res = Inr aid)"
        using runs(2) [of v "in_tx ctx"] rq(3) user(6) False by (auto simp: registered_user_def)
    qed simp_all
    then obtain aid where aid: "s = Inr aid" using tx by auto
    then have reg: "registers cr rq (usr_ID ?user) aid (w_db w) (w_db w2)"
      using out registered [OF cr(2)] by auto
    have foreign: "IssueAccessToken cr q = Inl e \<Longrightarrow> \<not> errors_Is e t" for q e t
      using cr(1) unfolding crypto_ok_def by blast
    obtain w3 where w3: "w_db w3 = w_db w2" and
      "(\<exists>resp. Register cr ctx rq w = (Inr resp, w3) \<and> rrs_UserID resp = usr_ID ?user \<and> rrs_AccountID resp = aid) \<or>
       (\<exists>claim e. IssueAccessToken cr \<lparr>iat_LoginClaim = claim\<rparr> = Inl e \<and>
         Register cr ctx rq w = (Inl (Wrapped ''could not issue access token'' e), w3))" using step aid by auto
    then have "\<exists>r. RegistrationAdaptor_Register cr ctx rq w = (r, w3) \<and>
        (r = Inl (WithMessage ErrInternal ''could not register user'') \<or>
         (\<exists>resp. r = Inr resp \<and> rrs_UserID resp = usr_ID ?user \<and> rrs_AccountID resp = aid))"
      using foreign by (auto simp: RegistrationAdaptor_Register_def)
    then show ?thesis using False reg w3 by auto
  qed
qed

theorem register_decided_by_email_witness:
  "\<exists>w'. RegistrationAdaptor_Register (sample_crypto member_claim) background (sample_register\<lparr>rrq_Email := ''bob@x''\<rparr>) sample_world =
    (Inl (WithMessage ErrAlreadyExists ''an account with this email already exists''), w') \<and> w_db w' = sample_tables"
proof -
  let ?q = "sample_register\<lparr>rrq_Email := ''bob@x''\<rparr>"
  have gen: "bcrypt_Generate (sample_crypto member_claim) (w_uuids sample_world) (rrq_Password ?q) = Inr ''h:12345678''"
    by (simp add: sample_crypto_def sample_register_def clean_def)
  have q: "RegisterRequest_Validate ?q = None" "clean_registration ?q"
    by (simp_all add: valid_simps sample_register_def clean_registration_def clean_def strings_ContainsByte_def minPasswordLength_def)
  have "clean (strconv_Itoa (int n))" for n by (simp add: clean_def strconv_Itoa_def dec_not_nul)
  then have "fresh_ids (w_env sample_world) (w_db sample_world)"
    by (simp add: fresh_ids_def sample_env_def sample_tables_def clean_def)
  from register_decided_by_email [OF sample_idle(9,6,2) sample_crypto_ok gen q this] show ?thesis
    by (simp add: sample_register_def sample_tables_def)
qed

end
