(* ===== verification/Rpc.thy ===== *)
theory Rpc
  imports AccountServices WalletRPC Registration JsonRpc
begin

text \<open>
  The services behind the JSON-RPC endpoint as one operation: the calls a client can make, their
  wire names (the adaptors' \<open>Name()\<close> and method names, registered in
  \<open>cmd/app/setupRPCServer.go\<close>), and \<open>serve\<close>, which runs the handler of a call. The lemmas say which
  relations between tables every call evolves along.
\<close>

section \<open>Calls and results\<close>

datatype rpc_call =
    CallLogin EmailPasswordAuthenticatorRequest
  | CallLogout
  | CallRegister RegisterRequest
  | CallProcessTransaction ProcessTransactionJSONRPCRequest
  | CallProcessTransactionBatch "ProcessTransactionJSONRPCRequest list"
  | CallEarnPoints EarnPointsJSONRPCRequest
  | CallSpendPoints SpendPointsJSONRPCRequest
  | CallFetchMyAccounts
  | CallGetAccountByID GetByIDParams
  | CallGetAccountBalance GetByIDParams
  | CallUpdateAccountName UpdateAccountNameParams
  | CallUpdateAccountBalance UpdateAccountBalanceParams
  | CallOpenAccount OpenAccountParams
  | CallFetchTransactionAuditTrail string

datatype rpc_result =
    LoginResult EmailPasswordAuthenticatorResponse
  | LogoutResult bool
  | RegisterResult RegisterResponse
  | TransactionResult ProcessTransactionJSONRPCResponse
  | BatchResult ProcessTransactionBatchResult
  | AccountsListResult "AccountResult list"
  | AccountValueResult AccountResult
  | AccountBalanceResult BalanceResult
  | OpenedResult OpenAccountResult
  | AuditTrailResult ListByTransactionRefResult

text \<open>The names under which the adaptors are registered, and the handlers' names.\<close>

definition LoginAdaptor_Name :: string where "LoginAdaptor_Name = ''EmailPasswordAuthenticator''"
definition LogoutAdaptor_Name :: string where "LogoutAdaptor_Name = ''Session''"
definition RegistrationAdaptor_Name :: string where "RegistrationAdaptor_Name = ''UserRegistrationService''"
definition WalletAdaptor_Name :: string where "WalletAdaptor_Name = ''Wallet''"
definition AccountAdaptor_Name :: string where "AccountAdaptor_Name = ''AccountService''"
definition OpenerAdaptor_Name :: string where "OpenerAdaptor_Name = ''AccountOpener''"
definition AuditAdaptor_Name :: string where "AuditAdaptor_Name = ''AuditService''"

lemmas service_names =
  LoginAdaptor_Name_def LogoutAdaptor_Name_def RegistrationAdaptor_Name_def WalletAdaptor_Name_def AccountAdaptor_Name_def OpenerAdaptor_Name_def AuditAdaptor_Name_def

fun service_Name :: "rpc_call \<Rightarrow> string" where
  "service_Name (CallLogin _) = LoginAdaptor_Name"
| "service_Name CallLogout = LogoutAdaptor_Name"
| "service_Name (CallRegister _) = RegistrationAdaptor_Name"
| "service_Name (CallProcessTransaction _) = WalletAdaptor_Name"
| "service_Name (CallProcessTransactionBatch _) = WalletAdaptor_Name"
| "service_Name (CallEarnPoints _) = WalletAdaptor_Name"
| "service_Name (CallSpendPoints _) = WalletAdaptor_Name"
| "service_Name CallFetchMyAccounts = AccountAdaptor_Name"
| "service_Name (CallGetAccountByID _) = AccountAdaptor_Name"
| "service_Name (CallGetAccountBalance _) = AccountAdaptor_Name"
| "service_Name (CallUpdateAccountName _) = AccountAdaptor_Name"
| "service_Name (CallUpdateAccountBalance _) = AccountAdaptor_Name"
| "service_Name (CallOpenAccount _) = OpenerAdaptor_Name"
| "service_Name (CallFetchTransactionAuditTrail _) = AuditAdaptor_Name"

fun handler_name :: "rpc_call \<Rightarrow> string" where
  "handler_name (CallLogin _) = ''Login''"
| "handler_name CallLogout = ''Logout''"
| "handler_name (CallRegister _) = ''Register''"
| "handler_name (CallProcessTransaction _) = ''ProcessTransaction''"
| "handler_name (CallProcessTransactionBatch _) = ''ProcessTransactionBatch''"
| "handler_name (CallEarnPoints _) = ''EarnPoints''"
| "handler_name (CallSpendPoints _) = ''SpendPoints''"
| "handler_name CallFetchMyAccounts = ''FetchMyAccounts''"
| "handler_name (CallGetAccountByID _) = ''GetAccountByID''"
| "handler_name (CallGetAccountBalance _) = ''GetAccountBalance''"
| "handler_name (CallUpdateAccountName _) = ''UpdateAccountName''"
| "handler_name (CallUpdateAccountBalance _) = ''UpdateAccountBalance''"
| "handler_name (CallOpenAccount _) = ''OpenAccount''"
| "handler_name (CallFetchTransactionAuditTrail _) = ''FetchTransactionAuditTrail''"

definition rpc_method :: "rpc_call \<Rightarrow> string" where
  "rpc_method call = service_Name call @ ''.'' @ handler_name call"

section \<open>Running a call\<close>

definition answer :: "('a \<Rightarrow> rpc_result) \<Rightarrow> (go_error + 'a) \<times> world \<Rightarrow> (go_error + rpc_result) \<times> world" where
  "answer f p = (case p of (Inl err, w) \<Rightarrow> (Inl err, w) | (Inr x, w) \<Rightarrow> (Inr (f x), w))"

fun serve :: "'s crypto \<Rightarrow> go_context \<Rightarrow> rpc_call \<Rightarrow> rpc_result op" where
  "serve cr ctx (CallLogin p) w = answer LoginResult (LoginAdaptor_Login cr ctx p w)"
| "serve cr ctx CallLogout w = answer LogoutResult (LogoutAdaptor_Logout ctx w)"
| "serve cr ctx (CallRegister p) w = answer RegisterResult (RegistrationAdaptor_Register cr ctx p w)"
| "serve cr ctx (CallProcessTransaction p) w = answer TransactionResult (WalletAdaptor_ProcessTransaction ctx p w)"
| "serve cr ctx (CallProcessTransactionBatch ps) w = answer BatchResult (WalletAdaptor_ProcessTransactionBatch ctx ps w)"
| "serve cr ctx (CallEarnPoints p) w = answer TransactionResult (WalletAdaptor_EarnPoints ctx p w)"
| "serve cr ctx (CallSpendPoints p) w = answer TransactionResult (WalletAdaptor_SpendPoints ctx p w)"
| "serve cr ctx CallFetchMyAccounts w = answer AccountsListResult (AccountAdaptor_FetchMyAccounts ctx w)"
| "serve cr ctx (CallGetAccountByID p) w = answer AccountValueResult (AccountAdaptor_GetAccountByID ctx p w)"
| "serve cr ctx (CallGetAccountBalance p) w = answer AccountBalanceResult (AccountAdaptor_GetAccountBalance ctx p w)"
| "serve cr ctx (CallUpdateAccountName p) w = answer AccountValueResult (AccountAdaptor_UpdateAccountName ctx p w)"
| "serve cr ctx (CallUpdateAccountBalance p) w = answer AccountBalanceResult (AccountAdaptor_UpdateAccountBalance ctx p w)"
| "serve cr ctx (CallOpenAccount p) w = answer OpenedResult (OpenerAdaptor_OpenAccount ctx p w)"
| "serve cr ctx (CallFetchTransactionAuditTrail ref) w =
     answer AuditTrailResult (AuditAdaptor_FetchTransactionAuditTrail ctx ref w)"

section \<open>What a call may change\<close>

lemma answer_world [simp]: "snd (answer f p) = snd p"
  by (cases p) (auto simp: answer_def split: sum.split)

lemma answer_Inr: "answer f p = (Inr y, w') \<longleftrightarrow> (\<exists>x. p = (Inr x, w') \<and> y = f x)"
  by (cases p) (auto simp: answer_def split: sum.splits)

lemma answer_Inl: "answer f p = (Inl e, w') \<longleftrightarrow> p = (Inl e, w')"
  by (cases p) (auto simp: answer_def split: sum.splits)

text \<open>The statements that write, as one contract: a relation that all of them follow.\<close>

definition respected :: "(tables \<Rightarrow> tables \<Rightarrow> bool) \<Rightarrow> bool" where
  "respected R \<longleftrightarrow>
     (\<forall>row T x T'. insert_user row T = Inr (x, T') \<longrightarrow> R T T') \<and>
     (\<forall>uid T x T'. increment_token_version uid T = Inr (x, T') \<longrightarrow> R T T') \<and>
     (\<forall>row T x T'. insert_account row T = Inr (x, T') \<longrightarrow> R T T') \<and>
     (\<forall>aid d sc T x T'. update_balance aid d sc T = Inr (x, T') \<longrightarrow> R T T') \<and>
     (\<forall>aid nm sc T x T'. update_name aid nm sc T = Inr (x, T') \<longrightarrow> R T T') \<and>
     (\<forall>row T x T'. insert_transaction row T = Inr (x, T') \<longrightarrow> R T T') \<and>
     (\<forall>row T x T'. insert_audit row T = Inr (x, T') \<longrightarrow> R T T')"

lemma respectedD:
  assumes "respected R"
  shows "insert_user urow T = Inr (x1, T') \<Longrightarrow> R T T'"
    "increment_token_version uid T = Inr (x2, T') \<Longrightarrow> R T T'"
    "insert_account arow T = Inr (x3, T') \<Longrightarrow> R T T'"
    "update_balance aid d sc T = Inr (x4, T') \<Longrightarrow> R T T'"
    "update_name aid nm sc T = Inr (x5, T') \<Longrightarrow> R T T'"
    "insert_transaction trow T = Inr (x6, T') \<Longrightarrow> R T T'"
    "insert_audit erow T = Inr (x7, T') \<Longrightarrow> R T T'"
  using assms unfolding respected_def by (elim conjE, metis)+

context table_relation
begin

lemma serve_evolves:
  assumes "respected R"
  shows "evolves R ctx w (snd (serve cr ctx call w))"
proof -
  note d = respectedD [OF assms]
  show ?thesis
    by (cases call; simp)
      ((rule LoginAdaptor_Login_evolves Logout_evolves(2) Register_evolves WalletAdaptor_evolves
        AccountAdaptor_reads_evolve AccountAdaptor_UpdateAccountName_evolves AccountAdaptor_UpdateAccountBalance_evolves
        OpenerAdaptor_OpenAccount_evolves AuditAdaptor_evolves; (erule d)?)+)
qed

end

lemma respected_durable: "respected durable"
  unfolding respected_def
  by (auto dest: insert_user_durable increment_durable insert_account_durable update_balance_durable
      update_name_durable insert_transaction_durable insert_audit_durable)

end
