(* ===== verification/Middleware.thy ===== *)
theory Middleware
  imports Rpc
begin

text \<open>
  The HTTP layer in front of the services: the request-scoped logger (\<open>pkg/logger/middleware.go\<close>), the
  rate limiters (\<open>pkg/rateLimiting\<close>, \<open>internal/pkg/rateLimiting\<close>), the authorization middleware
  (\<open>pkg/authorization/authorizationMiddleware.go\<close>) and their order in \<open>cmd/app/setupRPCServer.go\<close>.
  The token bucket library, the JSON decoding of the envelope and the gorilla codec are parameters
  (\<open>library\<close>). A handler is a function from the request and the server state to the response and
  the next state.
\<close>

section \<open>Requests, bodies and responses\<close>

text \<open>
  A body delivers its bytes and then ends (\<open>Body\<close>) or fails (\<open>BodyFails\<close>). \<open>read_all\<close> is
  \<open>io.ReadAll\<close> behind \<open>http.MaxBytesReader\<close>: more bytes than the cap are an error. Both errors are
  sticky: a body that failed once delivers no more bytes and fails the same way again.
\<close>

datatype read_error = MaxBytesError int | ReadFailed string

datatype body = Body string | BodyFails string read_error

fun read_all :: "int \<Rightarrow> body \<Rightarrow> read_error + string" where
  "read_all limit (Body s) = (if int (length s) > limit then Inl (MaxBytesError limit) else Inr s)"
| "read_all limit (BodyFails s e) = (if int (length s) > limit then Inl (MaxBytesError limit) else Inl e)"

record http_request =
  hr_Verb :: string
  hr_ContentType :: string
  hr_Authorization :: string
  hr_RequestID :: string
  hr_RemoteAddr :: string
  hr_Body :: body
  hr_Context :: go_context

text \<open>
  What is written: an error envelope of a middleware, a refusal of the codec (wrong verb or content
  type, unknown method, bad parameters) with its status, or the reply of a handler.
\<close>

datatype payload =
    ErrorEnvelope http_error_response
  | CodecRefusal nat string
  | RpcReply "rpc_error + rpc_result"

fun payload_status :: "payload \<Rightarrow> nat" where
  "payload_status (ErrorEnvelope e) = http_Status e"
| "payload_status (CodecRefusal st m) = st"
| "payload_status (RpcReply r) = 200"

record http_response =
  rs_RequestID :: string
  rs_Payload :: payload
  rs_LoggedStatus :: nat
  rs_Duration :: gotime

section \<open>Parameters and server state\<close>

record token_bucket =
  tb_Key :: string
  tb_TTL :: int
  tb_Capacity :: int
  tb_RefillRate :: int

datatype limit_reply = Granted int | Exhausted | LimitBroken string

text \<open>
  \<open>limiters_Limit\<close> is \<open>(*limiters.TokenBucket).Limit\<close> on the shared store. \<open>json_Envelope\<close> is
  \<open>json.Unmarshal\<close> into the envelope: whether it succeeded, the method and the raw id.
  \<open>gorilla_Call\<close> is the codec: a refusal, or the call with its decoded parameters.
\<close>

record ('s, 'l) library =
  lib_Crypto :: "'s crypto"
  json_Envelope :: "string \<Rightarrow> bool \<times> string \<times> string"
  gorilla_Call :: "http_request \<Rightarrow> (nat \<times> string) + rpc_call"
  limiters_Limit :: "token_bucket \<Rightarrow> 'l \<Rightarrow> limit_reply \<times> 'l"

text \<open>
  A body that is one JSON value, as \<open>json.Unmarshal\<close> demands: the codec dispatches on the method it
  finds there, which is the one in the envelope. Nothing is asked about other bodies; the authorization
  middleware refuses them.
\<close>

definition library_ok :: "('s, 'l) library \<Rightarrow> bool" where
  "library_ok lib \<longleftrightarrow> crypto_ok (lib_Crypto lib) \<and>
     (\<forall>r call text m i. gorilla_Call lib r = Inr call \<longrightarrow> hr_Body r = Body text \<longrightarrow>
        json_Envelope lib text = (True, m, i) \<longrightarrow> rpc_method call = m)"

record 'l server =
  srv_World :: world
  srv_Limits :: 'l

type_synonym 'l handler = "http_request \<Rightarrow> 'l server \<Rightarrow> payload \<times> 'l server"

section \<open>Rate limiting\<close>

datatype limit_error = ErrLimitExhausted | LimitError string

definition TokenStateBackend :: "string \<Rightarrow> int \<Rightarrow> string + string \<times> int" where
  "TokenStateBackend key ttl = Inr (key, ttl)"

definition TokenBucket :: "int \<Rightarrow> int \<Rightarrow> string \<times> int \<Rightarrow> token_bucket" where
  "TokenBucket capacity refillRate backend =
     \<lparr>tb_Key = fst backend, tb_TTL = snd backend, tb_Capacity = capacity, tb_RefillRate = refillRate\<rparr>"

definition Limit :: "('s, 'l) library \<Rightarrow> token_bucket \<Rightarrow> 'l \<Rightarrow> (limit_error + int) \<times> 'l" where
  "Limit lib bucket l =
     (case limiters_Limit lib bucket l of
        (Granted wait, l) \<Rightarrow> (Inr wait, l)
      | (Exhausted, l) \<Rightarrow> (Inl ErrLimitExhausted, l)
      | (LimitBroken m, l) \<Rightarrow> (Inl (LimitError (''rate limiting failed: '' @ m)), l))"

text \<open>The part both limiters share once they have their key.\<close>

definition limit_by_key ::
    "('s, 'l) library \<Rightarrow> string \<Rightarrow> int \<Rightarrow> int \<Rightarrow> ('l server \<Rightarrow> payload \<times> 'l server) \<Rightarrow> 'l server \<Rightarrow> payload \<times> 'l server" where
  "limit_by_key lib key capacity refillRate continue s =
     (case TokenStateBackend key (refillRate * capacity) of
        Inl err \<Rightarrow> (ErrorEnvelope (WriteErrorStatus 500 [] CodeInternal ''internal server error'' ''internal''), s)
      | Inr stateBackend \<Rightarrow>
        (case Limit lib (TokenBucket capacity refillRate stateBackend) (srv_Limits s) of
           (Inl ErrLimitExhausted, l) \<Rightarrow>
             (ErrorEnvelope (WriteErrorStatus 429 [] CodeTooManyRequests ''too many requests'' ''rate_limited''),
              s\<lparr>srv_Limits := l\<rparr>)
         | (Inl (LimitError m), l) \<Rightarrow>
             (ErrorEnvelope (WriteErrorStatus 500 [] CodeInternal ''internal server error'' ''internal''),
              s\<lparr>srv_Limits := l\<rparr>)
         | (Inr wait, l) \<Rightarrow> continue (s\<lparr>srv_Limits := l\<rparr>)))"

definition userRateLimiter_ServeHTTP :: "('s, 'l) library \<Rightarrow> int \<Rightarrow> int \<Rightarrow> 'l handler \<Rightarrow> 'l handler" where
  "userRateLimiter_ServeHTTP lib capacity refillRate nxt r s =
     (case LoginClaimFromContext (hr_Context r) of
        None \<Rightarrow> nxt r s
      | Some claim \<Rightarrow>
          limit_by_key lib (''user_token_bucket:'' @ claim_UserID claim) capacity refillRate (nxt r) s)"

text \<open>\<open>net.SplitHostPort\<close>: the host, when the address has the form host:port.\<close>

definition SplitHostPort :: "string \<Rightarrow> string option" where
  "SplitHostPort hostport =
     (let before = rev (drop 1 (dropWhile (\<lambda>c. c \<noteq> CHR '':'') (rev hostport))); i = length before in
      if CHR '':'' \<notin> set hostport then None
      else if hd hostport = CHR ''['' then
        (let e = length (takeWhile (\<lambda>c. c \<noteq> CHR '']'') hostport) in
         if e = length hostport then None
         else if e + 1 \<noteq> i then None
         else if CHR ''['' \<in> set (drop 1 hostport) \<or> CHR '']'' \<in> set (drop (e + 1) hostport) then None
         else Some (drop 1 (take e hostport)))
      else if CHR '':'' \<in> set before then None
      else if CHR ''['' \<in> set hostport \<or> CHR '']'' \<in> set hostport then None
      else Some before)"

definition maxPeekBodyBytes :: int where "maxPeekBodyBytes = 4194304"

definition peekMethod :: "('s, 'l) library \<Rightarrow> http_request \<Rightarrow> string option \<times> http_request" where
  "peekMethod lib r =
     (case read_all maxPeekBodyBytes (hr_Body r) of
        Inl err \<Rightarrow> (None, r\<lparr>hr_Body := BodyFails [] err\<rparr>)
      | Inr text \<Rightarrow>
          let r = r\<lparr>hr_Body := Body text\<rparr> in
          (case json_Envelope lib text of (ok, m, i) \<Rightarrow>
             if \<not> ok \<or> m = [] then (None, r) else (Some m, r)))"

definition ipRateLimiter_ServeHTTP ::
    "('s, 'l) library \<Rightarrow> (string \<rightharpoonup> bool) \<Rightarrow> int \<Rightarrow> int \<Rightarrow> 'l handler \<Rightarrow> 'l handler" where
  "ipRateLimiter_ServeHTTP lib methods capacity refillRate nxt r s =
     (case peekMethod lib r of
        (None, r) \<Rightarrow> nxt r s
      | (Some m, r) \<Rightarrow>
          if methods m \<noteq> Some True then nxt r s
          else
            let ip = (case SplitHostPort (hr_RemoteAddr r) of Some host \<Rightarrow> host | None \<Rightarrow> hr_RemoteAddr r) in
            limit_by_key lib (''ip_token_bucket:'' @ ip) capacity refillRate (nxt r) s)"

section \<open>Authorization\<close>

definition maxRequestBodyBytes :: int where "maxRequestBodyBytes = 4194304"

definition authorizationMiddleware :: "('s, 'l) library \<Rightarrow> Policy \<Rightarrow> 'l handler \<Rightarrow> 'l handler" where
  "authorizationMiddleware lib policy nxt r s =
     (case read_all maxRequestBodyBytes (hr_Body r) of
        Inl (MaxBytesError limit) \<Rightarrow>
          (ErrorEnvelope (WriteError [] CodeInvalidParams ''request body too large'' ''body_too_large''), s)
      | Inl (ReadFailed m) \<Rightarrow>
          (ErrorEnvelope (WriteError [] CodeParseError ''could not read request body'' ''parse''), s)
      | Inr text \<Rightarrow>
        let r = r\<lparr>hr_Body := Body text\<rparr> in
        (case json_Envelope lib text of (ok, m, i) \<Rightarrow>
          if \<not> ok \<or> m = [] then
            (ErrorEnvelope (WriteError i CodeParseError ''could not parse JSON-RPC request'' ''parse''), s)
          else if Policy_IsPublic policy m then nxt r s
          else
            let token = ExtractToken (hr_Authorization r) in
            if token = [] then
              (ErrorEnvelope (WriteError i CodeUnauthorized ''unauthorized'' ''unauthorized''), s)
            else
            (case ValidateAccessToken (lib_Crypto lib) (hr_Context r) \<lparr>vat_AccessToken = token\<rparr> (srv_World s) of
               (Inl err, w) \<Rightarrow>
                 (ErrorEnvelope (WriteError i CodeUnauthorized ''unauthorized'' ''unauthorized''), s\<lparr>srv_World := w\<rparr>)
             | (Inr claim, w) \<Rightarrow>
                 let s = s\<lparr>srv_World := w\<rparr> in
                 if \<not> Policy_Authorize policy (claim_Permissions claim) m then
                   (ErrorEnvelope (WriteError i CodeForbidden
                      (''not permitted to call '' @ strconv_Quote m) ''forbidden''), s)
                 else nxt (r\<lparr>hr_Context := ContextWithLoginClaim (hr_Context r) claim\<rparr>) s)))"

section \<open>Dispatch, logging and the router\<close>

text \<open>A handler's error goes through \<open>MapError\<close>, the error mapper of the codec.\<close>

definition jsonRPCServer :: "('s, 'l) library \<Rightarrow> 'l handler" where
  "jsonRPCServer lib r s =
     (case gorilla_Call lib r of
        Inl (st, m) \<Rightarrow> (CodecRefusal st m, s)
      | Inr call \<Rightarrow>
        (case serve (lib_Crypto lib) (hr_Context r) call (srv_World s) of
           (Inl err, w) \<Rightarrow> (RpcReply (Inl (map_error_nonnil err)), s\<lparr>srv_World := w\<rparr>)
         | (Inr res, w) \<Rightarrow> (RpcReply (Inr res), s\<lparr>srv_World := w\<rparr>)))"

definition logger_Middleware :: "'l handler \<Rightarrow> http_request \<Rightarrow> 'l server \<Rightarrow> http_response \<times> 'l server" where
  "logger_Middleware nxt r s =
     (case (if hr_RequestID r = [] then uuid_NewString (srv_World s) else (hr_RequestID r, srv_World s)) of
        (requestID, w) \<Rightarrow>
      (case time_Now w of (start, w) \<Rightarrow>
      (case nxt r (s\<lparr>srv_World := w\<rparr>) of (p, s) \<Rightarrow>
      (case time_Now (srv_World s) of (now, w) \<Rightarrow>
         (\<lparr>rs_RequestID = requestID, rs_Payload = p, rs_LoggedStatus = payload_status p,
           rs_Duration = now - start\<rparr>, s\<lparr>srv_World := w\<rparr>)))))"

definition millisecond :: int where "millisecond = 1000000"

definition authRateCapacity :: int where "authRateCapacity = 200"
definition authRateRefill :: int where "authRateRefill = 100 * millisecond"
definition userRateCapacity :: int where "userRateCapacity = 100"
definition userRateRefill :: int where "userRateRefill = 20 * millisecond"

definition publicAuthMethods :: "string \<rightharpoonup> bool" where
  "publicAuthMethods =
     [''EmailPasswordAuthenticator.Login'' \<mapsto> True, ''UserRegistrationService.Register'' \<mapsto> True]"

text \<open>\<open>limited\<close> says whether a rate limiter is wired. The context of a new request carries nothing.\<close>

definition apiRouter :: "('s, 'l) library \<Rightarrow> bool \<Rightarrow> 'l handler" where
  "apiRouter lib limited =
     (if limited then
        ipRateLimiter_ServeHTTP lib publicAuthMethods authRateCapacity authRateRefill
          (authorizationMiddleware lib DefaultPolicy
            (userRateLimiter_ServeHTTP lib userRateCapacity userRateRefill (jsonRPCServer lib)))
      else authorizationMiddleware lib DefaultPolicy (jsonRPCServer lib))"

definition api :: "('s, 'l) library \<Rightarrow> bool \<Rightarrow> http_request \<Rightarrow> 'l server \<Rightarrow> http_response \<times> 'l server" where
  "api lib limited r s = logger_Middleware (apiRouter lib limited) (r\<lparr>hr_Context := background\<rparr>) s"

text \<open>A history: requests handled one after the other.\<close>

fun api_run :: "('s, 'l) library \<Rightarrow> bool \<Rightarrow> http_request list \<Rightarrow> 'l server \<Rightarrow> 'l server" where
  "api_run lib limited [] s = s"
| "api_run lib limited (r # rs) s = api_run lib limited rs (snd (api lib limited r s))"

end
