(* ===== verification/Api.thy ===== *)
theory Api
  imports Middleware
begin

text \<open>
  The server as a whole: what a request does to the tables. First the relations every history of
  requests follows, then the reduction of a request to the one call it makes: the middlewares either
  refuse it and leave the tables alone, or hand it to \<open>serve\<close> for a caller they admitted.
\<close>

section \<open>Relations along a history\<close>

lemma evolves_ctx: "ctx_Tx ctx = ctx_Tx ctx' \<Longrightarrow> evolves R ctx w w' = evolves R ctx' w w'"
  by (simp add: evolves_def connected_def view_def)

lemma evolves_background: "\<not> ctx_Tx ctx \<Longrightarrow> evolves R ctx w w' \<Longrightarrow> evolves R background w w'"
  using evolves_ctx [of ctx background] by (simp add: background_def)

definition handler_evolves :: "(tables \<Rightarrow> tables \<Rightarrow> bool) \<Rightarrow> 'l handler \<Rightarrow> bool" where
  "handler_evolves R h \<longleftrightarrow> (\<forall>r s. \<not> ctx_Tx (hr_Context r) \<longrightarrow>
     evolves R background (srv_World s) (srv_World (snd (h r s))))"

lemma handler_evolvesD:
  "handler_evolves R h \<Longrightarrow> \<not> ctx_Tx (hr_Context r) \<Longrightarrow> h r s = (p, s') \<Longrightarrow>
   evolves R background (srv_World s) (srv_World s')"
  unfolding handler_evolves_def by (metis snd_conv)

context table_relation
begin

lemma evolves_seq: "evolves R ctx u v \<Longrightarrow> evolves R ctx v w \<Longrightarrow> evolves R ctx u w"
  using R_trans unfolding evolves_def by metis

lemma jsonRPCServer_evolves:
  fixes lib :: "('s, 'l) library"
  assumes "respected R"
  shows "handler_evolves R (jsonRPCServer lib)"
  unfolding handler_evolves_def
proof (intro allI impI)
  fix r :: http_request and s :: "'l server" assume idle: "\<not> ctx_Tx (hr_Context r)"
  show "evolves R background (srv_World s) (srv_World (snd (jsonRPCServer lib r s)))"
  proof (cases "gorilla_Call lib r")
    case (Inl e)
    then show ?thesis by (simp add: jsonRPCServer_def evolves_refl split: prod.split)
  next
    case (Inr call)
    obtain x w where w: "serve (lib_Crypto lib) (hr_Context r) call (srv_World s) = (x, w)" by fastforce
    have "evolves R background (srv_World s) w"
      using evolves_background [OF idle serve_evolves [OF assms, of "hr_Context r" "srv_World s" "lib_Crypto lib" call]] w by simp
    then show ?thesis using Inr w by (simp add: jsonRPCServer_def split: sum.split)
  qed
qed

lemma limit_by_key_evolves:
  "(\<And>s. evolves R background (srv_World s) (srv_World (snd (k s)))) \<Longrightarrow>
   evolves R background (srv_World s) (srv_World (snd (limit_by_key lib key c rr k s)))"
  by (simp add: limit_by_key_def evolves_refl split: sum.split prod.split limit_error.split)
     (metis server.select_convs(1) server.surjective server.update_convs(2))

lemma userRateLimiter_evolves: "handler_evolves R h \<Longrightarrow> handler_evolves R (userRateLimiter_ServeHTTP lib c rr h)"
  by (auto simp: handler_evolves_def userRateLimiter_ServeHTTP_def intro: limit_by_key_evolves split: option.split)

lemma peekMethod_context: "peekMethod lib r = (m, r') \<Longrightarrow> hr_Context r' = hr_Context r"
  by (auto simp: peekMethod_def Let_def split: sum.splits prod.splits if_splits)

lemma ipRateLimiter_evolves:
  "handler_evolves R h \<Longrightarrow> handler_evolves R (ipRateLimiter_ServeHTTP lib ms c rr h)"
  by (auto simp: handler_evolves_def ipRateLimiter_ServeHTTP_def Let_def dest: peekMethod_context
      intro!: limit_by_key_evolves split: option.split prod.split)

lemma authorization_evolves:
  fixes lib :: "('s, 'l) library"
  assumes "handler_evolves R h"
  shows "handler_evolves R (authorizationMiddleware lib policy h)"
  unfolding handler_evolves_def
proof (intro allI impI)
  fix r :: http_request and s :: "'l server" assume idle: "\<not> ctx_Tx (hr_Context r)"
  have v: "evolves R background (srv_World s) w"
    if "ValidateAccessToken (lib_Crypto lib) (hr_Context r) q (srv_World s) = (x, w)" for q x w
    using ValidateAccessToken_evolves [of "hr_Context r" "srv_World s" "lib_Crypto lib" q] that idle evolves_background by (metis snd_conv)
  have nx: "evolves R background (srv_World t) (srv_World (snd (h q t)))"
    if "hr_Context q = ContextWithLoginClaim (hr_Context r) c \<or> hr_Context q = hr_Context r" for q c and t :: "'l server"
    using assms that idle unfolding handler_evolves_def ContextWithLoginClaim_def by auto
  have ok: "evolves R background (srv_World s) (srv_World (snd (h q (s\<lparr>srv_World := w\<rparr>))))"
    if "ValidateAccessToken (lib_Crypto lib) (hr_Context r) q' (srv_World s) = (x, w)"
      "hr_Context q = ContextWithLoginClaim (hr_Context r) c" for q q' x w c
    using evolves_seq [OF v [OF that(1)]] nx [of q c "s\<lparr>srv_World := w\<rparr>"] that(2) by simp
  show "evolves R background (srv_World s) (srv_World (snd (authorizationMiddleware lib policy h r s)))"
    by (auto simp: authorizationMiddleware_def Let_def evolves_refl
        split: sum.split prod.split read_error.split intro: v nx ok)
qed

lemma apiRouter_evolves: "respected R \<Longrightarrow> handler_evolves R (apiRouter lib limited)"
  by (simp add: apiRouter_def ipRateLimiter_evolves authorization_evolves userRateLimiter_evolves jsonRPCServer_evolves)

lemma api_evolves:
  assumes "respected R"
  shows "evolves R background (srv_World s) (srv_World (snd (api lib limited r s)))"
proof -
  let ?r = "r\<lparr>hr_Context := background\<rparr>"
  obtain rid w1 where rid: "(if hr_RequestID ?r = [] then uuid_NewString (srv_World s) else (hr_RequestID ?r, srv_World s)) = (rid, w1)" by fastforce
  obtain t w2 where t: "time_Now w1 = (t, w2)" by fastforce
  obtain p s3 where p: "apiRouter lib limited ?r (s\<lparr>srv_World := w2\<rparr>) = (p, s3)" by fastforce
  obtain t' w4 where t': "time_Now (srv_World s3) = (t', w4)" by fastforce
  have "evolves R background (srv_World s) w1"
    using rid evolves_uuid [of background "srv_World s"] evolves_refl [of background "srv_World s"] by (auto split: if_splits)
  moreover have "evolves R background w1 w2" using evolves_time_Now [of background w1] t by simp
  moreover have "evolves R background w2 (srv_World s3)"
    using handler_evolvesD [OF apiRouter_evolves [OF assms] _ p] by (simp add: background_def)
  moreover have "evolves R background (srv_World s3) w4" using evolves_time_Now [of background "srv_World s3"] t' by simp
  ultimately have "evolves R background (srv_World s) w4" by (blast intro: evolves_seq)
  moreover have "srv_World (snd (api lib limited r s)) = w4"
    using rid t p t' by (simp add: api_def logger_Middleware_def)
  ultimately show ?thesis by simp
qed

lemma api_run_evolves:
  "respected R \<Longrightarrow> evolves R background (srv_World s) (srv_World (api_run lib limited rs s))"
proof (induction rs arbitrary: s)
  case Nil
  show ?case by (simp add: evolves_refl)
next
  case (Cons r rs)
  show ?case using evolves_seq [OF api_evolves [OF Cons.prems] Cons.IH [OF Cons.prems]] by simp
qed

lemma api_run_related:
  assumes "respected R" "w_tx (srv_World s) = None"
  shows "w_tx (srv_World (api_run lib limited rs s)) = None \<and>
    w_env (srv_World (api_run lib limited rs s)) = w_env (srv_World s) \<and>
    R (w_db (srv_World s)) (w_db (srv_World (api_run lib limited rs s)))"
  using evolves_idle [OF api_run_evolves [OF assms(1)], of s lib limited rs] assms(2) by (simp add: background_def)

end

section \<open>A request is refused or served\<close>

text \<open>
  \<open>admitted\<close>: the authorization middleware lets the method through, with this context, on these
  tables. A protected method needs a token that decodes to a claim which has not expired, whose
  token version is the stored one of its user, and whose permissions authorize the method.
\<close>

definition admitted :: "('s, 'l) library \<Rightarrow> world \<Rightarrow> string \<Rightarrow> string \<Rightarrow> go_context \<Rightarrow> bool" where
  "admitted lib w token m ctx \<longleftrightarrow>
     Policy_IsPublic DefaultPolicy m \<and> ctx = background \<or>
     (\<exists>claim n. ctx = ContextWithLoginClaim background claim \<and> token \<noteq> [] \<and>
        decodes (lib_Crypto lib) token claim \<and>
        Unix (env_Now (w_env w) n) \<le> claim_ExpirationTime claim \<and>
        (\<exists>u \<in> set (users (w_db w)). u_id u = claim_UserID claim \<and> u_token_version u = claim_TokenVersion claim) \<and>
        Policy_Authorize DefaultPolicy (claim_Permissions claim) m)"

text \<open>Same tables, no transaction, same environment.\<close>

definition still :: "world \<Rightarrow> world \<Rightarrow> bool" where
  "still w w' \<longleftrightarrow> w_db w' = w_db w \<and> w_tx w' = None \<and> w_tx w = None \<and> w_env w' = w_env w"

lemma still_refl: "w_tx w = None \<Longrightarrow> still w w"
  by (simp add: still_def)

lemma still_trans: "still u v \<Longrightarrow> still v w \<Longrightarrow> still u w"
  by (simp add: still_def)

fun reply_of :: "go_error + rpc_result \<Rightarrow> payload" where
  "reply_of (Inl err) = RpcReply (Inl (map_error_nonnil err))"
| "reply_of (Inr res) = RpcReply (Inr res)"

fun refusal :: "payload \<Rightarrow> bool" where
  "refusal (RpcReply x) = False"
| "refusal p = True"

lemma jsonRPCServer_cases:
  assumes "jsonRPCServer lib r s = (p, s')"
  shows "refusal p \<and> s' = s \<or>
    (\<exists>call x w'. gorilla_Call lib r = Inr call \<and>
      serve (lib_Crypto lib) (hr_Context r) call (srv_World s) = (x, w') \<and> p = reply_of x \<and> srv_World s' = w')"
  using assms by (auto simp: jsonRPCServer_def split: sum.splits prod.splits)

lemma limit_by_key_cases:
  assumes "limit_by_key lib key c rr k s = (p, s')"
  shows "(\<exists>l. refusal p \<and> s' = s\<lparr>srv_Limits := l\<rparr>) \<or> (\<exists>l. k (s\<lparr>srv_Limits := l\<rparr>) = (p, s'))"
  using assms by (auto simp: limit_by_key_def TokenStateBackend_def split: sum.splits prod.splits limit_error.splits)

lemma userRateLimiter_cases:
  assumes "userRateLimiter_ServeHTTP lib c rr h r s = (p, s')"
  shows "refusal p \<and> srv_World s' = srv_World s \<or> (\<exists>s1. h r s1 = (p, s') \<and> srv_World s1 = srv_World s)"
  using assms by (auto simp: userRateLimiter_ServeHTTP_def split: option.splits dest!: limit_by_key_cases)

lemma peekMethod_body:
  assumes "peekMethod lib r = (m, r')"
  shows "\<exists>b. r' = r\<lparr>hr_Body := b\<rparr> \<and> read_all maxRequestBodyBytes b = read_all maxRequestBodyBytes (hr_Body r)"
proof (cases "read_all maxRequestBodyBytes (hr_Body r)")
  case (Inl e)
  then have "r' = r\<lparr>hr_Body := BodyFails [] e\<rparr>"
    using assms by (simp add: peekMethod_def maxPeekBodyBytes_def maxRequestBodyBytes_def)
  then show ?thesis using Inl by (auto simp: maxRequestBodyBytes_def)
next
  case (Inr t)
  then have "r' = r\<lparr>hr_Body := Body t\<rparr>"
    using assms unfolding peekMethod_def maxPeekBodyBytes_def maxRequestBodyBytes_def
    by (cases "json_Envelope lib t") (simp add: Let_def split: if_splits)
  moreover have "read_all maxRequestBodyBytes (Body t) = Inr t" using Inr by (cases "hr_Body r") (simp_all split: if_splits)
  ultimately show ?thesis using Inr by auto
qed

lemma ipRateLimiter_cases:
  assumes "ipRateLimiter_ServeHTTP lib ms c rr h r s = (p, s')"
  shows "refusal p \<and> srv_World s' = srv_World s \<or>
    (\<exists>b s1. h (r\<lparr>hr_Body := b\<rparr>) s1 = (p, s') \<and> srv_World s1 = srv_World s \<and>
       read_all maxRequestBodyBytes b = read_all maxRequestBodyBytes (hr_Body r))"
proof -
  obtain m r' where pk: "peekMethod lib r = (m, r')" by fastforce
  obtain b where b: "r' = r\<lparr>hr_Body := b\<rparr>" "read_all maxRequestBodyBytes b = read_all maxRequestBodyBytes (hr_Body r)"
    using peekMethod_body [OF pk] by blast
  have "refusal p \<and> srv_World s' = srv_World s \<or> (\<exists>s1. h r' s1 = (p, s') \<and> srv_World s1 = srv_World s)"
    using assms pk by (auto simp: ipRateLimiter_ServeHTTP_def Let_def split: option.splits if_splits dest!: limit_by_key_cases)
  then show ?thesis using b by blast
qed

lemma read_all_Inr: "read_all n b = Inr t \<longleftrightarrow> b = Body t \<and> int (length t) \<le> n"
  by (cases b) auto

lemma ValidateAccessToken_still:
  assumes "ValidateAccessToken cr ctx rq w = (x, w')" "w_tx w = None" "\<not> ctx_Tx ctx"
  shows "still w w'"
  using evolves_idle [OF frozen.ValidateAccessToken_evolves assms(3,2), of cr rq] assms(1,2) by (simp add: still_def)

lemma authorization_cases:
  assumes run: "authorizationMiddleware lib DefaultPolicy h r s = (p, s')"
    and idle: "w_tx (srv_World s) = None" "hr_Context r = background"
  shows "refusal p \<and> still (srv_World s) (srv_World s') \<or>
    (\<exists>bytes m i ctx s1. hr_Body r = Body bytes \<and> int (length bytes) \<le> maxRequestBodyBytes \<and> json_Envelope lib bytes = (True, m, i) \<and>
       admitted lib (srv_World s) (ExtractToken (hr_Authorization r)) m ctx \<and>
       still (srv_World s) (srv_World s1) \<and> srv_Limits s1 = srv_Limits s \<and> h (r\<lparr>hr_Context := ctx\<rparr>) s1 = (p, s'))"
proof (cases "read_all maxRequestBodyBytes (hr_Body r)")
  case (Inl e)
  then show ?thesis using run idle by (auto simp: authorizationMiddleware_def still_refl split: read_error.splits)
next
  case (Inr bytes)
  let ?tok = "ExtractToken (hr_Authorization r)"
  obtain ok m i where env: "json_Envelope lib bytes = (ok, m, i)" by (cases "json_Envelope lib bytes") auto
  have body: "hr_Body r = Body bytes" "int (length bytes) \<le> maxRequestBodyBytes" using Inr by (simp_all add: read_all_Inr)
  have same: "r\<lparr>hr_Body := Body bytes\<rparr> = r" using body by simp
  have ctx: "r\<lparr>hr_Context := background\<rparr> = r" using idle(2) by (cases r) simp
  obtain x w where val: "ValidateAccessToken (lib_Crypto lib) background \<lparr>vat_AccessToken = ?tok\<rparr> (srv_World s) = (x, w)" by fastforce
  have st: "still (srv_World s) w" using ValidateAccessToken_still [OF val idle(1)] by (simp add: background_def)
  have run': "authorizationMiddleware lib DefaultPolicy h r s = (p, s')" "read_all maxRequestBodyBytes (hr_Body r) = Inr bytes"
    using run Inr by auto
  consider "\<not> ok \<or> m = []" | "ok" "m \<noteq> []" "Policy_IsPublic DefaultPolicy m"
    | "ok" "m \<noteq> []" "\<not> Policy_IsPublic DefaultPolicy m" by blast
  then show ?thesis
  proof cases
    case 1
    then show ?thesis using run' env idle by (auto simp: authorizationMiddleware_def Let_def still_refl)
  next
    case 2
    then have "h r s = (p, s')" using run' env same by (simp add: authorizationMiddleware_def Let_def)
    then have "h (r\<lparr>hr_Context := background\<rparr>) s = (p, s')" by (simp only: ctx)
    moreover have "admitted lib (srv_World s) ?tok m background" using 2 by (simp add: admitted_def)
    moreover have "json_Envelope lib bytes = (True, m, i)" using env 2 by simp
    ultimately show ?thesis using body still_refl [OF idle(1)] by blast
  next
    case 3
    show ?thesis
    proof (cases "?tok = [] \<or> (\<exists>e. x = Inl e)")
      case True
      then show ?thesis using run' env 3 val st idle
        by (auto simp: authorizationMiddleware_def Let_def still_refl split: if_splits)
    next
      case False
      then obtain claim where x: "x = Inr claim" by (cases x) auto
      note adm = ValidateAccessToken_Inr [OF val [unfolded x]]
      show ?thesis
      proof (cases "Policy_Authorize DefaultPolicy (claim_Permissions claim) m")
        case False
        then show ?thesis using run' env 3 val st x idle \<open>\<not> (?tok = [] \<or> _)\<close>
          by (auto simp: authorizationMiddleware_def Let_def)
      next
        case True
        have "h (r\<lparr>hr_Context := ContextWithLoginClaim background claim\<rparr>) (s\<lparr>srv_World := w\<rparr>) = (p, s')"
          using run' env 3 val x True idle same \<open>\<not> (?tok = [] \<or> _)\<close> by (simp add: authorizationMiddleware_def Let_def)
        moreover have "admitted lib (srv_World s) ?tok m (ContextWithLoginClaim background claim)"
          using adm True \<open>\<not> (?tok = [] \<or> _)\<close> idle(1) unfolding admitted_def
          by (auto simp: connected_def view_def background_def)
        moreover have "still (srv_World s) (srv_World (s\<lparr>srv_World := w\<rparr>))"
          "srv_Limits (s\<lparr>srv_World := w\<rparr>) = srv_Limits s" using st by simp_all
        moreover have "json_Envelope lib bytes = (True, m, i)" using env 3 by simp
        ultimately show ?thesis using body by blast
      qed
    qed
  qed
qed

text \<open>The call a request was served as.\<close>

definition served ::
    "('s, 'l) library \<Rightarrow> http_request \<Rightarrow> world \<Rightarrow> go_context \<Rightarrow> rpc_call \<Rightarrow> go_error + rpc_result \<Rightarrow> world \<Rightarrow> bool" where
  "served lib r w ctx call x w' \<longleftrightarrow>
     (\<exists>bytes i v. hr_Body r = Body bytes \<and> int (length bytes) \<le> maxRequestBodyBytes \<and>
        json_Envelope lib bytes = (True, rpc_method call, i) \<and>
        gorilla_Call lib (r\<lparr>hr_Context := ctx\<rparr>) = Inr call \<and>
        admitted lib w (ExtractToken (hr_Authorization r)) (rpc_method call) ctx \<and>
        still w v \<and> serve (lib_Crypto lib) ctx call v = (x, w'))"

lemma authorized_server_cases:
  assumes run: "authorizationMiddleware lib DefaultPolicy h r s = (p, s')"
    and h: "h = jsonRPCServer lib \<or> h = userRateLimiter_ServeHTTP lib c rr (jsonRPCServer lib)"
    and idle: "w_tx (srv_World s) = None" "hr_Context r = background" and lib: "library_ok lib"
  shows "refusal p \<and> still (srv_World s) (srv_World s') \<or>
    (\<exists>ctx call x. served lib r (srv_World s) ctx call x (srv_World s') \<and> p = reply_of x)"
proof -
  have hc: "refusal p \<and> srv_World s' = srv_World s1 \<or>
      (\<exists>call x. gorilla_Call lib q = Inr call \<and>
        serve (lib_Crypto lib) (hr_Context q) call (srv_World s1) = (x, srv_World s') \<and> p = reply_of x)"
    if "h q s1 = (p, s')" for q s1
    using h that by (auto dest!: jsonRPCServer_cases userRateLimiter_cases)
  from authorization_cases [OF run idle] show ?thesis
  proof (elim disjE exE conjE)
    fix bytes m i ctx s1
    assume a: "hr_Body r = Body bytes" "int (length bytes) \<le> maxRequestBodyBytes" "json_Envelope lib bytes = (True, m, i)"
      "admitted lib (srv_World s) (ExtractToken (hr_Authorization r)) m ctx"
      "still (srv_World s) (srv_World s1)" "h (r\<lparr>hr_Context := ctx\<rparr>) s1 = (p, s')" "srv_Limits s1 = srv_Limits s"
    from hc [OF a(6)] show ?thesis
    proof (elim disjE exE conjE)
      assume "refusal p" "srv_World s' = srv_World s1"
      then show ?thesis using a(5) by simp
    next
      fix call x
      assume c: "gorilla_Call lib (r\<lparr>hr_Context := ctx\<rparr>) = Inr call"
        "serve (lib_Crypto lib) (hr_Context (r\<lparr>hr_Context := ctx\<rparr>)) call (srv_World s1) = (x, srv_World s')" "p = reply_of x"
      have "m = rpc_method call" using lib c(1) a(1,3) unfolding library_ok_def by fastforce
      then show ?thesis using a c unfolding served_def by auto
    qed
  qed simp
qed

lemma apiRouter_cases:
  assumes run: "apiRouter lib limited r s = (p, s')"
    and idle: "w_tx (srv_World s) = None" "hr_Context r = background" and lib: "library_ok lib"
  shows "refusal p \<and> still (srv_World s) (srv_World s') \<or>
    (\<exists>ctx call x. served lib r (srv_World s) ctx call x (srv_World s') \<and> p = reply_of x)"
proof (cases limited)
  case False
  then show ?thesis using run authorized_server_cases [OF _ _ idle lib] by (simp add: apiRouter_def)
next
  case True
  let ?h = "authorizationMiddleware lib DefaultPolicy (userRateLimiter_ServeHTTP lib userRateCapacity userRateRefill (jsonRPCServer lib))"
  from run True have "ipRateLimiter_ServeHTTP lib publicAuthMethods authRateCapacity authRateRefill ?h r s = (p, s')"
    by (simp add: apiRouter_def)
  then consider "refusal p" "srv_World s' = srv_World s"
    | b s1 where "?h (r\<lparr>hr_Body := b\<rparr>) s1 = (p, s')" "srv_World s1 = srv_World s"
       "read_all maxRequestBodyBytes b = read_all maxRequestBodyBytes (hr_Body r)"
    by (blast dest: ipRateLimiter_cases)
  then show ?thesis
  proof cases
    case 1
    then show ?thesis using idle by (simp add: still_refl)
  next
    case 2
    have "w_tx (srv_World s1) = None" "hr_Context (r\<lparr>hr_Body := b\<rparr>) = background" using idle 2 by simp_all
    from authorized_server_cases [OF 2(1) disjI2 [OF refl] this lib]
    show ?thesis
    proof (elim disjE exE conjE)
      fix ctx call x
      assume sv: "served lib (r\<lparr>hr_Body := b\<rparr>) (srv_World s1) ctx call x (srv_World s')" "p = reply_of x"
      then obtain bytes where "b = Body bytes" "int (length bytes) \<le> maxRequestBodyBytes" by (auto simp: served_def)
      then have "hr_Body r = b" using 2(3) read_all_Inr [of maxRequestBodyBytes "hr_Body r" bytes] by simp
      then have "r\<lparr>hr_Body := b\<rparr> = r" by simp
      then show ?thesis using sv 2(2) by auto
    qed (use 2(2) in simp)
  qed
qed

lemma served_context: "served lib (r\<lparr>hr_Context := c\<rparr>) w ctx call x w' = served lib r w ctx call x w'"
  by (simp add: served_def)

lemma admitted_still: "still u v \<Longrightarrow> admitted lib v tok m ctx = admitted lib u tok m ctx"
  by (simp add: admitted_def still_def)

lemma served_still: "still u v \<Longrightarrow> served lib r v ctx call x w' \<Longrightarrow> served lib r u ctx call x w'"
  unfolding served_def by (auto simp: admitted_still dest: still_trans)

lemma respected_connection: "respected (\<lambda>_ _. True)"
  by (simp add: respected_def)

lemma admitted_idle: "admitted lib w tok m ctx \<Longrightarrow> \<not> ctx_Tx ctx"
  by (auto simp: admitted_def background_def ContextWithLoginClaim_def)

lemma served_idle:
  assumes "served lib r w ctx call x w'"
  shows "w_tx w' = None \<and> w_env w' = w_env w"
proof -
  obtain v where v: "still w v" "serve (lib_Crypto lib) ctx call v = (x, w')" "\<not> ctx_Tx ctx"
    using assms admitted_idle unfolding served_def by blast
  then show ?thesis
    using evolves_idle [OF connection.serve_evolves [OF respected_connection, of ctx v "lib_Crypto lib" call]]
    by (simp add: still_def)
qed

text \<open>The logger around the router: the payload is the router's, and only the clock and ids move.\<close>

lemma api_router:
  assumes run: "api lib limited r s = (p, s')" and idle: "w_tx (srv_World s) = None"
  shows "\<exists>w s3. apiRouter lib limited (r\<lparr>hr_Context := background\<rparr>) (s\<lparr>srv_World := w\<rparr>) = (rs_Payload p, s3) \<and>
    still (srv_World s) w \<and> srv_Limits s' = srv_Limits s3 \<and>
    (w_tx (srv_World s3) = None \<longrightarrow> still (srv_World s3) (srv_World s'))"
proof -
  let ?r = "r\<lparr>hr_Context := background\<rparr>"
  obtain rid w1 where rid: "(if hr_RequestID ?r = [] then uuid_NewString (srv_World s) else (hr_RequestID ?r, srv_World s)) = (rid, w1)" by fastforce
  obtain t w2 where t: "time_Now w1 = (t, w2)" by fastforce
  obtain q s3 where q: "apiRouter lib limited ?r (s\<lparr>srv_World := w2\<rparr>) = (q, s3)" by fastforce
  obtain u w4 where u: "time_Now (srv_World s3) = (u, w4)" by fastforce
  have clock: "still v v'" if "time_Now v = (n, v')" "w_tx v = None" for v v' n
    using that by (auto simp: time_Now_def still_def)
  have "still (srv_World s) w1" using rid idle by (auto simp: uuid_NewString_def still_def split: if_splits)
  then have "still (srv_World s) w2" using clock [OF t] by (auto simp: still_def)
  moreover have "rs_Payload p = q" "srv_World s' = w4" "srv_Limits s' = srv_Limits s3"
    using run t q u unfolding api_def logger_Middleware_def rid by auto
  ultimately show ?thesis using q clock [OF u] by metis
qed

lemma api_cases:
  assumes run: "api lib limited r s = (p, s')" and idle: "w_tx (srv_World s) = None" and lib: "library_ok lib"
  shows "refusal (rs_Payload p) \<and> still (srv_World s) (srv_World s') \<or>
    (\<exists>ctx call x w'. served lib r (srv_World s) ctx call x w' \<and> still w' (srv_World s') \<and> rs_Payload p = reply_of x)"
proof -
  obtain w s3 where q: "apiRouter lib limited (r\<lparr>hr_Context := background\<rparr>) (s\<lparr>srv_World := w\<rparr>) = (rs_Payload p, s3)"
    and st: "still (srv_World s) w" and out: "w_tx (srv_World s3) = None \<longrightarrow> still (srv_World s3) (srv_World s')"
    using api_router [OF run idle] by (elim exE conjE) (rule that)
  have "w_tx (srv_World (s\<lparr>srv_World := w\<rparr>)) = None" "hr_Context (r\<lparr>hr_Context := background\<rparr>) = background"
    using st by (simp_all add: still_def)
  from apiRouter_cases [OF q this lib] show ?thesis
  proof (elim disjE exE conjE)
    assume "refusal (rs_Payload p)" "still (srv_World (s\<lparr>srv_World := w\<rparr>)) (srv_World s3)"
    then show ?thesis using st out still_trans by (auto simp: still_def)
  next
    fix ctx call x
    assume sv: "served lib (r\<lparr>hr_Context := background\<rparr>) (srv_World (s\<lparr>srv_World := w\<rparr>)) ctx call x (srv_World s3)"
      and "rs_Payload p = reply_of x"
    moreover have "served lib r (srv_World s) ctx call x (srv_World s3)"
      using served_still [OF st] sv by (simp add: served_context)
    ultimately show ?thesis using out served_idle [OF sv] by metis
  qed
qed

section \<open>Refusals of the middlewares\<close>

lemma publicAuthMethods_public: "publicAuthMethods m = Some True \<longleftrightarrow> Policy_IsPublic DefaultPolicy m"
  by (auto simp: publicAuthMethods_def Policy_IsPublic_def DefaultPolicy_def loginMethod_def registerMethod_def)

lemma ipRateLimiter_passes:
  assumes "hr_Body r = Body bytes" "int (length bytes) \<le> maxPeekBodyBytes" "json_Envelope lib bytes = (True, m, i)" "ms m \<noteq> Some True"
  shows "ipRateLimiter_ServeHTTP lib ms c rr h r s = h r s"
proof -
  have "peekMethod lib r = (if m = [] then None else Some m, r)"
    using assms by (auto simp: peekMethod_def Let_def)
  then show ?thesis using assms by (simp add: ipRateLimiter_ServeHTTP_def)
qed

definition unauthorized_reply :: "string \<Rightarrow> payload" where
  "unauthorized_reply i = ErrorEnvelope (WriteError i CodeUnauthorized ''unauthorized'' ''unauthorized'')"

lemma authorization_denies:
  assumes body: "hr_Body r = Body bytes" "int (length bytes) \<le> maxRequestBodyBytes" "json_Envelope lib bytes = (True, m, i)" "m \<noteq> []"
    and no: "\<not> Policy_IsPublic DefaultPolicy m"
      "\<And>claim. decodes (lib_Crypto lib) (ExtractToken (hr_Authorization r)) claim \<Longrightarrow>
        \<forall>u \<in> set (users (w_db (srv_World s))). u_id u = claim_UserID claim \<longrightarrow> u_token_version u \<noteq> claim_TokenVersion claim"
    and idle: "w_tx (srv_World s) = None" "hr_Context r = background"
    and run: "authorizationMiddleware lib DefaultPolicy h r s = (p, s')"
  shows "p = unauthorized_reply i \<and> still (srv_World s) (srv_World s') \<and> srv_Limits s' = srv_Limits s"
proof -
  let ?tok = "ExtractToken (hr_Authorization r)"
  obtain x w where val: "ValidateAccessToken (lib_Crypto lib) background \<lparr>vat_AccessToken = ?tok\<rparr> (srv_World s) = (x, w)" by fastforce
  have "still (srv_World s) w" using ValidateAccessToken_still [OF val idle(1)] by (simp add: background_def)
  moreover have "x = Inr claim \<Longrightarrow> False" for claim
    using ValidateAccessToken_Inr [of "lib_Crypto lib" background "\<lparr>vat_AccessToken = ?tok\<rparr>" "srv_World s" claim w]
      val no(2) [of claim] idle(1) by (auto simp: connected_def view_def background_def)
  ultimately show ?thesis using run body no(1) val idle
    by (auto simp: authorizationMiddleware_def Let_def unauthorized_reply_def still_refl split: if_splits sum.splits)
qed

lemma api_denies:
  assumes body: "hr_Body r = Body bytes" "int (length bytes) \<le> maxRequestBodyBytes" "json_Envelope lib bytes = (True, m, i)" "m \<noteq> []"
    and no: "\<not> Policy_IsPublic DefaultPolicy m"
      "\<And>claim. decodes (lib_Crypto lib) (ExtractToken (hr_Authorization r)) claim \<Longrightarrow>
        \<forall>u \<in> set (users (w_db (srv_World s))). u_id u = claim_UserID claim \<longrightarrow> u_token_version u \<noteq> claim_TokenVersion claim"
    and idle: "w_tx (srv_World s) = None" and run: "api lib limited r s = (p, s')"
  shows "rs_Payload p = unauthorized_reply i \<and> still (srv_World s) (srv_World s')"
proof -
  let ?r = "r\<lparr>hr_Context := background\<rparr>"
  obtain w s3 where q: "apiRouter lib limited ?r (s\<lparr>srv_World := w\<rparr>) = (rs_Payload p, s3)"
    and st: "still (srv_World s) w" and out: "w_tx (srv_World s3) = None \<longrightarrow> still (srv_World s3) (srv_World s')"
    using api_router [OF run idle] by (elim exE conjE) (rule that)
  have r: "hr_Body ?r = Body bytes" "hr_Context ?r = background" "w_tx (srv_World (s\<lparr>srv_World := w\<rparr>)) = None"
    "int (length bytes) \<le> maxPeekBodyBytes" "publicAuthMethods m \<noteq> Some True"
    using body st no(1) by (simp_all add: still_def maxPeekBodyBytes_def maxRequestBodyBytes_def publicAuthMethods_public)
  have auth: "apiRouter lib limited ?r (s\<lparr>srv_World := w\<rparr>) =
      (if limited then authorizationMiddleware lib DefaultPolicy (userRateLimiter_ServeHTTP lib userRateCapacity userRateRefill (jsonRPCServer lib)) ?r (s\<lparr>srv_World := w\<rparr>)
       else authorizationMiddleware lib DefaultPolicy (jsonRPCServer lib) ?r (s\<lparr>srv_World := w\<rparr>))"
    by (simp add: apiRouter_def ipRateLimiter_passes [where ms = publicAuthMethods, OF r(1,4) body(3) r(5)])
  have deny: "p' = unauthorized_reply i \<and> still (srv_World (s\<lparr>srv_World := w\<rparr>)) (srv_World s3)"
    if "authorizationMiddleware lib DefaultPolicy h ?r (s\<lparr>srv_World := w\<rparr>) = (p', s3)" for h p'
    using authorization_denies [OF r(1) body(2-4) no(1) _ r(3,2) that] no(2) st by (simp add: still_def)
  have "rs_Payload p = unauthorized_reply i \<and> still (srv_World (s\<lparr>srv_World := w\<rparr>)) (srv_World s3)"
    using q unfolding auth by (auto split: if_splits dest!: deny)
  then show ?thesis using st out by (auto simp: still_def)
qed

text \<open>A body over the cap is refused before anything else looks at it.\<close>

lemma api_oversize:
  assumes body: "hr_Body r = Body bytes" "int (length bytes) > maxRequestBodyBytes"
    and idle: "w_tx (srv_World s) = None" and run: "api lib limited r s = (p, s')"
  shows "rs_Payload p = ErrorEnvelope (WriteError [] CodeInvalidParams ''request body too large'' ''body_too_large'') \<and>
    still (srv_World s) (srv_World s') \<and> srv_Limits s' = srv_Limits s"
proof -
  obtain w s3 where q: "apiRouter lib limited (r\<lparr>hr_Context := background\<rparr>) (s\<lparr>srv_World := w\<rparr>) = (rs_Payload p, s3)"
    and st: "still (srv_World s) w" "srv_Limits s' = srv_Limits s3"
      "w_tx (srv_World s3) = None \<longrightarrow> still (srv_World s3) (srv_World s')"
    using api_router [OF run idle] by (elim exE conjE) (rule that)
  have "rs_Payload p = ErrorEnvelope (WriteError [] CodeInvalidParams ''request body too large'' ''body_too_large'') \<and>
    s3 = s\<lparr>srv_World := w\<rparr>"
    using q body by (auto simp: apiRouter_def ipRateLimiter_ServeHTTP_def peekMethod_def authorizationMiddleware_def
        maxPeekBodyBytes_def maxRequestBodyBytes_def split: if_splits)
  then show ?thesis using st by (auto simp: still_def)
qed

end
