(* ===== verification/ApiProperties.thy ===== *)
theory ApiProperties
  imports Api WalletProperties BatchProperties IdentityProperties
begin

text \<open>
  The properties of the whole server: what every history of requests keeps, that no protected
  handler runs without a valid token that grants it, and that a logout ends, for good, every
  session opened before it.
\<close>

section \<open>A concrete library\<close>

text \<open>
  The bodies are the method names, the parameters are fixed, and the limiter hands out a budget of
  tokens.
\<close>

definition sample_calls :: "(string \<times> rpc_call) list" where
  "sample_calls =
     [(''EmailPasswordAuthenticator.Login'', CallLogin \<lparr>epa_Email = ''ann@x'', epa_Password = ''pw''\<rparr>),
      (''Session.Logout'', CallLogout),
      (''AccountService.FetchMyAccounts'', CallFetchMyAccounts),
      (''AuditService.FetchTransactionAuditTrail'', CallFetchTransactionAuditTrail ''r0'')]"

definition sample_library :: "LoginClaim \<Rightarrow> (string, nat) library" where
  "sample_library c = \<lparr>lib_Crypto = sample_crypto c,
     json_Envelope = (\<lambda>b. (b \<noteq> [], b, ''1'')),
     gorilla_Call = (\<lambda>r. case hr_Body r of
         Body b \<Rightarrow> (case map_of sample_calls b of Some call \<Rightarrow> Inr call | None \<Rightarrow> Inl (400, ''rpc: can not find method''))
       | BodyFails b e \<Rightarrow> Inl (400, ''rpc: can not read'')),
     limiters_Limit = (\<lambda>b n. if n = 0 then (Exhausted, 0) else (Granted 0, n - 1))\<rparr>"

lemma sample_library_ok: "library_ok (sample_library c)"
  by (auto simp: library_ok_def sample_library_def sample_crypto_ok sample_calls_def rpc_method_def service_names
      split: body.splits option.splits if_splits)

definition sample_request :: "string \<Rightarrow> http_request" where
  "sample_request m = \<lparr>hr_Verb = ''POST'', hr_ContentType = ''application/json'',
     hr_Authorization = ''Bearer sig:claim'', hr_RequestID = [], hr_RemoteAddr = ''10.0.0.1:4000'',
     hr_Body = Body m, hr_Context = background\<rparr>"

text \<open>The sample world with a password for the member.\<close>

definition login_tables :: tables where
  "login_tables = sample_tables\<lparr>users := map (\<lambda>u. u\<lparr>u_password_hash := ''h:pw''\<rparr>) (users sample_tables)\<rparr>"

definition login_server :: "nat server" where
  "login_server = \<lparr>srv_World = sample_world\<lparr>w_db := login_tables\<rparr>, srv_Limits = 100\<rparr>"

definition ann_claim :: LoginClaim where
  "ann_claim = login_claim (hd (users login_tables)) (env_Now sample_env 0)"

lemma login_schema: "schema_ok login_tables"
  by (simp add: schema_ok_def users_ok_def accounts_ok_def transactions_ok_def audit_ok_def
      login_tables_def sample_tables_def empty_tables_def valid_role_def valid_kind_def)

lemma login_idle [simp]: "w_tx (srv_World login_server) = None" "w_db (srv_World login_server) = login_tables"
  "w_env (srv_World login_server) = sample_env"
  by (simp_all add: login_server_def sample_world_def)

section \<open>Every history\<close>

text \<open>
  C18: Whatever requests arrive, in whatever order and however the driver fails, starting from a
  database that satisfies the schema: no transaction is left open, every constraint of the schema
  holds, users and accounts keep their identities, and the ledger and the audit trail have only
  grown at their ends.
\<close>

theorem history_keeps_schema:
  assumes "w_tx (srv_World s) = None" "schema_ok (w_db (srv_World s))"
  shows "w_tx (srv_World (api_run lib limited rs s)) = None \<and>
    schema_ok (w_db (srv_World (api_run lib limited rs s))) \<and>
    durable (w_db (srv_World s)) (w_db (srv_World (api_run lib limited rs s)))"
  using durable.api_run_related [OF respected_durable assms(1), of lib limited rs] assms(2)
  by (auto simp: durable_def)

theorem history_keeps_schema_witness:
  "schema_ok (w_db (srv_World (api_run (sample_library ann_claim) True
     [sample_request ''EmailPasswordAuthenticator.Login'', sample_request ''Session.Logout''] login_server)))"
  using history_keeps_schema [OF login_idle(1), of "sample_library ann_claim"] login_schema by (simp del: api_run.simps)

section \<open>Complete mediation\<close>

text \<open>
  C19: A request that gets a result, or changes any table, was served as the one call its body names,
  and the policy let it through: the method is login or register, or the caller presented a token
  that decodes to an unexpired claim with the token version stored for its user, whose permissions
  authorize exactly that method; and the handler ran with that claim in its context.
\<close>

theorem complete_mediation:
  assumes lib: "library_ok lib" and idle: "w_tx (srv_World s) = None"
    and run: "api lib limited r s = (p, s')"
    and effect: "w_db (srv_World s') \<noteq> w_db (srv_World s) \<or> (\<exists>res. rs_Payload p = RpcReply (Inr res))"
  shows "\<exists>ctx call x v w' bytes i.
    hr_Body r = Body bytes \<and> int (length bytes) \<le> maxRequestBodyBytes \<and> json_Envelope lib bytes = (True, rpc_method call, i) \<and>
    w_db v = w_db (srv_World s) \<and> serve (lib_Crypto lib) ctx call v = (x, w') \<and>
    w_db (srv_World s') = w_db w' \<and> rs_Payload p = reply_of x \<and>
    (rpc_method call \<in> {loginMethod, registerMethod} \<and> ctx = background \<or>
     (\<exists>claim n. ctx = ContextWithLoginClaim background claim \<and>
        decodes (lib_Crypto lib) (ExtractToken (hr_Authorization r)) claim \<and>
        Unix (env_Now (w_env (srv_World s)) n) \<le> claim_ExpirationTime claim \<and>
        (\<exists>u \<in> set (users (w_db (srv_World s))). u_id u = claim_UserID claim \<and> u_token_version u = claim_TokenVersion claim) \<and>
        Policy_Authorize DefaultPolicy (claim_Permissions claim) (rpc_method call)))"
proof -
  have "\<exists>ctx call x w'. served lib r (srv_World s) ctx call x w' \<and> still w' (srv_World s') \<and> rs_Payload p = reply_of x"
    using api_cases [OF run idle lib] effect by (auto simp: still_def)
  then obtain ctx call x w' where sv: "served lib r (srv_World s) ctx call x w'" "still w' (srv_World s')" "rs_Payload p = reply_of x"
    by (elim exE conjE) (rule that)
  have public: "Policy_IsPublic DefaultPolicy m \<Longrightarrow> m \<in> {loginMethod, registerMethod}" for m
    by (auto simp: Policy_IsPublic_def DefaultPolicy_def split: if_splits option.splits)
  from sv(1) obtain bytes i v where b: "hr_Body r = Body bytes" "int (length bytes) \<le> maxRequestBodyBytes"
      "json_Envelope lib bytes = (True, rpc_method call, i)" "still (srv_World s) v"
      "serve (lib_Crypto lib) ctx call v = (x, w')"
    and adm: "admitted lib (srv_World s) (ExtractToken (hr_Authorization r)) (rpc_method call) ctx"
    unfolding served_def by (elim exE conjE) (rule that)
  have "w_db v = w_db (srv_World s)" "w_db (srv_World s') = w_db w'" using b(4) sv(2) by (simp_all add: still_def)
  with b sv(3) adm public show ?thesis unfolding admitted_def by metis
qed

section \<open>Sessions end\<close>

text \<open>Token versions only grow, and no user disappears.\<close>

definition epochs :: "tables \<Rightarrow> tables \<Rightarrow> bool" where
  "epochs T T' \<longleftrightarrow> (\<forall>u \<in> set (users T). \<exists>u' \<in> set (users T'). u_id u' = u_id u \<and>
     sint (u_token_version u) \<le> sint (u_token_version u'))"

interpretation epochs: table_relation epochs
proof unfold_locales
  show "epochs T T" for T by (auto simp: epochs_def)
  show "epochs T V" if tu: "epochs T U" and uv: "epochs U V" for T U V
    unfolding epochs_def
  proof
    fix u assume "u \<in> set (users T)"
    then obtain v where v: "v \<in> set (users U)" "u_id v = u_id u" "sint (u_token_version u) \<le> sint (u_token_version v)"
      using tu unfolding epochs_def by blast
    then obtain x where "x \<in> set (users V)" "u_id x = u_id v" "sint (u_token_version v) \<le> sint (u_token_version x)"
      using uv unfolding epochs_def by blast
    then show "\<exists>x \<in> set (users V). u_id x = u_id u \<and> sint (u_token_version u) \<le> sint (u_token_version x)"
      using v by (intro bexI [of _ x]) simp_all
  qed
  show "epochs T (T\<lparr>audit_seq := audit_seq U\<rparr>)" for T U by (auto simp: epochs_def)
qed

lemma increment_epochs:
  assumes "increment_token_version uid T = Inr (x, T')"
  shows "epochs T T'"
proof -
  let ?inc = "\<lambda>u. u\<lparr>u_token_version := u_token_version u + 1\<rparr>"
  have fits: "u \<in> set (users T) \<Longrightarrow> u_id u = uid \<Longrightarrow> fits64 (sint (u_token_version u) + 1)"
    and T': "users T' = update_where (\<lambda>u. u_id u = uid) ?inc (users T)" for u
    using assms by (auto simp: increment_token_version_def Let_def list_ex_iff split: if_splits)
  have "\<exists>u' \<in> set (users T'). u_id u' = u_id u \<and> sint (u_token_version u) \<le> sint (u_token_version u')"
    if u: "u \<in> set (users T)" for u
  proof (cases "u_id u = uid")
    case True
    then have "sint (u_token_version (?inc u)) = sint (u_token_version u) + 1"
      using sint_add_fits [of "u_token_version u" 1] fits [OF u] by simp
    moreover have "?inc u \<in> set (users T')" using u True unfolding T' set_update_where by auto
    ultimately show ?thesis by (intro bexI [of _ "?inc u"]) simp_all
  next
    case False
    then have "u \<in> set (users T')" using u unfolding T' set_update_where by auto
    then show ?thesis by blast
  qed
  then show ?thesis unfolding epochs_def by blast
qed

lemma respected_epochs: "respected epochs"
proof -
  have same: "users T' = users T \<Longrightarrow> epochs T T'" for T T' by (auto simp: epochs_def)
  have "insert_user row T = Inr (x, T') \<Longrightarrow> epochs T T'" for row T and x :: unit and T'
    by (auto simp: insert_user_Inr epochs_def)
  then show ?thesis unfolding respected_def
    by (auto dest: increment_epochs intro: same
        simp: insert_account_def update_balance_def update_name_def insert_transaction_def insert_audit_def Let_def
        split: if_splits option.splits)
qed

text \<open>The user with this id has a version above \<open>n\<close>: tokens up to \<open>n\<close> are dead, now and later.\<close>

definition revoked :: "string \<Rightarrow> int64 \<Rightarrow> tables \<Rightarrow> bool" where
  "revoked uid n T \<longleftrightarrow> (\<exists>u \<in> set (users T). u_id u = uid \<and> sint n < sint (u_token_version u))"

lemma revoked_epochs: "revoked uid n T \<Longrightarrow> epochs T T' \<Longrightarrow> revoked uid n T'"
  unfolding revoked_def epochs_def by (metis order_less_le_trans)

lemma users_unique: "users_ok T \<Longrightarrow> u \<in> set (users T) \<Longrightarrow> v \<in> set (users T) \<Longrightarrow> u_id u = u_id v \<Longrightarrow> u = v"
  by (simp add: users_ok_def distinct_map inj_on_def)

lemma revoked_rejects:
  assumes "revoked uid n T" "users_ok T" "u \<in> set (users T)" "u_id u = uid"
  shows "u_token_version u \<noteq> n"
  using assms users_unique [of T u] unfolding revoked_def by force

lemma LogoutAdaptor_revokes:
  assumes run: "LogoutAdaptor_Logout (ContextWithLoginClaim background c) w = (Inr b, w')" and idle: "w_tx w = None"
    and u: "u \<in> set (users (w_db w))" "u_id u = claim_UserID c" and ok: "users_ok (w_db w)"
  shows "revoked (claim_UserID c) (u_token_version u) (w_db w')"
proof -
  let ?ctx = "ContextWithLoginClaim background c"
  have conn: "connected ?ctx w" "\<not> ctx_Tx ?ctx" using idle by (simp_all add: connected_def ContextWithLoginClaim_def background_def)
  obtain n where "UserRepository_IncrementTokenVersion ?ctx \<lparr>itv_UserID = claim_UserID c\<rparr> w = (Inr n, w')"
    using run by (auto simp: LogoutAdaptor_Logout_def LogoutService_Logout_def ContextWithLoginClaim_def LoginClaimFromContext_def
        split: option.splits sum.splits prod.splits)
  from UserRepository_IncrementTokenVersion_Inr [OF this conn(1)]
  have "increment_token_version (claim_UserID c) (w_db w) = Inr (Some n, w_db w')" using conn(2) by (simp add: view_def)
  from increment_token_version_Inr [OF this] obtain r where r: "r \<in> set (users (w_db w))" "u_id r = claim_UserID c"
      "sint n = sint (u_token_version r) + 1" "n = u_token_version r + 1"
    and T': "users (w_db w') = update_where (\<lambda>u. u_id u = claim_UserID c) (\<lambda>u. u\<lparr>u_token_version := u_token_version u + 1\<rparr>) (users (w_db w))"
    by auto
  have "r = u" using users_unique [OF ok r(1) u(1)] r(2) u(2) by simp
  then have "u\<lparr>u_token_version := n\<rparr> \<in> set (users (w_db w'))" "sint (u_token_version u) < sint n"
    using r u unfolding T' set_update_where by auto
  then show ?thesis using u(2) unfolding revoked_def by (intro bexI [of _ "u\<lparr>u_token_version := n\<rparr>"]) simp_all
qed

lemma serve_LoginResult:
  "serve cr ctx call w = (Inr (LoginResult resp), w') \<Longrightarrow> \<exists>q. call = CallLogin q \<and> LoginAdaptor_Login cr ctx q w = (Inr resp, w')"
  by (cases call) (auto simp: answer_Inr)

lemma serve_LogoutResult:
  "serve cr ctx call w = (Inr (LogoutResult b), w') \<Longrightarrow> call = CallLogout \<and> LogoutAdaptor_Logout ctx w = (Inr b, w')"
  by (cases call) (auto simp: answer_Inr)

lemma reply_of_Inr: "RpcReply (Inr res) = reply_of x \<longleftrightarrow> x = Inr res"
  by (cases x) auto

lemma api_result:
  assumes run: "api lib limited r s = (p, s')" and idle: "w_tx (srv_World s) = None" and lib: "library_ok lib"
    and res: "rs_Payload p = RpcReply (Inr res)"
  shows "\<exists>ctx call v w'. serve (lib_Crypto lib) ctx call v = (Inr res, w') \<and> still (srv_World s) v \<and>
    admitted lib (srv_World s) (ExtractToken (hr_Authorization r)) (rpc_method call) ctx \<and> w_db (srv_World s') = w_db w'"
proof -
  have "\<exists>ctx call x w'. served lib r (srv_World s) ctx call x w' \<and> still w' (srv_World s') \<and> rs_Payload p = reply_of x"
    using api_cases [OF run idle lib] res by auto
  then obtain ctx call x w' where sv: "served lib r (srv_World s) ctx call x w'" "still w' (srv_World s')" "rs_Payload p = reply_of x"
    by (elim exE conjE) (rule that)
  have "x = Inr res" using sv(3) res reply_of_Inr by metis
  moreover have "w_db (srv_World s') = w_db w'" using sv(2) by (simp add: still_def)
  ultimately show ?thesis using sv(1) unfolding served_def by metis
qed

lemma serve_RegisterResult:
  "serve cr ctx call w = (Inr (RegisterResult resp), w') \<Longrightarrow> \<exists>q. RegistrationAdaptor_Register cr ctx q w = (Inr resp, w')"
  by (cases call) (auto simp: answer_Inr)

text \<open>The session a reply opens: its token and the user it is for.\<close>

fun session_of :: "rpc_result \<Rightarrow> (string \<times> string) option" where
  "session_of (LoginResult resp) = Some (ear_Token resp, ear_UserID resp)"
| "session_of (RegisterResult resp) = Some (rrs_Token resp, rrs_UserID resp)"
| "session_of _ = None"

lemma api_session:
  assumes run: "api lib limited r s = (p, s')" and idle: "w_tx (srv_World s) = None" and lib: "library_ok lib"
    and res: "rs_Payload p = RpcReply (Inr res)" "session_of res = Some (token, uid)"
  shows "\<exists>u claim. (u \<in> set (users (w_db (srv_World s))) \<or> u \<in> set (users (w_db (srv_World s')))) \<and> u_id u = uid \<and>
    IssueAccessToken (lib_Crypto lib) \<lparr>iat_LoginClaim = claim\<rparr> = Inr token \<and>
    claim_UserID claim = u_id u \<and> claim_TokenVersion claim = u_token_version u"
proof -
  obtain ctx call v w' where sv: "serve (lib_Crypto lib) ctx call v = (Inr res, w')" "still (srv_World s) v"
    and adm: "admitted lib (srv_World s) (ExtractToken (hr_Authorization r)) (rpc_method call) ctx"
    and w': "w_db (srv_World s') = w_db w'"
    using api_result [OF run idle lib res(1)] by (elim exE conjE) (rule that)
  have conn: "connected ctx v" "view ctx v = w_db (srv_World s)" "\<not> ctx_Tx ctx" "w_tx v = None"
    using admitted_idle [OF adm] sv(2) idle by (simp_all add: connected_def view_def still_def)
  show ?thesis
  proof (cases res)
      case (LoginResult resp)
      then obtain q where "LoginAdaptor_Login (lib_Crypto lib) ctx q v = (Inr resp, w')" using serve_LoginResult sv(1) by blast
      then have "Authenticate (lib_Crypto lib) ctx q v = (Inr resp, w')"
        by (auto simp: LoginAdaptor_Login_def split: sum.splits prod.splits)
      from Authenticate_Inr [OF this conn(1)] conn(2) obtain u now where u: "u \<in> set (users (w_db (srv_World s)))"
          "ear_UserID resp = u_id u"
          "IssueAccessToken (lib_Crypto lib) \<lparr>iat_LoginClaim = login_claim u now\<rparr> = Inr (ear_Token resp)"
        by auto
      then show ?thesis using LoginResult res(2) by (intro exI [of _ u] exI [of _ "login_claim u now"]) (simp add: login_claim_def)
    next
      case (RegisterResult resp)
      then obtain q where "RegistrationAdaptor_Register (lib_Crypto lib) ctx q v = (Inr resp, w')"
        using serve_RegisterResult sv(1) by blast
      then have "Register (lib_Crypto lib) ctx q v = (Inr resp, w')"
        by (auto simp: RegistrationAdaptor_Register_def split: sum.splits prod.splits if_splits)
      from Register_session [OF this conn(3,4)] show ?thesis using RegisterResult res(2) w' by auto
  qed (use res(2) in simp_all)
qed

lemma api_logout:
  assumes run: "api lib limited r s = (p, s')" and idle: "w_tx (srv_World s) = None" and lib: "library_ok lib"
    and res: "rs_Payload p = RpcReply (Inr (LogoutResult b))" and ok: "users_ok (w_db (srv_World s))"
  shows "\<exists>claim. decodes (lib_Crypto lib) (ExtractToken (hr_Authorization r)) claim \<and>
    revoked (claim_UserID claim) (claim_TokenVersion claim) (w_db (srv_World s')) \<and>
    (\<exists>u \<in> set (users (w_db (srv_World s))). u_id u = claim_UserID claim \<and> u_token_version u = claim_TokenVersion claim)"
proof -
  obtain ctx call v w' where sv: "serve (lib_Crypto lib) ctx call v = (Inr (LogoutResult b), w')" "still (srv_World s) v"
    and adm: "admitted lib (srv_World s) (ExtractToken (hr_Authorization r)) (rpc_method call) ctx" and w': "w_db (srv_World s') = w_db w'"
    using api_result [OF run idle lib res] by (elim exE conjE) (rule that)
  note out = serve_LogoutResult [OF sv(1)]
  have "\<not> Policy_IsPublic DefaultPolicy (rpc_method call)"
    using out by (simp add: rpc_method_def service_names Policy_IsPublic_def DefaultPolicy_def loginMethod_def registerMethod_def)
  then obtain claim u where c: "ctx = ContextWithLoginClaim background claim"
      "decodes (lib_Crypto lib) (ExtractToken (hr_Authorization r)) claim"
    and u: "u \<in> set (users (w_db (srv_World s)))" "u_id u = claim_UserID claim" "u_token_version u = claim_TokenVersion claim"
    using adm unfolding admitted_def by blast
  have v: "w_tx v = None" "w_db v = w_db (srv_World s)" using sv(2) by (simp_all add: still_def)
  have "revoked (claim_UserID claim) (u_token_version u) (w_db w')"
    using LogoutAdaptor_revokes [where c = claim and w = v, OF _ v(1) _ u(2)] out c(1) u(1) ok v(2) by simp
  then show ?thesis using c u w' by auto
qed

text \<open>
  C20: Logging out ends every session of the user for good. A token handed out by a login or by a
  registration is refused with the uniform unauthorized reply, on every protected method, by any request
  that comes after a logout of that user in any session, whatever requests are handled in between and
  however the driver fails; and the refused request changes nothing. The id of the user is ASCII, as the
  UUIDs are; nothing is asked of the other fields.
\<close>

theorem logout_ends_every_session:
  assumes lib: "library_ok lib" and start: "w_tx (srv_World s) = None" "schema_ok (w_db (srv_World s))"
    and session: "api lib limited r1 s = (p1, s1)" "rs_Payload p1 = RpcReply (Inr res)"
      "session_of res = Some (token, uid)" "ascii uid"
    and logout: "api lib limited r2 (api_run lib limited rs s1) = (p2, s2)" "rs_Payload p2 = RpcReply (Inr (LogoutResult b))"
      "decodes (lib_Crypto lib) (ExtractToken (hr_Authorization r2)) c" "claim_UserID c = uid"
    and later: "ExtractToken (hr_Authorization r3) = token" "hr_Body r3 = Body bytes"
      "int (length bytes) \<le> maxRequestBodyBytes" "json_Envelope lib bytes = (True, m, i)" "m \<noteq> []" "\<not> Policy_IsPublic DefaultPolicy m"
  shows "case api lib limited r3 (api_run lib limited rs' s2) of (p, s') \<Rightarrow>
    rs_Payload p = ErrorEnvelope (WriteError i CodeUnauthorized ''unauthorized'' ''unauthorized'') \<and>
    w_db (srv_World s') = w_db (srv_World (api_run lib limited rs' s2))"
proof -
  let ?v = "api_run lib limited rs s1" and ?w = "api_run lib limited rs' s2"
  let ?T = "\<lambda>s. w_db (srv_World s)"
  obtain u claim0 where u: "u \<in> set (users (?T s)) \<or> u \<in> set (users (?T s1))" "u_id u = uid"
    and tok: "IssueAccessToken (lib_Crypto lib) \<lparr>iat_LoginClaim = claim0\<rparr> = Inr token"
      "claim_UserID claim0 = u_id u" "claim_TokenVersion claim0 = u_token_version u"
    using api_session [OF session(1) start(1) lib session(2,3)] by blast
  obtain claim where dec: "decodes (lib_Crypto lib) token claim" "claim_UserID claim = uid" "claim_TokenVersion claim = u_token_version u"
    using IssueAccessToken_decodes [OF tok(1)] lib tok(2,3) u(2) session(4) by (auto simp: library_ok_def)
  have run: "s1 = api_run lib limited [r1] s" "s2 = api_run lib limited [r2] ?v" using session(1) logout(1) by simp_all
  have s1: "w_tx (srv_World s1) = None" "schema_ok (?T s1)" "epochs (?T s) (?T s1)"
    using durable.api_run_related [OF respected_durable start(1), of lib limited "[r1]"]
      epochs.api_run_related [OF respected_epochs start(1), of lib limited "[r1]"] start(2) session(1)
    by (auto simp: durable_def)
  have v: "w_tx (srv_World ?v) = None" "schema_ok (?T ?v)" "epochs (?T s1) (?T ?v)"
    using durable.api_run_related [OF respected_durable s1(1), of lib limited rs]
      epochs.api_run_related [OF respected_epochs s1(1), of lib limited rs] s1(2)
    by (auto simp: durable_def)
  have s2: "w_tx (srv_World s2) = None" "schema_ok (?T s2)"
    using durable.api_run_related [OF respected_durable v(1), of lib limited "[r2]"] v(2) logout(1) by (auto simp: durable_def)
  have w: "w_tx (srv_World ?w) = None" "schema_ok (?T ?w)" "epochs (?T s2) (?T ?w)"
    using durable.api_run_related [OF respected_durable s2(1), of lib limited rs']
      epochs.api_run_related [OF respected_epochs s2(1), of lib limited rs'] s2(2) by (auto simp: durable_def)
  obtain x where x: "revoked (claim_UserID c) (claim_TokenVersion c) (?T s2)"
      "x \<in> set (users (?T ?v))" "u_id x = claim_UserID c" "u_token_version x = claim_TokenVersion c"
    using api_logout [OF logout(1) v(1) lib logout(2) schema_ok_parts(1) [OF v(2)]] decodes_unique [OF logout(3)] by blast
  obtain y where y: "y \<in> set (users (?T ?v))" "u_id y = uid" "sint (u_token_version u) \<le> sint (u_token_version y)"
    using u v(3) epochs.R_trans [OF s1(3) v(3)] unfolding epochs_def by metis
  have "x = y" using users_unique [OF schema_ok_parts(1) [OF v(2)] x(2) y(1)] x(3) y(2) logout(4) by simp
  then have "revoked uid (u_token_version u) (?T s2)"
    using x(1,3,4) y(2,3) unfolding revoked_def by auto
  then have dead: "revoked uid (u_token_version u) (?T ?w)" using revoked_epochs w(3) by blast
  obtain p s' where out: "api lib limited r3 ?w = (p, s')" by fastforce
  have "\<forall>z \<in> set (users (?T ?w)). u_id z = claim_UserID claim' \<longrightarrow> u_token_version z \<noteq> claim_TokenVersion claim'"
    if "decodes (lib_Crypto lib) (ExtractToken (hr_Authorization r3)) claim'" for claim'
    using revoked_rejects [OF dead schema_ok_parts(1) [OF w(2)]] decodes_unique [OF that [unfolded later(1)] dec(1)] dec(2,3)
    by auto
  from api_denies [OF later(2-6) this w(1) out] show ?thesis
    unfolding out by (simp add: unauthorized_reply_def still_def)
qed


text \<open>A concrete run: log in, log out, and ask for the accounts with the same token.\<close>

fun login_reply :: "payload \<Rightarrow> EmailPasswordAuthenticatorResponse option" where
  "login_reply (RpcReply (Inr (LoginResult a))) = Some a"
| "login_reply _ = None"

fun logout_reply :: "payload \<Rightarrow> bool option" where
  "logout_reply (RpcReply (Inr (LogoutResult b))) = Some b"
| "logout_reply _ = None"

lemma replies: "login_reply q = Some a \<Longrightarrow> q = RpcReply (Inr (LoginResult a))"
  "logout_reply q = Some b \<Longrightarrow> q = RpcReply (Inr (LogoutResult b))"
  by (cases q rule: login_reply.cases; simp) (cases q rule: logout_reply.cases; simp)

definition sample_api :: "string \<Rightarrow> nat server \<Rightarrow> http_response \<times> nat server" where
  "sample_api m = api (sample_library ann_claim) True (sample_request m)"

definition ann_session :: EmailPasswordAuthenticatorResponse where
  "ann_session = \<lparr>ear_Token = ''sig:claim'', ear_UserID = ''ann'', ear_Email = ''ann@x''\<rparr>"

definition logged_in :: "nat server" where
  "logged_in = snd (sample_api ''EmailPasswordAuthenticator.Login'' login_server)"

definition logged_out :: "nat server" where
  "logged_out = snd (sample_api ''Session.Logout'' logged_in)"

lemma sample_login: "login_reply (rs_Payload (fst (sample_api ''EmailPasswordAuthenticator.Login'' login_server))) = Some ann_session"
  by code_simp

lemma sample_logout: "logout_reply (rs_Payload (fst (sample_api ''Session.Logout'' logged_in))) = Some True"
  by code_simp

lemma sample_body: "hr_Body (sample_request m) = Body m" "ExtractToken (hr_Authorization (sample_request m)) = ''sig:claim''"
  by (simp add: sample_request_def) (simp add: sample_request_def, code_simp)

lemma ann_decodes: "decodes (lib_Crypto (sample_library c)) ''sig:claim'' c"
  by (simp add: decodes_def sample_library_def sample_crypto_def)

theorem logout_ends_every_session_witness:
  "case sample_api ''AccountService.FetchMyAccounts'' logged_out of (p, s') \<Rightarrow>
    rs_Payload p = ErrorEnvelope (WriteError ''1'' CodeUnauthorized ''unauthorized'' ''unauthorized'') \<and>
    w_db (srv_World s') = w_db (srv_World logged_out)"
proof -
  let ?lib = "sample_library ann_claim"
  have login: "api ?lib True (sample_request ''EmailPasswordAuthenticator.Login'') login_server =
      (fst (sample_api ''EmailPasswordAuthenticator.Login'' login_server), logged_in)"
    by (simp add: logged_in_def sample_api_def)
  have logout: "api ?lib True (sample_request ''Session.Logout'') (api_run ?lib True [] logged_in) =
      (fst (sample_api ''Session.Logout'' logged_in), logged_out)"
    by (simp add: logged_out_def sample_api_def)
  have m: "json_Envelope ?lib ''AccountService.FetchMyAccounts'' = (True, ''AccountService.FetchMyAccounts'', ''1'')"
    "int (length ''AccountService.FetchMyAccounts'') \<le> maxRequestBodyBytes"
    "\<not> Policy_IsPublic DefaultPolicy ''AccountService.FetchMyAccounts''"
    by (simp_all add: sample_library_def maxRequestBodyBytes_def Policy_IsPublic_def DefaultPolicy_def loginMethod_def registerMethod_def)
  have c: "claim_UserID ann_claim = ''ann''" "session_of (LoginResult ann_session) = Some (''sig:claim'', ''ann'')" "ascii ''ann''"
    by (simp_all add: ann_claim_def login_claim_def ann_session_def login_tables_def sample_tables_def ascii_def)
  have schema: "schema_ok (w_db (srv_World login_server))" using login_schema by simp
  have dec: "decodes (lib_Crypto ?lib) (ExtractToken (hr_Authorization (sample_request ''Session.Logout''))) ann_claim"
    using ann_decodes by (simp only: sample_body)
  have tok: "ExtractToken (hr_Authorization (sample_request ''AccountService.FetchMyAccounts'')) = ''sig:claim''"
    by (rule sample_body(2))
  show ?thesis
    using logout_ends_every_session [OF sample_library_ok login_idle(1) schema login replies(1) [OF sample_login] c(2,3)
      logout replies(2) [OF sample_logout] dec c(1) tok sample_body(1) m(2,1) _ m(3), where rs' = "[]"]
    by (simp add: sample_api_def)
qed

theorem complete_mediation_witness:
  "\<exists>ctx call v w'. w_db v = w_db (srv_World logged_in) \<and>
     serve (sample_crypto ann_claim) ctx call v = (Inr (LogoutResult True), w') \<and> w_db (srv_World logged_out) = w_db w'"
proof -
  let ?lib = "sample_library ann_claim"
  have run: "api ?lib True (sample_request ''Session.Logout'') logged_in = (fst (sample_api ''Session.Logout'' logged_in), logged_out)"
    by (simp add: logged_out_def sample_api_def)
  have idle: "w_tx (srv_World logged_in) = None"
    using durable.api_run_related [OF respected_durable login_idle(1), of ?lib True "[sample_request ''EmailPasswordAuthenticator.Login'']"]
    by (simp add: logged_in_def sample_api_def)
  have out: "rs_Payload (fst (sample_api ''Session.Logout'' logged_in)) = RpcReply (Inr (LogoutResult True))"
    by (rule replies(2) [OF sample_logout])
  have res: "w_db (srv_World logged_out) \<noteq> w_db (srv_World logged_in) \<or>
      (\<exists>res. rs_Payload (fst (sample_api ''Session.Logout'' logged_in)) = RpcReply (Inr res))" using out by blast
  have "lib_Crypto ?lib = sample_crypto ann_claim" by (simp add: sample_library_def)
  moreover have "x = Inr (LogoutResult True)" if "rs_Payload (fst (sample_api ''Session.Logout'' logged_in)) = reply_of x" for x
    using that out reply_of_Inr by metis
  ultimately show ?thesis
    using complete_mediation [OF sample_library_ok idle run res] by metis
qed

end
