(* ===== verification/Isolation.thy ===== *)
theory Isolation
  imports ApiProperties
begin

text \<open>
  What a member can change through the whole API: only rows of their own. The relation \<open>isolated\<close>
  says that the rows of all other users are the same, in the same order; every call a member token
  is admitted to moves the tables along it.
\<close>

definition isolated :: "string \<Rightarrow> tables \<Rightarrow> tables \<Rightarrow> bool" where
  "isolated uid T T' \<longleftrightarrow>
     filter (\<lambda>u. u_id u \<noteq> uid) (users T') = filter (\<lambda>u. u_id u \<noteq> uid) (users T) \<and>
     filter (\<lambda>a. a_owner_id a \<noteq> uid) (accounts T') = filter (\<lambda>a. a_owner_id a \<noteq> uid) (accounts T) \<and>
     filter (\<lambda>x. t_owner_id x \<noteq> uid) (transactions T') = filter (\<lambda>x. t_owner_id x \<noteq> uid) (transactions T)"

interpretation isolated: table_relation "isolated uid" for uid
  by unfold_locales (simp_all add: isolated_def)

lemma filter_update_where:
  "(\<And>x. x \<in> set xs \<Longrightarrow> P x \<Longrightarrow> \<not> Q x \<and> \<not> Q (f x)) \<Longrightarrow> filter Q (update_where P f xs) = filter Q xs"
  by (induction xs) (auto simp: update_where_def)

lemma same_ledger_isolated: "same_ledger T T' \<Longrightarrow> isolated uid T T'"
  by (simp add: same_ledger_def isolated_def)

section \<open>The statements of a member\<close>

lemma increment_isolated: "increment_token_version uid T = Inr (x, T') \<Longrightarrow> isolated uid T T'"
  by (auto simp: increment_token_version_def Let_def isolated_def filter_update_where split: if_splits)

lemma update_name_isolated: "update_name aid nm (Some uid) T = Inr (x, T') \<Longrightarrow> isolated uid T T'"
  by (auto simp: update_name_def Let_def isolated_def in_scope_def intro!: filter_update_where)

lemma insert_account_isolated: "insert_account row T = Inr (x, T') \<Longrightarrow> a_owner_id row = uid \<Longrightarrow> isolated uid T T'"
  by (auto simp: insert_account_Inr isolated_def)

section \<open>The calls of a member\<close>

context table_relation
begin

lemma AccountRepository_Create_evolves_for:
  assumes "\<And>row T x T'. a_owner_id row = acc_OwnerID (car_Account request) \<Longrightarrow> insert_account row T = Inr (x, T') \<Longrightarrow> R T T'"
  shows "evolves R ctx w (snd (AccountRepository_Create ctx request w))"
  unfolding AccountRepository_Create_def
  by (intro evolves_rules evolves_uuid evolves_sql_exec)
    (auto split: if_splits prod.splits elim!: assms [rotated])

lemma OpenAccount_evolves_for:
  assumes "LoginClaimFromContext ctx = Some c"
    and "\<And>row T x T'. a_owner_id row = claim_UserID c \<Longrightarrow> insert_account row T = Inr (x, T') \<Longrightarrow> R T T'"
  shows "evolves R ctx w (snd (OpenerAdaptor_OpenAccount ctx q w))"
  unfolding OpenerAdaptor_OpenAccount_def AccountOpener_OpenAccount_def Let_def assms(1) option.case
  by (intro evolves_rules evolves_time_Now AccountRepository_Create_evolves_for) (simp add: assms(2))

lemma Logout_evolves_for:
  assumes "LoginClaimFromContext ctx = Some c"
    and "\<And>T x T'. increment_token_version (claim_UserID c) T = Inr (x, T') \<Longrightarrow> R T T'"
  shows "evolves R ctx w (snd (LogoutAdaptor_Logout ctx w))"
  unfolding LogoutAdaptor_Logout_def LogoutService_Logout_def UserRepository_IncrementTokenVersion_def assms(1) option.case
  by (intro evolves_rules evolves_sql_exec) (simp add: assms(2))

lemma UpdateAccountName_evolves_for:
  assumes "LoginClaimFromContext ctx = Some c"
    and "\<And>aid nm T x T'. update_name aid nm (scope_arg ctx PermAccountWriteAll (claim_UserID c)) T = Inr (x, T') \<Longrightarrow> R T T'"
  shows "evolves R ctx w (snd (AccountAdaptor_UpdateAccountName ctx q w))"
  unfolding AccountAdaptor_UpdateAccountName_def AccountService_UpdateAccountName_def
    AccountRepository_UpdateAccountName_def Let_def assms(1) option.case
  by (intro evolves_rules evolves_sql_exec) (simp add: assms(2))

end

lemma accounts_unique: "accounts_ok T \<Longrightarrow> a \<in> set (accounts T) \<Longrightarrow> b \<in> set (accounts T) \<Longrightarrow> a_id a = a_id b \<Longrightarrow> a = b"
  by (simp add: accounts_ok_def distinct_map inj_on_def)

lemma posts_isolated:
  assumes p: "posts x b T T'" and ok: "accounts_ok T"
    and own: "a \<in> set (accounts T)" "a_id a = tr_AccountID x" "a_owner_id a = uid"
  shows "isolated uid T T'"
proof -
  have uniq: "z = a" if "z \<in> set (accounts T)" "a_id z = tr_AccountID x" for z
    by (rule accounts_unique [OF ok that(1) own(1)]) (simp only: that(2) own(2))
  obtain z where z: "z \<in> set (accounts T)" "a_id z = tr_AccountID x" "a_owner_id z = tr_OwnerID x"
    using p unfolding posts_def by blast
  have "tr_OwnerID x = uid" using uniq [OF z(1,2)] z(3) own(3) by simp
  moreover have "filter (\<lambda>a. a_owner_id a \<noteq> uid) (accounts T') = filter (\<lambda>a. a_owner_id a \<noteq> uid) (accounts T)"
  proof -
    have "accounts T' = update_where (\<lambda>a. a_id a = tr_AccountID x) (\<lambda>a. a\<lparr>a_balance := a_balance a + tr_Points x\<rparr>) (accounts T)"
      using p by (simp add: posts_def)
    moreover have "a_owner_id y = uid" if "y \<in> set (accounts T)" "a_id y = tr_AccountID x" for y
      using uniq [OF that] own(3) by simp
    ultimately show ?thesis by (simp add: filter_update_where)
  qed
  ultimately show ?thesis using p by (simp add: posts_def isolated_def row_of_transaction_def)
qed

lemma process_isolated:
  assumes run: "WalletService_ProcessTransaction ctx req w = (r, w')"
    and idle: "\<not> ctx_Tx ctx" "w_tx w = None" and perm: "\<not> IsGranted ctx PermAccountReadAll" and ok: "schema_ok (w_db w)"
  shows "isolated (ptr_UserID req) (w_db w) (w_db w')"
proof (cases "\<exists>a \<in> set (accounts (w_db w)). a_id a = ptr_AccountID req \<and> a_owner_id a = ptr_UserID req")
  case False
  then show ?thesis using no_visible_account [OF run idle perm] same_ledger_isolated by blast
next
  case True
  then obtain a where a: "a \<in> set (accounts (w_db w))" "a_id a = ptr_AccountID req" "a_owner_id a = ptr_UserID req" by blast
  have "same_ledger (w_db w) (w_db w') \<or> (\<exists>x b. records req x \<and> posts x b (w_db w) (w_db w'))"
    using process_effect [OF run idle ok] by (auto simp: process_outcome_def split: sum.splits if_splits)
  then show ?thesis
    using a posts_isolated [OF _ schema_ok_parts(2) [OF ok] a(1)] same_ledger_isolated by (auto simp: records_def)
qed

text \<open>The permissions of a member.\<close>

definition member_of :: "go_context \<Rightarrow> LoginClaim \<Rightarrow> bool" where
  "member_of ctx c \<longleftrightarrow> ctx = ContextWithLoginClaim background c \<and> claim_Permissions c = PermissionsForRole RoleMember"

lemma member_of_facts:
  assumes "member_of ctx c"
  shows "LoginClaimFromContext ctx = Some c" "\<not> ctx_Tx ctx" "\<not> IsGranted ctx PermAccountReadAll" "\<not> IsGranted ctx PermAccountWriteAll"
  using assms by (auto simp: member_of_def LoginClaimFromContext_def ContextWithLoginClaim_def background_def IsGranted_iff
      PermissionsForRole_simps perm_defs)

lemma serve_isolated:
  assumes m: "member_of ctx c" and idle: "w_tx w = None" and ok: "schema_ok (w_db w)"
    and auth: "Policy_Authorize DefaultPolicy (claim_Permissions c) (rpc_method call)"
    and run: "serve cr ctx call w = (x, w')"
  shows "isolated (claim_UserID c) (w_db w) (w_db w')"
proof -
  note f = member_of_facts [OF m]
  have ev: "evolves (isolated (claim_UserID c)) ctx w w' \<Longrightarrow> ?thesis" using evolves_idle f(2) idle by blast
  have mem: "Policy_Authorize DefaultPolicy (PermissionsForRole RoleMember) (rpc_method call)"
    using auth m by (simp add: member_of_def)
  have proc: "isolated (ptr_UserID req) (w_db w) (w_db (snd (WalletService_ProcessTransaction ctx req w)))" for req
    using process_isolated [OF _ f(2) idle f(3) ok] by (cases "WalletService_ProcessTransaction ctx req w") simp
  have w': "w' = snd (serve cr ctx call w)" using run by simp
  show ?thesis
  proof (cases call)
    case (CallEarnPoints q)
    let ?req = "\<lparr>ptr_UserID = claim_UserID c, ptr_Ref = ejr_Ref q, ptr_AccountID = ejr_AccountID q, ptr_Kind = KindEarn,
      ptr_Points = ejr_Points q, ptr_OccurredAt = ejr_OccurredAt q\<rparr>"
    have "w' = snd (WalletService_ProcessTransaction ctx ?req w)"
      using CallEarnPoints w' f(1) by (simp add: WalletAdaptor_EarnPoints_def WalletService_EarnPoints_def split: prod.split sum.split)
    then show ?thesis using proc [of ?req] by simp
  next
    case (CallSpendPoints q)
    let ?req = "\<lparr>ptr_UserID = claim_UserID c, ptr_Ref = sjr_Ref q, ptr_AccountID = sjr_AccountID q, ptr_Kind = KindSpend,
      ptr_Points = sjr_Points q, ptr_OccurredAt = sjr_OccurredAt q\<rparr>"
    have "w' = snd (WalletService_ProcessTransaction ctx ?req w)"
      using CallSpendPoints w' f(1) by (simp add: WalletAdaptor_SpendPoints_def WalletService_SpendPoints_def split: prod.split sum.split)
    then show ?thesis using proc [of ?req] by simp
  next
    case CallLogout
    then show ?thesis using w' isolated.Logout_evolves_for [OF f(1) increment_isolated] by (intro ev) simp
  next
    case (CallOpenAccount q)
    then show ?thesis using w' isolated.OpenAccount_evolves_for [OF f(1) insert_account_isolated] by (intro ev) simp
  next
    case (CallUpdateAccountName q)
    then show ?thesis using w' f(4) isolated.UpdateAccountName_evolves_for [OF f(1) update_name_isolated]
      by (intro ev) (simp add: scope_arg_def)
  next
    case CallFetchMyAccounts
    then show ?thesis using w' isolated.AccountAdaptor_reads_evolve by (intro ev) simp
  next
    case (CallGetAccountByID q)
    then show ?thesis using w' isolated.AccountAdaptor_reads_evolve by (intro ev) simp
  next
    case (CallGetAccountBalance q)
    then show ?thesis using w' isolated.AccountAdaptor_reads_evolve by (intro ev) simp
  next
    case (CallFetchTransactionAuditTrail ref)
    then show ?thesis using w' isolated.AuditAdaptor_evolves by (intro ev) simp
  qed (use mem in \<open>simp_all add: Policy_Authorize_iff DefaultPolicy_def method_defs rpc_method_def service_names
      PermissionsForRole_simps perm_defs\<close>)
qed

text \<open>
  C21: A member token can only touch its owner's rows. Whatever protected method a request with such a
  token calls, with whatever parameters, and however the driver fails, the users, accounts and ledger
  rows of everybody else are the same afterwards, in the same order.
\<close>

theorem member_changes_only_own_rows:
  assumes lib: "library_ok lib" and idle: "w_tx (srv_World s) = None" and ok: "schema_ok (w_db (srv_World s))"
    and run: "api lib limited r s = (p, s')"
    and member: "decodes (lib_Crypto lib) (ExtractToken (hr_Authorization r)) c" "claim_Permissions c = PermissionsForRole RoleMember"
    and names: "hr_Body r = Body bytes" "json_Envelope lib bytes = (True, m, i)" "\<not> Policy_IsPublic DefaultPolicy m"
  shows "filter (\<lambda>u. u_id u \<noteq> claim_UserID c) (users (w_db (srv_World s'))) =
      filter (\<lambda>u. u_id u \<noteq> claim_UserID c) (users (w_db (srv_World s))) \<and>
    filter (\<lambda>a. a_owner_id a \<noteq> claim_UserID c) (accounts (w_db (srv_World s'))) =
      filter (\<lambda>a. a_owner_id a \<noteq> claim_UserID c) (accounts (w_db (srv_World s))) \<and>
    filter (\<lambda>x. t_owner_id x \<noteq> claim_UserID c) (transactions (w_db (srv_World s'))) =
      filter (\<lambda>x. t_owner_id x \<noteq> claim_UserID c) (transactions (w_db (srv_World s)))"
proof -
  have "isolated (claim_UserID c) (w_db (srv_World s)) (w_db (srv_World s'))"
    using api_cases [OF run idle lib]
  proof (elim disjE exE conjE)
    assume "still (srv_World s) (srv_World s')"
    then show ?thesis by (simp add: still_def isolated_def)
  next
    fix ctx call x w'
    assume sv: "served lib r (srv_World s) ctx call x w'" and st: "still w' (srv_World s')"
    then obtain v i' where v: "still (srv_World s) v" "serve (lib_Crypto lib) ctx call v = (x, w')"
      and adm: "admitted lib (srv_World s) (ExtractToken (hr_Authorization r)) (rpc_method call) ctx"
      and m: "json_Envelope lib bytes = (True, rpc_method call, i')"
      unfolding served_def using names(1) by auto
    have "\<not> Policy_IsPublic DefaultPolicy (rpc_method call)" using m names(2,3) by simp
    then have mem: "member_of ctx c" "Policy_Authorize DefaultPolicy (claim_Permissions c) (rpc_method call)"
      using adm decodes_unique [OF member(1)] member(2) unfolding admitted_def member_of_def by blast+
    have "w_tx v = None" "schema_ok (w_db v)" using v(1) ok by (simp_all add: still_def)
    from serve_isolated [OF mem(1) this mem(2) v(2)] show ?thesis using v(1) st by (simp add: still_def)
  qed
  then show ?thesis by (simp add: isolated_def)
qed

theorem member_changes_only_own_rows_witness:
  "filter (\<lambda>u. u_id u \<noteq> ''ann'') (users (w_db (srv_World logged_out))) = filter (\<lambda>u. u_id u \<noteq> ''ann'') (users (w_db (srv_World logged_in)))"
proof -
  let ?lib = "sample_library ann_claim"
  have run: "api ?lib True (sample_request ''Session.Logout'') logged_in = (fst (sample_api ''Session.Logout'' logged_in), logged_out)"
    by (simp add: logged_out_def sample_api_def)
  have st: "w_tx (srv_World logged_in) = None" "schema_ok (w_db (srv_World logged_in))"
    using durable.api_run_related [OF respected_durable login_idle(1), of ?lib True "[sample_request ''EmailPasswordAuthenticator.Login'']"]
      login_schema by (simp_all add: logged_in_def sample_api_def durable_def)
  have c: "decodes (lib_Crypto ?lib) (ExtractToken (hr_Authorization (sample_request ''Session.Logout''))) ann_claim"
    "claim_Permissions ann_claim = PermissionsForRole RoleMember" "claim_UserID ann_claim = ''ann''"
    using ann_decodes by (simp_all add: sample_body(2) ann_claim_def login_claim_def login_tables_def sample_tables_def RoleMember_def)
  have m: "json_Envelope ?lib ''Session.Logout'' = (True, ''Session.Logout'', ''1'')" "\<not> Policy_IsPublic DefaultPolicy ''Session.Logout''"
    by (simp_all add: sample_library_def Policy_IsPublic_def DefaultPolicy_def loginMethod_def registerMethod_def)
  show ?thesis
    using member_changes_only_own_rows [OF sample_library_ok st run c(1,2) sample_body(1) m] c(3) by simp
qed

section \<open>What a member can see\<close>

fun about :: "string \<Rightarrow> tables \<Rightarrow> rpc_result \<Rightarrow> bool" where
  "about uid T (AccountsListResult as) = list_all (\<lambda>a. ars_UserID a = uid) as"
| "about uid T (AccountValueResult a) = (ars_UserID a = uid)"
| "about uid T (AccountBalanceResult b) = list_ex (\<lambda>r. a_id r = brs_AccountID b \<and> a_owner_id r = uid \<and> a_balance r = brs_Balance b) (accounts T)"
| "about uid T (OpenedResult a) = (ors_OwnerID a = uid)"
| "about uid T (AuditTrailResult t) = list_all (\<lambda>e. aer_OwnerID e = Some uid) (lbr_Entries t)"
| "about uid T (TransactionResult t) =
     (list_ex (\<lambda>x. t_ref x = pjp_Ref t \<and> t_account_id x = pjp_AccountID t \<and> t_kind x = pjp_Kind t \<and>
        t_points x = pjp_Points t \<and> t_owner_id x = uid) (transactions T) \<and>
      list_ex (\<lambda>a. a_owner_id a = uid \<and> a_balance a = pjp_Balance t \<and>
        (pjp_Duplicate t \<or> a_id a = pjp_AccountID t)) (accounts T))"
| "about uid T (LogoutResult b) = True"
| "about uid T _ = False"

text \<open>
  The answer to a duplicate is read in the scope of the caller: the stored row and the balance are the
  caller's own, also when the ref was used by somebody else.
\<close>

lemma transaction_of_row_fields:
  "transaction_of_row r = Inr x \<Longrightarrow> tr_Ref x = t_ref r \<and> tr_AccountID x = t_account_id r \<and> tr_Kind x = t_kind r \<and> tr_Points x = t_points r"
  by (auto simp: transaction_of_row_def split: sum.splits)

lemma process_unit_duplicate_own:
  assumes run: "process_unit req delta now occ owner ctx w = (Inr resp, w')"
    and con: "connected ctx w" and dup: "ptp_Duplicate resp"
    and scope: "scope_arg ctx PermTransactionReadAll (ptr_UserID req) = Some (ptr_UserID req)"
      "scope_arg ctx PermAccountReadAll (ptr_UserID req) = Some (ptr_UserID req)"
  shows "(\<exists>r \<in> set (transactions (view ctx w)). t_owner_id r = ptr_UserID req \<and> transaction_of_row r = Inr (ptp_Transaction resp)) \<and>
    (\<exists>a \<in> set (accounts (view ctx w)). a_owner_id a = ptr_UserID req \<and> a_balance a = ptp_Balance resp)"
proof -
  obtain e w1 x w2 y w3 where
    c: "TransactionRepository_Create ctx
      \<lparr>ctr_Transaction = \<lparr>tr_ID = [], tr_Ref = ptr_Ref req, tr_AccountID = ptr_AccountID req,
         tr_OwnerID = owner, tr_Kind = ptr_Kind req, tr_Points = delta, tr_OccurredAt = occ,
         tr_RecordedAt = now, tr_CreatedBy = ptr_UserID req\<rparr>\<rparr> w = (Inl e, w1)" "errors_Is e ErrDuplicateRef" and
    t: "TransactionRepository_GetByID ctx \<lparr>gtr_UserID = ptr_UserID req, gtr_Ref = ptr_Ref req\<rparr> w1 = (Inr x, w2)" and
    a: "AccountRepository_GetByID ctx \<lparr>gar_AccountID = ptr_AccountID req, gar_UserID = ptr_UserID req\<rparr> w2 = (Inr y, w3)" and
    resp: "ptp_Transaction resp = x" "ptp_Balance resp = acc_Balance y"
    using run dup by (auto simp: process_unit_def split: prod.splits sum.splits if_splits)
  from TransactionRepository_Create_duplicate [OF c(1) con c(2)]
  have w1: "connected ctx w1" "view ctx w1 = view ctx w" by (auto dest: moved_step)
  from TransactionRepository_GetByID_Inr [OF t w1(1)] have w2: "connected ctx w2" "view ctx w2 = view ctx w1"
    "\<exists>r \<in> set (transactions (view ctx w1)). t_owner_id r = ptr_UserID req \<and> transaction_of_row r = Inr x"
    using scope(1) by (auto simp: in_scope_def dest: moved_step)
  from AccountRepository_GetByID_Inr [OF a w2(1)]
  have "\<exists>r \<in> set (accounts (view ctx w2)). a_owner_id r = ptr_UserID req \<and> a_balance r = acc_Balance y"
    using scope(2) by (auto simp: in_scope_def dest!: account_of_row_Inr)
  then show ?thesis using w1 w2 resp by simp
qed

lemma process_duplicate_own:
  assumes run: "WalletService_ProcessTransaction ctx req w = (Inr resp, w')" and dup: "ptp_Duplicate resp"
    and idle: "\<not> ctx_Tx ctx" "w_tx w = None"
    and scope: "\<And>u. scope_arg ctx PermTransactionReadAll u = Some u" "\<And>u. scope_arg ctx PermAccountReadAll u = Some u"
  shows "(\<exists>r \<in> set (transactions (w_db w)). t_owner_id r = ptr_UserID req \<and> transaction_of_row r = Inr (ptp_Transaction resp)) \<and>
    (\<exists>a \<in> set (accounts (w_db w)). a_owner_id a = ptr_UserID req \<and> a_balance a = ptp_Balance resp)"
proof -
  obtain now w1 where tm: "time_Now w = (now, w1)" by (cases "time_Now w")
  have w1: "w_tx w1 = None" "w_db w1 = w_db w" using tm idle by (auto simp: time_Now_def)
  let ?get = "AccountRepository_GetByID ctx \<lparr>gar_AccountID = ptr_AccountID req, gar_UserID = ptr_UserID req\<rparr>"
  obtain g w2 where get: "?get w1 = (g, w2)" by fastforce
  have w2: "w_tx w2 = None" "w_db w2 = w_db w"
    using evolves_idle [of "(=)" ctx w1 w2] frozen.AccountRepository_reads_evolve(2) [of ctx w1] idle(1) w1
    by (metis get snd_conv)+
  have reject: "rejectTransaction ctx req delta t owner err v \<noteq> (Inr resp, w')" for delta t owner err v
    using rejectTransaction_ledger by blast
  obtain delta occ owner w3 where tx: "RunInTx ctx (process_unit req delta now occ owner) w2 = (Inr resp, w3)"
    using run reject tm get
    by (auto simp: WalletService_ProcessTransaction_def Let_def split: option.splits sum.splits prod.splits)
  obtain v u where unit: "usable (in_tx ctx) v" "view (in_tx ctx) v = w_db w2"
    "process_unit req delta now occ owner (in_tx ctx) v = (Inr resp, u)"
    using RunInTx_outcome [OF tx idle(1) w2(1) process_unit_connected] by auto
  have sc: "scope_arg (in_tx ctx) p x = scope_arg ctx p x" for p x by (simp add: scope_arg_def)
  from process_unit_duplicate_own [OF unit(3) moved_usable(3) [OF unit(1)] dup] scope sc unit(2) w2(2) show ?thesis by simp
qed

lemma process_own:
  assumes run: "WalletService_ProcessTransaction ctx req w = (Inr resp, w')"
    and idle: "\<not> ctx_Tx ctx" "w_tx w = None" and ok: "schema_ok (w_db w)"
    and scope: "\<And>u. scope_arg ctx PermTransactionReadAll u = Some u" "\<And>u. scope_arg ctx PermAccountReadAll u = Some u"
  shows "about (ptr_UserID req) (w_db w') (TransactionResult (fillProcessResult resp))"
proof (cases "ptp_Duplicate resp")
  case True
  have "same_ledger (w_db w) (w_db w')" using process_effect [OF run idle ok] True by (simp add: process_outcome_def)
  then have same: "transactions (w_db w') = transactions (w_db w)" "accounts (w_db w') = accounts (w_db w)"
    by (simp_all add: same_ledger_def)
  obtain r a where r: "r \<in> set (transactions (w_db w))" "t_owner_id r = ptr_UserID req" "transaction_of_row r = Inr (ptp_Transaction resp)"
    and a: "a \<in> set (accounts (w_db w))" "a_owner_id a = ptr_UserID req" "a_balance a = ptp_Balance resp"
    using process_duplicate_own [OF run True idle scope] by blast
  show ?thesis using r(1,2) a True transaction_of_row_fields [OF r(3)]
    by (auto simp: list_ex_iff fillProcessResult_def Let_def same intro!: bexI [of _ r] bexI [of _ a])
next
  case False
  let ?x = "ptp_Transaction resp"
  have p: "records req ?x" "posts ?x (ptp_Balance resp) (w_db w) (w_db w')"
    using process_effect [OF run idle ok] False by (simp_all add: process_outcome_def)
  have perm: "\<not> IsGranted ctx PermAccountReadAll" using scope(2) [of "[]"] by (auto simp: scope_arg_def split: if_splits)
  obtain a where a: "a \<in> set (accounts (w_db w))" "a_id a = ptr_AccountID req" "a_owner_id a = ptr_UserID req"
    using no_visible_account [OF run idle perm] by blast
  obtain z where z: "z \<in> set (accounts (w_db w))" "a_id z = tr_AccountID ?x" "a_owner_id z = tr_OwnerID ?x"
      "ptp_Balance resp = a_balance z + tr_Points ?x"
    using p(2) unfolding posts_def by blast
  have acc: "tr_AccountID ?x = ptr_AccountID req" using p(1) by (simp add: records_def)
  have "z = a" by (rule accounts_unique [OF schema_ok_parts(2) [OF ok] z(1) a(1)]) (simp add: z(2) a(2) acc)
  then have own: "tr_OwnerID ?x = ptr_UserID req" "a_owner_id z = ptr_UserID req" using z(3) a(3) by simp_all
  have "row_of_transaction ?x \<in> set (transactions (w_db w'))" using p(2) by (simp add: posts_def)
  moreover have "z\<lparr>a_balance := ptp_Balance resp\<rparr> \<in> set (accounts (w_db w'))"
    using p(2) z by (auto simp: posts_def set_update_where)
  ultimately show ?thesis using own z(2) False
    by (auto simp: list_ex_iff fillProcessResult_def Let_def row_of_transaction_def
      intro!: bexI [of _ "row_of_transaction ?x"] bexI [of _ "z\<lparr>a_balance := ptp_Balance resp\<rparr>"])
qed

lemma scanAccounts_owners: "scanAccounts rows = Inr as \<Longrightarrow> map acc_OwnerID as = map a_owner_id rows"
  by (induction rows arbitrary: as) (auto simp: scanAccount_def split: sum.splits dest!: account_of_row_Inr)

lemma scanAuditEntries_owners: "scanAuditEntries rows = Inr es \<Longrightarrow> map aud_OwnerID es = map e_owner_id rows"
  by (induction rows arbitrary: es) (auto simp: scanAuditEntry_def audit_of_row_def split: sum.splits)

lemma fetch_rows_None: "fetch_rows ctx rows w = ((rs, None), w') \<Longrightarrow> rs = rows"
  by (auto simp: fetch_rows_def split: prod.splits option.splits)

lemma AccountRepository_List_owners:
  assumes "AccountRepository_List ctx rq w = (Inr as, w')" "connected ctx w" "\<not> IsGranted ctx PermAccountReadAll"
  shows "list_all (\<lambda>a. acc_OwnerID a = lar_UserID rq) as"
proof -
  obtain rows w1 where sel: "sql_exec ctx [lar_UserID rq] (select_accounts (env_text_le (w_env w)) (Some (lar_UserID rq))) w = (Inr rows, w1)"
    and sc: "scanAccounts rows = Inr as"
    using assms(1,3) by (auto simp: AccountRepository_List_def Let_def scope_arg_def scope_args_def
        split: option.splits sum.splits prod.splits dest!: fetch_rows_None)
  have "list_all (\<lambda>r. a_owner_id r = lar_UserID rq) rows"
    using sql_exec_InrD [OF sel assms(2)] by (auto simp: select_accounts_def in_scope_def list_all_iff)
  then have "list_all (\<lambda>z. z = lar_UserID rq) (map acc_OwnerID as)"
    unfolding scanAccounts_owners [OF sc] by (simp add: list_all_iff)
  then show ?thesis by (simp add: list_all_iff)
qed

lemma queryEntries_owners:
  assumes "AuditEntryRepository_queryEntries ctx args cond (Some uid) w = (Inr es, w')" "connected ctx w"
  shows "list_all (\<lambda>e. aud_OwnerID e = Some uid) es"
proof -
  obtain rows w1 where sel: "sql_exec ctx (args @ scope_args (Some uid)) (select_audit cond (Some uid)) w = (Inr rows, w1)"
    and sc: "scanAuditEntries rows = Inr es"
    using assms(1) by (auto simp: AuditEntryRepository_queryEntries_def
        split: option.splits sum.splits prod.splits dest!: fetch_rows_None)
  have "list_all (\<lambda>r. e_owner_id r = Some uid) rows"
    using sql_exec_InrD [OF sel assms(2)] by (auto simp: select_audit_def owner_in_scope_def list_all_iff)
  then have "list_all (\<lambda>z. z = Some uid) (map aud_OwnerID es)"
    unfolding scanAuditEntries_owners [OF sc] by (simp add: list_all_iff)
  then show ?thesis by (simp add: list_all_iff)
qed

lemma AccountRepository_GetAccountBalance_owner:
  assumes "AccountRepository_GetAccountBalance ctx rq w = (Inr b, w')" "connected ctx w" "\<not> IsGranted ctx PermAccountReadAll"
  shows "view ctx w' = view ctx w \<and> (\<exists>r \<in> set (accounts (view ctx w)). a_id r = gbr_AccountID rq \<and> a_owner_id r = gbr_UserID rq \<and> a_balance r = b)"
  using assms
  by (auto simp: AccountRepository_GetAccountBalance_def Let_def scope_arg_def in_scope_def
      split: option.splits prod.splits sum.splits dest!: sql_exec_InrD balance_lookup.select_Some)

lemma AccountRepository_UpdateAccountName_owner:
  assumes "AccountRepository_UpdateAccountName ctx rq w = (Inr a, w')" "connected ctx w" "\<not> IsGranted ctx PermAccountWriteAll"
  shows "acc_OwnerID a = unr_UserID rq"
proof -
  obtain args r w1 where "sql_exec ctx args (update_name (unr_AccountID rq) (unr_Name rq) (Some (unr_UserID rq))) w = (Inr (Some r), w1)"
    and row: "account_of_row r = Inr a"
    using assms(1,3) by (auto simp: AccountRepository_UpdateAccountName_def Let_def scope_arg_def scanAccount_Inr
        split: option.splits prod.splits sum.splits if_splits)
  from sql_exec_InrD [OF this(1) assms(2)] account_of_row_Inr [OF row] show ?thesis
    by (auto simp: update_name_def Let_def in_scope_def find_Some_iff)
qed

lemma serve_about:
  assumes m: "member_of ctx c" and idle: "w_tx w = None" and ok: "schema_ok (w_db w)"
    and run: "serve cr ctx call w = (Inr res, w')"
    and auth: "Policy_Authorize DefaultPolicy (PermissionsForRole RoleMember) (rpc_method call)"
  shows "about (claim_UserID c) (w_db w') res"
proof -
  note f = member_of_facts [OF m]
  have con: "connected ctx w" "\<And>v. w_tx v = None \<Longrightarrow> connected ctx v" "\<And>v. view ctx v = w_db v"
    using f(2) idle by (simp_all add: connected_def view_def)
  have tick: "time_Now w = (t, v) \<Longrightarrow> connected ctx v" for t v
    using con(1) by (auto simp: time_Now_def connected_def)
  have scoped: "scope_arg ctx PermAuditReadAll u = Some u" "scope_arg ctx PermAccountReadAll u = Some u"
    "scope_arg ctx PermTransactionReadAll u = Some u" for u
    using m by (auto simp: scope_arg_def member_of_def IsGranted_iff ContextWithLoginClaim_def PermissionsForRole_simps perm_defs)
  show ?thesis
  proof (cases call)
    case (CallEarnPoints q)
    then show ?thesis using run f(1)
      by (auto simp: answer_Inr WalletAdaptor_EarnPoints_def WalletService_EarnPoints_def simp del: about.simps
          split: sum.splits prod.splits dest!: process_own [OF _ f(2) idle ok scoped(3,2)])
  next
    case (CallSpendPoints q)
    then show ?thesis using run f(1)
      by (auto simp: answer_Inr WalletAdaptor_SpendPoints_def WalletService_SpendPoints_def simp del: about.simps
          split: sum.splits prod.splits dest!: process_own [OF _ f(2) idle ok scoped(3,2)])
  next
    case CallLogout
    then show ?thesis using run by (auto simp: answer_Inr)
  next
    case CallFetchMyAccounts
    then show ?thesis using run f(1,3) con(1)
      by (auto simp: answer_Inr AccountAdaptor_FetchMyAccounts_def AccountService_FetchMyAccounts_def account_result_def list_all_iff
          split: sum.splits prod.splits option.splits if_splits dest!: AccountRepository_List_owners)
  next
    case (CallGetAccountByID q)
    then show ?thesis using run f(1) con(1) scoped
      by (auto simp: answer_Inr AccountAdaptor_GetAccountByID_def AccountService_GetAccountByID_def account_result_def in_scope_def
          split: sum.splits prod.splits option.splits dest!: AccountRepository_GetByID_Inr account_of_row_Inr)
  next
    case (CallGetAccountBalance q)
    then show ?thesis using run f(1,3) con
      by (auto simp: answer_Inr AccountAdaptor_GetAccountBalance_def AccountService_GetAccountBalance_def list_ex_iff
          split: sum.splits prod.splits option.splits dest!: AccountRepository_GetAccountBalance_owner)
  next
    case (CallUpdateAccountName q)
    then show ?thesis using run f(1,4) con(1)
      by (auto simp: answer_Inr AccountAdaptor_UpdateAccountName_def AccountService_UpdateAccountName_def account_result_def
          split: sum.splits prod.splits option.splits dest!: AccountRepository_UpdateAccountName_owner)
  next
    case (CallOpenAccount q)
    then show ?thesis using run f(1) tick
      by (auto simp: answer_Inr OpenerAdaptor_OpenAccount_def AccountOpener_OpenAccount_def Let_def
          split: sum.splits prod.splits option.splits if_splits dest!: AccountRepository_Create_Inr)
  next
    case (CallFetchTransactionAuditTrail ref)
    then show ?thesis using run f(1) con(1) scoped(1)
      by (auto simp: answer_Inr AuditAdaptor_FetchTransactionAuditTrail_def AuditService_FetchTransactionAuditTrail_def
          AuditEntryRepository_ListByTransactionRef_def audit_result_def list_all_iff
          split: sum.splits prod.splits option.splits if_splits dest!: queryEntries_owners)
  qed (use auth in \<open>simp_all add: Policy_Authorize_iff DefaultPolicy_def method_defs rpc_method_def service_names
      PermissionsForRole_simps perm_defs\<close>)
qed


text \<open>
  C22: A member token only ever reads its owner's rows. Whatever method a request with such a token calls
  and whatever reply it gets: the accounts and balances are rows of the caller, every entry of an audit
  trail is about an account the caller owns, and the transaction in the reply to an earn or a spend, also
  to a repeated ref, is a ledger row of the caller, with the balance of an account of the caller. A member
  gets no other kind of reply but the acknowledgement of a logout.
\<close>

theorem member_sees_only_own_rows:
  assumes lib: "library_ok lib" and idle: "w_tx (srv_World s) = None" and ok: "schema_ok (w_db (srv_World s))"
    and run: "api lib limited r s = (p, s')" and res: "rs_Payload p = RpcReply (Inr res)"
    and member: "decodes (lib_Crypto lib) (ExtractToken (hr_Authorization r)) c" "claim_Permissions c = PermissionsForRole RoleMember"
    and names: "hr_Body r = Body bytes" "json_Envelope lib bytes = (True, m, i)" "\<not> Policy_IsPublic DefaultPolicy m"
  shows "case res of
      AccountsListResult as \<Rightarrow> \<forall>a \<in> set as. ars_UserID a = claim_UserID c
    | AccountValueResult a \<Rightarrow> ars_UserID a = claim_UserID c
    | AccountBalanceResult b \<Rightarrow> \<exists>a \<in> set (accounts (w_db (srv_World s'))).
        a_id a = brs_AccountID b \<and> a_owner_id a = claim_UserID c \<and> a_balance a = brs_Balance b
    | OpenedResult a \<Rightarrow> ors_OwnerID a = claim_UserID c
    | AuditTrailResult t \<Rightarrow> \<forall>e \<in> set (lbr_Entries t). aer_OwnerID e = Some (claim_UserID c)
    | TransactionResult t \<Rightarrow>
        (\<exists>x \<in> set (transactions (w_db (srv_World s'))). t_ref x = pjp_Ref t \<and> t_account_id x = pjp_AccountID t \<and>
           t_kind x = pjp_Kind t \<and> t_points x = pjp_Points t \<and> t_owner_id x = claim_UserID c) \<and>
        (\<exists>a \<in> set (accounts (w_db (srv_World s'))). a_owner_id a = claim_UserID c \<and> a_balance a = pjp_Balance t \<and>
           (pjp_Duplicate t \<or> a_id a = pjp_AccountID t))
    | LogoutResult b \<Rightarrow> True
    | _ \<Rightarrow> False"
proof -
  obtain ctx call x w' where sv: "served lib r (srv_World s) ctx call x w'" "still w' (srv_World s')" "rs_Payload p = reply_of x"
    using api_cases [OF run idle lib] res by (auto simp: refusal.simps)
  have x: "x = Inr res" using sv(3) res reply_of_Inr by metis
  from sv(1) obtain v i' where v: "still (srv_World s) v" "serve (lib_Crypto lib) ctx call v = (x, w')"
    and adm: "admitted lib (srv_World s) (ExtractToken (hr_Authorization r)) (rpc_method call) ctx"
    and m: "json_Envelope lib bytes = (True, rpc_method call, i')"
    unfolding served_def using names(1) by auto
  have "\<not> Policy_IsPublic DefaultPolicy (rpc_method call)" using m names(2,3) by simp
  then have mem: "member_of ctx c" "Policy_Authorize DefaultPolicy (claim_Permissions c) (rpc_method call)"
    using adm decodes_unique [OF member(1)] member(2) unfolding admitted_def member_of_def by blast+
  have "about (claim_UserID c) (w_db w') res"
    using serve_about [OF mem(1) _ _ v(2) [unfolded x] mem(2) [unfolded member(2)]] v(1) ok by (simp add: still_def)
  then have "about (claim_UserID c) (w_db (srv_World s')) res" using sv(2) by (simp add: still_def)
  then show ?thesis by (cases res) (auto simp: list_all_iff list_ex_iff)
qed

fun accounts_reply :: "payload \<Rightarrow> string list option" where
  "accounts_reply (RpcReply (Inr (AccountsListResult as))) = Some (map ars_ID as)"
| "accounts_reply _ = None"

lemma sample_accounts: "accounts_reply (rs_Payload (fst (sample_api ''AccountService.FetchMyAccounts'' logged_in))) = Some [''acc'']"
  by code_simp

theorem member_sees_only_own_rows_witness:
  "\<exists>as. rs_Payload (fst (sample_api ''AccountService.FetchMyAccounts'' logged_in)) = RpcReply (Inr (AccountsListResult as)) \<and>
    map ars_ID as = [''acc''] \<and> (\<forall>a \<in> set as. ars_UserID a = ''ann'')"
proof -
  let ?m = "''AccountService.FetchMyAccounts''"
  let ?lib = "sample_library ann_claim"
  have run: "api ?lib True (sample_request ?m) logged_in = (fst (sample_api ?m logged_in), snd (sample_api ?m logged_in))"
    by (simp add: sample_api_def)
  have st: "w_tx (srv_World logged_in) = None" "schema_ok (w_db (srv_World logged_in))"
    using durable.api_run_related [OF respected_durable login_idle(1), of ?lib True "[sample_request ''EmailPasswordAuthenticator.Login'']"]
      login_schema by (simp_all add: logged_in_def sample_api_def durable_def)
  have c: "decodes (lib_Crypto ?lib) (ExtractToken (hr_Authorization (sample_request ?m))) ann_claim"
    "claim_Permissions ann_claim = PermissionsForRole RoleMember" "claim_UserID ann_claim = ''ann''"
    using ann_decodes by (simp_all add: sample_body(2) ann_claim_def login_claim_def login_tables_def sample_tables_def RoleMember_def)
  have m: "json_Envelope ?lib ?m = (True, ?m, ''1'')" "\<not> Policy_IsPublic DefaultPolicy ?m"
    by (simp_all add: sample_library_def Policy_IsPublic_def DefaultPolicy_def loginMethod_def registerMethod_def)
  obtain as where as: "rs_Payload (fst (sample_api ?m logged_in)) = RpcReply (Inr (AccountsListResult as))" "map ars_ID as = [''acc'']"
    using sample_accounts by (cases "rs_Payload (fst (sample_api ?m logged_in))" rule: accounts_reply.cases) auto
  show ?thesis
    using member_sees_only_own_rows [OF sample_library_ok st run as(1) c(1,2) sample_body(1) m] as c(3) by auto
qed

end
