(* ===== verification/RequestLimits.thy ===== *)
theory RequestLimits
  imports ApiProperties
begin

text \<open>
  What the middlewares shed, and whom they charge: the policy and the registered handlers name the
  same methods, an oversized body never gets past the cap, every answered call has taken a token
  from exactly one bucket, and the bucket of an address does not depend on its port.
\<close>

text \<open>
  C37: The access policy and the registered services agree: the methods a client can call are
  exactly the two public ones and those the policy has an entry for, so no handler is ungated and
  no entry is dead.
\<close>

theorem policy_covers_every_method:
  "range rpc_method = {m. Policy_IsPublic DefaultPolicy m} \<union> dom (policy_byMethod DefaultPolicy)"
proof
  show "range rpc_method \<subseteq> {m. Policy_IsPublic DefaultPolicy m} \<union> dom (policy_byMethod DefaultPolicy)"
  proof
    fix m assume "m \<in> range rpc_method"
    then obtain call where "m = rpc_method call" by blast
    then show "m \<in> {m. Policy_IsPublic DefaultPolicy m} \<union> dom (policy_byMethod DefaultPolicy)"
      by (cases call) (simp_all add: rpc_method_def service_names Policy_IsPublic_def DefaultPolicy_def method_defs
          loginMethod_def registerMethod_def)
  qed
next
  have hit: "rpc_method (CallLogin undefined) = loginMethod" "rpc_method (CallRegister undefined) = registerMethod"
    "rpc_method CallLogout = logoutMethod" "rpc_method (CallProcessTransaction undefined) = processTransactionMethod"
    "rpc_method (CallProcessTransactionBatch []) = processTransactionBatchMethod"
    "rpc_method (CallEarnPoints undefined) = earnPointsMethod" "rpc_method (CallSpendPoints undefined) = spendPointsMethod"
    "rpc_method CallFetchMyAccounts = fetchMyAccountsMethod" "rpc_method (CallGetAccountByID undefined) = getAccountMethod"
    "rpc_method (CallGetAccountBalance undefined) = getAccountBalanceMethod"
    "rpc_method (CallUpdateAccountName undefined) = updateAccountNameMethod"
    "rpc_method (CallUpdateAccountBalance undefined) = updateAccountBalanceMethod"
    "rpc_method (CallOpenAccount undefined) = openAccountMethod"
    "rpc_method (CallFetchTransactionAuditTrail []) = listAuditByRefMethod"
    by (simp_all add: rpc_method_def service_names method_defs loginMethod_def registerMethod_def)
  have "m \<in> set (member_methods @ admin_only_methods) \<Longrightarrow> m \<in> range rpc_method" for m
    unfolding member_methods_def admin_only_methods_def using hit by (auto simp del: rpc_method_def) (metis rangeI)+
  moreover have "Policy_IsPublic DefaultPolicy m \<Longrightarrow> m \<in> range rpc_method" for m
    using hit(1,2) by (auto simp: Policy_IsPublic_def DefaultPolicy_def split: if_splits option.splits) (metis rangeI)+
  ultimately show "{m. Policy_IsPublic DefaultPolicy m} \<union> dom (policy_byMethod DefaultPolicy) \<subseteq> range rpc_method"
    using policy_methods by blast
qed

text \<open>
  C36: A request body over the cap is answered with the error for it, without touching any table or
  any rate limit bucket, whatever it contains and whoever sends it.
\<close>

theorem oversize_body_refused:
  assumes "w_tx (srv_World s) = None" "hr_Body r = Body bytes" "int (length bytes) > maxRequestBodyBytes"
  shows "case api lib limited r s of (p, s') \<Rightarrow>
    rs_Payload p = ErrorEnvelope (WriteError [] CodeInvalidParams ''request body too large'' ''body_too_large'') \<and>
    w_db (srv_World s') = w_db (srv_World s) \<and> srv_Limits s' = srv_Limits s"
proof -
  obtain p s' where out: "api lib limited r s = (p, s')" by fastforce
  show ?thesis using api_oversize [OF assms(2,3,1) out] unfolding out by (simp add: still_def)
qed

theorem oversize_body_refused_witness:
  "rs_Payload (fst (sample_api (replicate 4194305 CHR ''x'') login_server)) =
    ErrorEnvelope (WriteError [] CodeInvalidParams ''request body too large'' ''body_too_large'')"
  using oversize_body_refused [OF login_idle(1) sample_body(1) [of "replicate 4194305 CHR ''x''"], of "sample_library ann_claim" True]
  by (simp add: sample_api_def maxRequestBodyBytes_def split: prod.splits)

section \<open>Charging\<close>

lemma limit_by_key_served:
  assumes "limit_by_key lib key c rr k s = (RpcReply y, s')"
  shows "\<exists>n l. limiters_Limit lib \<lparr>tb_Key = key, tb_TTL = rr * c, tb_Capacity = c, tb_RefillRate = rr\<rparr> (srv_Limits s) = (Granted n, l) \<and>
    k (s\<lparr>srv_Limits := l\<rparr>) = (RpcReply y, s')"
  using assms by (auto simp: limit_by_key_def TokenStateBackend_def TokenBucket_def Limit_def
      split: sum.splits prod.splits limit_error.splits limit_reply.splits)

lemma jsonRPCServer_limits: "jsonRPCServer lib r s = (p, s') \<Longrightarrow> srv_Limits s' = srv_Limits s"
  by (auto simp: jsonRPCServer_def split: sum.splits prod.splits)

lemma userRateLimiter_served:
  assumes "userRateLimiter_ServeHTTP lib c rr (jsonRPCServer lib) r s = (RpcReply y, s')"
  shows "case ctx_LoginClaim (hr_Context r) of
      None \<Rightarrow> srv_Limits s' = srv_Limits s
    | Some claim \<Rightarrow> \<exists>n. limiters_Limit lib \<lparr>tb_Key = ''user_token_bucket:'' @ claim_UserID claim, tb_TTL = rr * c,
        tb_Capacity = c, tb_RefillRate = rr\<rparr> (srv_Limits s) = (Granted n, srv_Limits s')"
  using assms by (auto simp: userRateLimiter_ServeHTTP_def LoginClaimFromContext_def
      split: option.splits dest: jsonRPCServer_limits dest!: limit_by_key_served)


text \<open>The host part of the remote address, or the whole address when it has no port.\<close>

definition client_ip :: "http_request \<Rightarrow> string" where
  "client_ip r = (case SplitHostPort (hr_RemoteAddr r) of Some host \<Rightarrow> host | None \<Rightarrow> hr_RemoteAddr r)"

lemma client_ip_context [simp]: "client_ip (r\<lparr>hr_Context := c\<rparr>) = client_ip r"
  by (simp add: client_ip_def cong: option.case_cong)

lemma ipRateLimiter_charges:
  assumes body: "hr_Body r = Body bytes" "int (length bytes) \<le> maxPeekBodyBytes" "json_Envelope lib bytes = (True, m, i)" "m \<noteq> []"
    and on: "ms m = Some True"
  shows "ipRateLimiter_ServeHTTP lib ms c rr h r s = limit_by_key lib (''ip_token_bucket:'' @ client_ip r) c rr (h r) s"
proof -
  have "peekMethod lib r = (Some m, r)" using body by (auto simp: peekMethod_def Let_def)
  then show ?thesis using on by (simp add: ipRateLimiter_ServeHTTP_def client_ip_def)
qed

lemma authorization_public:
  assumes "hr_Body r = Body bytes" "int (length bytes) \<le> maxRequestBodyBytes" "json_Envelope lib bytes = (True, m, i)" "m \<noteq> []"
    "Policy_IsPublic DefaultPolicy m"
  shows "authorizationMiddleware lib DefaultPolicy h r s = h r s"
proof -
  have "r\<lparr>hr_Body := Body bytes\<rparr> = r" using assms(1) by simp
  moreover have "authorizationMiddleware lib DefaultPolicy h r s = h (r\<lparr>hr_Body := Body bytes\<rparr>) s"
    using assms by (simp add: authorizationMiddleware_def Let_def)
  ultimately show ?thesis by simp
qed

text \<open>A body that is too large, unreadable or no envelope never gets a reply from a handler.\<close>

lemma replied_body:
  assumes "authorizationMiddleware lib DefaultPolicy h r s = (RpcReply y, s')"
  shows "\<exists>bytes m i. hr_Body r = Body bytes \<and> int (length bytes) \<le> maxRequestBodyBytes \<and>
    json_Envelope lib bytes = (True, m, i) \<and> m \<noteq> []"
proof (cases "read_all maxRequestBodyBytes (hr_Body r)")
  case (Inl e)
  then show ?thesis using assms by (cases e) (simp_all add: authorizationMiddleware_def)
next
  case (Inr bytes)
  obtain ok m i where "json_Envelope lib bytes = (ok, m, i)" by (cases "json_Envelope lib bytes") auto
  then show ?thesis using assms Inr
    by (cases "\<not> ok \<or> m = []") (simp_all add: authorizationMiddleware_def Let_def read_all_Inr)
qed

text \<open>
  C34: Every call that reaches a handler has paid for it, exactly once and from exactly one bucket:
  a login or a registration took a token from the bucket of its client address, any other call one
  from the bucket of the user its token names; no other bucket is touched.
\<close>

theorem every_call_pays:
  assumes lib: "library_ok lib" and idle: "w_tx (srv_World s) = None"
    and run: "api lib True r s = (p, s')" and res: "rs_Payload p = RpcReply y"
  shows "\<exists>bytes m i n. hr_Body r = Body bytes \<and> json_Envelope lib bytes = (True, m, i) \<and>
    (if Policy_IsPublic DefaultPolicy m then
       limiters_Limit lib \<lparr>tb_Key = ''ip_token_bucket:'' @ client_ip r, tb_TTL = 20000000000, tb_Capacity = 200,
         tb_RefillRate = 100000000\<rparr> (srv_Limits s) = (Granted n, srv_Limits s')
     else \<exists>claim. decodes (lib_Crypto lib) (ExtractToken (hr_Authorization r)) claim \<and>
       limiters_Limit lib \<lparr>tb_Key = ''user_token_bucket:'' @ claim_UserID claim, tb_TTL = 2000000000, tb_Capacity = 100,
         tb_RefillRate = 20000000\<rparr> (srv_Limits s) = (Granted n, srv_Limits s'))"
proof -
  let ?r = "r\<lparr>hr_Context := background\<rparr>"
  let ?json = "jsonRPCServer lib"
  let ?user = "userRateLimiter_ServeHTTP lib userRateCapacity userRateRefill ?json"
  let ?auth = "authorizationMiddleware lib DefaultPolicy ?user"
  note rates = authRateCapacity_def authRateRefill_def userRateCapacity_def userRateRefill_def millisecond_def
  obtain w s3 where q: "apiRouter lib True ?r (s\<lparr>srv_World := w\<rparr>) = (RpcReply y, s3)"
    and st: "still (srv_World s) w" "srv_Limits s' = srv_Limits s3"
    using api_router [OF run idle, unfolded res] by (elim exE conjE) (rule that)
  let ?s = "s\<lparr>srv_World := w\<rparr>"
  have idle': "w_tx (srv_World ?s) = None" using st(1) by (simp add: still_def)
  from q have ip: "ipRateLimiter_ServeHTTP lib publicAuthMethods authRateCapacity authRateRefill ?auth ?r ?s = (RpcReply y, s3)"
    by (simp add: apiRouter_def)
  have "\<exists>b s1. ?auth (?r\<lparr>hr_Body := b\<rparr>) s1 = (RpcReply y, s3) \<and> read_all maxRequestBodyBytes b = read_all maxRequestBodyBytes (hr_Body ?r)"
    using ipRateLimiter_cases [OF ip] by auto
  then obtain bytes m i where b: "hr_Body ?r = Body bytes" "int (length bytes) \<le> maxRequestBodyBytes"
      "json_Envelope lib bytes = (True, m, i)" "m \<noteq> []"
    using replied_body by (elim exE conjE) (drule replied_body, metis read_all_Inr http_request.select_convs(6) http_request.surjective http_request.update_convs(6))
  have b': "int (length bytes) \<le> maxPeekBodyBytes" using b(2) by (simp add: maxPeekBodyBytes_def maxRequestBodyBytes_def)
  show ?thesis
  proof (cases "Policy_IsPublic DefaultPolicy m")
    case True
    then have "limit_by_key lib (''ip_token_bucket:'' @ client_ip ?r) authRateCapacity authRateRefill (?auth ?r) ?s = (RpcReply y, s3)"
      using ip ipRateLimiter_charges [where ms = publicAuthMethods, OF b(1) b' b(3,4)] by (simp add: publicAuthMethods_public)
    from limit_by_key_served [OF this] obtain n l where
      n: "limiters_Limit lib \<lparr>tb_Key = ''ip_token_bucket:'' @ client_ip ?r, tb_TTL = authRateRefill * authRateCapacity,
          tb_Capacity = authRateCapacity, tb_RefillRate = authRateRefill\<rparr> (srv_Limits s) = (Granted n, l)"
        "?auth ?r (?s\<lparr>srv_Limits := l\<rparr>) = (RpcReply y, s3)" by auto
    have "?user ?r (?s\<lparr>srv_Limits := l\<rparr>) = (RpcReply y, s3)"
      using n(2) authorization_public [OF b True] by simp
    from userRateLimiter_served [OF this] have "srv_Limits s3 = l" by (simp add: background_def)
    then show ?thesis using n(1) b True st(2) by (simp add: rates)
  next
    case False
    then have "?auth ?r ?s = (RpcReply y, s3)"
      using ip ipRateLimiter_passes [where ms = publicAuthMethods, OF b(1) b' b(3)] by (simp add: publicAuthMethods_public)
    from authorization_cases [OF this idle'] obtain ctx s1 where
      adm: "admitted lib (srv_World ?s) (ExtractToken (hr_Authorization ?r)) m ctx"
      and h: "srv_Limits s1 = srv_Limits ?s" "?user (?r\<lparr>hr_Context := ctx\<rparr>) s1 = (RpcReply y, s3)"
      using b(1,3) by auto
    obtain claim where c: "ctx = ContextWithLoginClaim background claim" "decodes (lib_Crypto lib) (ExtractToken (hr_Authorization r)) claim"
      using adm False by (auto simp: admitted_def)
    show ?thesis using userRateLimiter_served [OF h(2)] h(1) c b False st(2)
      by (auto simp: rates ContextWithLoginClaim_def)
  qed
qed

theorem every_call_pays_witness:
  "\<exists>n. limiters_Limit (sample_library ann_claim) \<lparr>tb_Key = ''ip_token_bucket:10.0.0.1'', tb_TTL = 20000000000,
     tb_Capacity = 200, tb_RefillRate = 100000000\<rparr> (srv_Limits login_server) = (Granted n, srv_Limits logged_in)"
proof -
  let ?m = "''EmailPasswordAuthenticator.Login''"
  let ?lib = "sample_library ann_claim"
  have run: "api ?lib True (sample_request ?m) login_server = (fst (sample_api ?m login_server), logged_in)"
    by (simp add: sample_api_def logged_in_def)
  have m: "json_Envelope ?lib ?m = (True, ?m, ''1'')" "Policy_IsPublic DefaultPolicy ?m"
    by (simp_all add: sample_library_def Policy_IsPublic_def DefaultPolicy_def loginMethod_def registerMethod_def)
  have ip: "client_ip (sample_request ?m) = ''10.0.0.1''"
    by (simp add: client_ip_def sample_request_def SplitHostPort_def)
  show ?thesis
    using every_call_pays [OF sample_library_ok login_idle(1) run replies(1) [OF sample_login]] m
    by (simp add: sample_body(1) ip)
qed

section \<open>Shedding\<close>

text \<open>An address without brackets and further colons is cut at its port.\<close>

lemma SplitHostPort_plain:
  assumes "list_all (\<lambda>c. c \<notin> {CHR '':'', CHR ''['', CHR '']''}) (host @ port)" "host \<noteq> []"
  shows "SplitHostPort (host @ '':'' @ port) = Some host"
proof -
  have "dropWhile (\<lambda>c. c \<noteq> CHR '':'') (rev port @ CHR '':'' # rev host) = CHR '':'' # rev host"
    using assms(1) by (intro dropWhile_append3 [THEN trans]) (auto simp: list_all_iff dropWhile_append)
  then have before: "rev (drop 1 (dropWhile (\<lambda>c. c \<noteq> CHR '':'') (rev (host @ '':'' @ port)))) = host" by simp
  have "CHR '':'' \<notin> set host" "hd (host @ '':'' @ port) \<noteq> CHR ''[''"
    "CHR ''['' \<notin> set (host @ '':'' @ port)" "CHR '']'' \<notin> set (host @ '':'' @ port)"
    using assms by (cases host; auto simp: list_all_iff)+
  then show ?thesis unfolding SplitHostPort_def before Let_def by simp
qed

text \<open>
  C35: A client that has used up the bucket of its address is shed before authentication: a login or
  a registration from that address gets status 429 and the documented error, no handler runs and no
  table changes, and another source port does not help.
\<close>

theorem exhausted_address_is_shed:
  assumes idle: "w_tx (srv_World s) = None"
    and body: "hr_Body r = Body bytes" "int (length bytes) \<le> maxRequestBodyBytes" "json_Envelope lib bytes = (True, m, i)"
      "m \<in> {loginMethod, registerMethod}"
    and address: "hr_RemoteAddr r = host @ '':'' @ port" "host \<noteq> []"
      "list_all (\<lambda>c. c \<notin> {CHR '':'', CHR ''['', CHR '']''}) (host @ port)"
    and empty: "limiters_Limit lib \<lparr>tb_Key = ''ip_token_bucket:'' @ host, tb_TTL = 20000000000, tb_Capacity = 200,
      tb_RefillRate = 100000000\<rparr> (srv_Limits s) = (Exhausted, l)"
  shows "case api lib True r s of (p, s') \<Rightarrow>
    rs_Payload p = ErrorEnvelope (WriteErrorStatus 429 [] CodeTooManyRequests ''too many requests'' ''rate_limited'') \<and>
    w_db (srv_World s') = w_db (srv_World s) \<and> srv_Limits s' = l"
proof -
  let ?r = "r\<lparr>hr_Context := background\<rparr>"
  obtain p s' where out: "api lib True r s = (p, s')" by fastforce
  obtain w s3 where q: "apiRouter lib True ?r (s\<lparr>srv_World := w\<rparr>) = (rs_Payload p, s3)"
    and st: "still (srv_World s) w" "srv_Limits s' = srv_Limits s3"
      "w_tx (srv_World s3) = None \<longrightarrow> still (srv_World s3) (srv_World s')"
    using api_router [OF out idle] by (elim exE conjE) (rule that)
  have m: "publicAuthMethods m = Some True" "m \<noteq> []"
    using body(4) by (auto simp: publicAuthMethods_def loginMethod_def registerMethod_def)
  have b: "hr_Body ?r = Body bytes" "int (length bytes) \<le> maxPeekBodyBytes"
    using body(1,2) by (simp_all add: maxPeekBodyBytes_def maxRequestBodyBytes_def)
  have "client_ip ?r = host"
    using SplitHostPort_plain [OF address(3,2)] address(1) by (simp add: client_ip_def)
  then have "rs_Payload p = ErrorEnvelope (WriteErrorStatus 429 [] CodeTooManyRequests ''too many requests'' ''rate_limited'') \<and>
      s3 = s\<lparr>srv_World := w, srv_Limits := l\<rparr>"
    using q ipRateLimiter_charges [where ms = publicAuthMethods, OF b body(3) m(2,1)] empty
    by (auto simp: apiRouter_def limit_by_key_def TokenStateBackend_def TokenBucket_def Limit_def
        authRateCapacity_def authRateRefill_def millisecond_def)
  then show ?thesis using st out by (auto simp: still_def)
qed

theorem exhausted_address_is_shed_witness:
  "payload_status (rs_Payload (fst (sample_api ''EmailPasswordAuthenticator.Login'' (login_server\<lparr>srv_Limits := 0\<rparr>)))) = 429"
proof -
  let ?m = "''EmailPasswordAuthenticator.Login''"
  let ?lib = "sample_library ann_claim"
  have m: "json_Envelope ?lib ?m = (True, ?m, ''1'')" "?m \<in> {loginMethod, registerMethod}"
    "int (length ?m) \<le> maxRequestBodyBytes"
    by (simp_all add: sample_library_def loginMethod_def maxRequestBodyBytes_def)
  have a: "hr_RemoteAddr (sample_request ?m) = ''10.0.0.1'' @ '':'' @ ''4000''" "''10.0.0.1'' \<noteq> []"
    "list_all (\<lambda>c. c \<notin> {CHR '':'', CHR ''['', CHR '']''}) (''10.0.0.1'' @ ''4000'')"
    by (simp_all add: sample_request_def)
  have e: "limiters_Limit ?lib \<lparr>tb_Key = ''ip_token_bucket:'' @ ''10.0.0.1'', tb_TTL = 20000000000, tb_Capacity = 200,
      tb_RefillRate = 100000000\<rparr> (srv_Limits (login_server\<lparr>srv_Limits := 0\<rparr>)) = (Exhausted, 0)"
    by (simp add: sample_library_def)
  have "w_tx (srv_World (login_server\<lparr>srv_Limits := 0\<rparr>)) = None" by simp
  from exhausted_address_is_shed [OF this sample_body(1) m(3,1,2) a e] show ?thesis
    by (auto simp: sample_api_def WriteErrorStatus_def split: prod.splits)
qed

end
