(* ===== verification/Migrate.thy ===== *)
theory Migrate
  imports Database ZonedTime
begin

text \<open>
  The schema migrations (\<open>pkg/postgres/migrate.go\<close>): splitting a file into statements, and \<open>Migrate\<close>,
  which runs every embedded file that is not recorded yet in a transaction of its own. The database
  is the table of recorded versions, if it exists, and the rest, which the statements change; what a
  statement does is the driver's. The driver may fail at any call, before the server acted or after.
\<close>

section \<open>Statements of a file\<close>

fun cut_comment :: "string \<Rightarrow> string" where
  "cut_comment (a # b # s) = (if a = CHR ''-'' \<and> b = CHR ''-'' then [] else a # cut_comment (b # s))"
| "cut_comment s = s"

definition splitStatements :: "string \<Rightarrow> string list" where
  "splitStatements sqlText =
     (let stripped = concat (map (\<lambda>line. cut_comment line @ [newline]) (strings_Split sqlText newline))
      in filter (\<lambda>trimmed. trimmed \<noteq> []) (map strings_TrimSpace (strings_Split stripped CHR '';'')))"

section \<open>The database\<close>

record 'db store =
  st_Versions :: "(string \<times> string) list option"
  st_Data :: 'db
  st_Calls :: nat

record 'db driver =
  dr_Exec :: "string \<Rightarrow> 'db \<Rightarrow> go_error + 'db"
  dr_Fault :: "nat \<Rightarrow> fault option"
  dr_Now :: "nat \<Rightarrow> gotime"

definition dr_call :: "'db driver \<Rightarrow> 'db store \<Rightarrow> fault option \<times> 'db store" where
  "dr_call d s = (dr_Fault d (st_Calls s), s\<lparr>st_Calls := Suc (st_Calls s)\<rparr>)"

definition recorded :: "'db store \<Rightarrow> string list" where
  "recorded s = (case st_Versions s of None \<Rightarrow> [] | Some vs \<Rightarrow> map fst vs)"

text \<open>\<open>CREATE TABLE IF NOT EXISTS schema_migrations\<close>\<close>

definition create_versions :: "'db driver \<Rightarrow> 'db store \<Rightarrow> go_error option \<times> 'db store" where
  "create_versions d s =
     (case dr_call d s of (f, s) \<Rightarrow>
        let created = s\<lparr>st_Versions := Some (case st_Versions s of None \<Rightarrow> [] | Some vs \<Rightarrow> vs)\<rparr>
        in (case f of
              Some (LostRequest m) \<Rightarrow> (Some (Plain m), s)
            | Some (LostReply m) \<Rightarrow> (Some (Plain m), created)
            | None \<Rightarrow> (None, created)))"

definition count_version :: "'db driver \<Rightarrow> string \<Rightarrow> 'db store \<Rightarrow> (go_error + nat) \<times> 'db store" where
  "count_version d version s =
     (case dr_call d s of
        (Some fl, s) \<Rightarrow> (Inl (Plain (fault_text fl)), s)
      | (None, s) \<Rightarrow> (Inr (length (filter (\<lambda>v. v = version) (recorded s))), s))"

text \<open>
  The statements of one file inside the open transaction, whose view of the data is \<open>data\<close>, and the
  record of the version.
\<close>

primrec exec_statements :: "'db driver \<Rightarrow> string list \<Rightarrow> 'db \<Rightarrow> 'db store \<Rightarrow> (go_error + 'db) \<times> 'db store" where
  "exec_statements d [] data s = (Inr data, s)"
| "exec_statements d (st # sts) data s =
     (case dr_call d s of
        (Some fl, s) \<Rightarrow> (Inl (Plain (fault_text fl)), s)
      | (None, s) \<Rightarrow>
          (case dr_Exec d st data of Inl err \<Rightarrow> (Inl err, s) | Inr data \<Rightarrow> exec_statements d sts data s))"

definition insert_version :: "'db driver \<Rightarrow> string \<Rightarrow> string \<Rightarrow> 'db store \<Rightarrow> (go_error + (string \<times> string) list) \<times> 'db store" where
  "insert_version d version applied_at s =
     (case dr_call d s of
        (Some fl, s) \<Rightarrow> (Inl (Plain (fault_text fl)), s)
      | (None, s) \<Rightarrow>
          if version \<in> set (recorded s) then (Inl (unique_violation ''schema_migrations_pkey''), s)
          else (Inr ((case st_Versions s of None \<Rightarrow> [] | Some vs \<Rightarrow> vs) @ [(version, applied_at)]), s))"

section \<open>Migrate\<close>

definition tx_Rollback :: "'db driver \<Rightarrow> 'db store \<Rightarrow> 'db store" where
  "tx_Rollback d s = snd (dr_call d s)"

definition migrate_entry ::
    "'db driver \<Rightarrow> (string \<Rightarrow> string + string) \<Rightarrow> string \<Rightarrow> 'db store \<Rightarrow> go_error option \<times> 'db store" where
  "migrate_entry d ReadFile version s =
     (case count_version d version s of
        (Inl err, s) \<Rightarrow> (Some (Wrapped (''could not check migration '' @ version) err), s)
      | (Inr n, s) \<Rightarrow>
        if n > 0 then (None, s)
        else (case ReadFile (''migrations/'' @ version) of
          Inl err \<Rightarrow> (Some (Wrapped (''could not read migration '' @ version) (Plain err)), s)
        | Inr contents \<Rightarrow>
          (case dr_call d s of
             (Some fl, s) \<Rightarrow> (Some (Wrapped (''could not begin transaction for migration '' @ version) (Plain (fault_text fl))), s)
           | (None, s) \<Rightarrow>
             (case exec_statements d (splitStatements contents) (st_Data s) s of
                (Inl err, s) \<Rightarrow> (Some (Wrapped (''could not apply migration '' @ version) err), tx_Rollback d s)
              | (Inr data, s) \<Rightarrow>
                (case insert_version d version (time_FormatRFC3339 \<lparr>tm_Instant = dr_Now d (st_Calls s), tm_Offset = 0\<rparr>) s of
                   (Inl err, s) \<Rightarrow> (Some (Wrapped (''could not record migration '' @ version) err), tx_Rollback d s)
                 | (Inr vs, s) \<Rightarrow>
                   (case dr_call d s of
                      (Some (LostRequest m), s) \<Rightarrow> (Some (Wrapped (''could not commit migration '' @ version) (Plain m)), s)
                    | (Some (LostReply m), s) \<Rightarrow>
                        (Some (Wrapped (''could not commit migration '' @ version) (Plain m)), s\<lparr>st_Versions := Some vs, st_Data := data\<rparr>)
                    | (None, s) \<Rightarrow> (None, s\<lparr>st_Versions := Some vs, st_Data := data\<rparr>)))))))"

primrec migrate_entries ::
    "'db driver \<Rightarrow> (string \<Rightarrow> string + string) \<Rightarrow> string list \<Rightarrow> 'db store \<Rightarrow> go_error option \<times> 'db store" where
  "migrate_entries d ReadFile [] s = (None, s)"
| "migrate_entries d ReadFile (version # versions) s =
     (case migrate_entry d ReadFile version s of
        (Some err, s) \<Rightarrow> (Some err, s)
      | (None, s) \<Rightarrow> migrate_entries d ReadFile versions s)"

definition Migrate ::
    "'db driver \<Rightarrow> string + string list \<Rightarrow> (string \<Rightarrow> string + string) \<Rightarrow> 'db store \<Rightarrow> go_error option \<times> 'db store" where
  "Migrate d ReadDir ReadFile s =
     (case create_versions d s of
        (Some err, s) \<Rightarrow> (Some (Wrapped ''could not create schema_migrations table'' err), s)
      | (None, s) \<Rightarrow>
         (case ReadDir of
            Inl err \<Rightarrow> (Some (Wrapped ''could not read embedded migrations'' (Plain err)), s)
          | Inr entries \<Rightarrow> migrate_entries d ReadFile (sort_SliceStable bytes_less entries) s))"

section \<open>What a run leaves\<close>

primrec run_statements :: "(string \<Rightarrow> 'db \<Rightarrow> go_error + 'db) \<Rightarrow> string list \<Rightarrow> 'db \<Rightarrow> 'db option" where
  "run_statements exec [] data = Some data"
| "run_statements exec (st # sts) data = (case exec st data of Inl err \<Rightarrow> None | Inr data \<Rightarrow> run_statements exec sts data)"

text \<open>Whole files in order, without the driver's failures.\<close>

primrec run_files :: "(string \<Rightarrow> 'db \<Rightarrow> go_error + 'db) \<Rightarrow> (string \<Rightarrow> string + string) \<Rightarrow> string list \<Rightarrow> 'db \<Rightarrow> 'db option" where
  "run_files exec ReadFile [] data = Some data"
| "run_files exec ReadFile (v # vs) data =
     (case ReadFile (''migrations/'' @ v) of
        Inl err \<Rightarrow> None
      | Inr contents \<Rightarrow> Option.bind (run_statements exec (splitStatements contents) data) (run_files exec ReadFile vs))"

lemma run_files_append:
  "run_files exec ReadFile (us @ vs) data = Option.bind (run_files exec ReadFile us data) (run_files exec ReadFile vs)"
  by (induction us arbitrary: data) (auto split: sum.split option.split bind_split)

definition pending :: "string list \<Rightarrow> 'db store \<Rightarrow> string list" where
  "pending entries s = filter (\<lambda>v. v \<notin> set (recorded s)) entries"

text \<open>One file: nothing, or the whole file with its version.\<close>

lemma recorded_calls [simp]: "recorded (s\<lparr>st_Calls := n\<rparr>) = recorded s"
  by (simp add: recorded_def)

lemma store_calls [simp]: "\<exists>n. s = s\<lparr>st_Calls := n\<rparr>" "\<exists>n. s\<lparr>st_Calls := m\<rparr> = s\<lparr>st_Calls := n\<rparr>"
  by (rule exI [of _ "st_Calls s"]; simp) blast

lemma exec_statements_frame:
  "exec_statements d sts data s = (r, s') \<Longrightarrow>
   (\<exists>n. s' = s\<lparr>st_Calls := n\<rparr>) \<and> (\<forall>data'. r = Inr data' \<longrightarrow> run_statements (dr_Exec d) sts data = Some data')"
proof (induction sts arbitrary: data s)
  case (Cons st sts)
  show ?case
  proof (cases "dr_Fault d (st_Calls s)")
    case None
    show ?thesis
    proof (cases "dr_Exec d st data")
      case (Inl err)
      then show ?thesis using Cons.prems None by (auto simp: dr_call_def)
    next
      case (Inr data1)
      then have "exec_statements d sts data1 (s\<lparr>st_Calls := Suc (st_Calls s)\<rparr>) = (r, s')"
        using Cons.prems None by (simp add: dr_call_def)
      from Cons.IH [OF this] Inr show ?thesis by auto
    qed
  next
    case (Some fl)
    then show ?thesis using Cons.prems by (auto simp: dr_call_def)
  qed
qed (auto simp: exI [of _ "st_Calls s"])

definition entry_done :: "'db driver \<Rightarrow> (string \<Rightarrow> string + string) \<Rightarrow> string \<Rightarrow> 'db store \<Rightarrow> 'db store \<Rightarrow> bool" where
  "entry_done d ReadFile version s s' \<longleftrightarrow> recorded s' = recorded s @ [version] \<and>
     run_files (dr_Exec d) ReadFile [version] (st_Data s) = Some (st_Data s')"

lemma migrate_entry_cases:
  assumes "migrate_entry d ReadFile version s = (e, s')"
  shows "(\<exists>n. s' = s\<lparr>st_Calls := n\<rparr>) \<and> (e = None \<longrightarrow> version \<in> set (recorded s)) \<or>
    version \<notin> set (recorded s) \<and> entry_done d ReadFile version s s'"
proof (cases "dr_Fault d (st_Calls s) \<noteq> None \<or> version \<in> set (recorded s)")
  case True
  show ?thesis
  proof (cases "dr_Fault d (st_Calls s)")
    case None
    with True have old: "version \<in> set (recorded s)" by simp
    then have "0 < length (filter (\<lambda>v. v = version) (recorded s))" by (auto simp: filter_empty_conv)
    then have "migrate_entry d ReadFile version s = (None, s\<lparr>st_Calls := Suc (st_Calls s)\<rparr>)"
      using None by (simp add: migrate_entry_def count_version_def dr_call_def)
    then show ?thesis using assms old by auto
  next
    case (Some fl)
    then show ?thesis using assms by (auto simp: migrate_entry_def count_version_def dr_call_def)
  qed
next
  case False
  then have fresh: "version \<notin> set (recorded s)" and count: "count_version d version s = (Inr 0, s\<lparr>st_Calls := Suc (st_Calls s)\<rparr>)"
    by (auto simp: count_version_def dr_call_def filter_empty_conv)
  show ?thesis
  proof (cases "ReadFile (''migrations/'' @ version)")
    case (Inl err)
    then show ?thesis using assms count by (auto simp: migrate_entry_def)
  next
    case (Inr contents)
    let ?s2 = "s\<lparr>st_Calls := Suc (Suc (st_Calls s))\<rparr>"
    obtain r t where x: "exec_statements d (splitStatements contents) (st_Data s) ?s2 = (r, t)" by fastforce
    from exec_statements_frame [OF x] obtain n where t: "t = s\<lparr>st_Calls := n\<rparr>" by auto
    show ?thesis
    proof (cases "dr_Fault d (Suc (st_Calls s))")
      case (Some fl)
      then show ?thesis using assms count Inr by (auto simp: migrate_entry_def dr_call_def)
    next
      case None
      show ?thesis
      proof (cases r)
        case Inl': (Inl err)
        then show ?thesis using assms count Inr None x t by (auto simp: migrate_entry_def dr_call_def tx_Rollback_def)
      next
        case Inr': (Inr data)
        then have run: "run_files (dr_Exec d) ReadFile [version] (st_Data s) = Some data"
          using exec_statements_frame [OF x] Inr by simp
        show ?thesis
          using assms count Inr None x [unfolded Inr'] t run fresh
          by (auto simp: migrate_entry_def dr_call_def insert_version_def tx_Rollback_def entry_done_def recorded_def
              split: option.splits fault.splits)
      qed
    qed
  qed
qed

lemma run_files_Cons:
  "run_files exec ReadFile [v] data = Some data1 \<Longrightarrow> run_files exec ReadFile (v # vs) data = run_files exec ReadFile vs data1"
  by (auto split: sum.splits bind_splits)

lemma migrate_entries_prefix:
  assumes "migrate_entries d ReadFile entries s = (e, s')" "distinct entries"
  shows "\<exists>vs rest. pending entries s = vs @ rest \<and> recorded s' = recorded s @ vs \<and>
    run_files (dr_Exec d) ReadFile vs (st_Data s) = Some (st_Data s') \<and> (e = None \<longrightarrow> rest = [])"
  using assms
proof (induction entries arbitrary: s)
  case (Cons v entries)
  obtain e1 s1 where 1: "migrate_entry d ReadFile v s = (e1, s1)" by fastforce
  have nextstep: "e1 = None \<Longrightarrow> migrate_entries d ReadFile entries s1 = (e, s')" using Cons.prems 1 by simp
  from migrate_entry_cases [OF 1] show ?case
  proof (elim disjE conjE exE)
    fix n assume s1: "s1 = s\<lparr>st_Calls := n\<rparr>" and old: "e1 = None \<longrightarrow> v \<in> set (recorded s)"
    show ?thesis
    proof (cases e1)
      case None
      with old have "pending (v # entries) s = pending entries s1" by (simp add: pending_def s1)
      then show ?thesis using Cons.IH [OF nextstep [OF None]] Cons.prems(2) by (simp add: s1)
    next
      case (Some err)
      then show ?thesis using Cons.prems(1) 1 s1 by auto
    qed
  next
    assume fresh: "v \<notin> set (recorded s)" and d: "entry_done d ReadFile v s s1"
    then have rec1: "recorded s1 = recorded s @ [v]" and run1: "run_files (dr_Exec d) ReadFile [v] (st_Data s) = Some (st_Data s1)"
      by (simp_all add: entry_done_def)
    have pend: "pending (v # entries) s = v # pending entries s1"
      using fresh Cons.prems(2) rec1 by (auto simp: pending_def intro!: filter_cong)
    show ?thesis
    proof (cases e1)
      case None
      from Cons.IH [OF nextstep [OF None]] Cons.prems(2) obtain vs rest where
        "pending entries s1 = vs @ rest" "recorded s' = recorded s1 @ vs"
        "run_files (dr_Exec d) ReadFile vs (st_Data s1) = Some (st_Data s')" "e = None \<longrightarrow> rest = []" by auto
      then show ?thesis using pend rec1 run_files_Cons [OF run1, of vs]
        by (intro exI [of _ "v # vs"] exI [of _ rest]) simp
    next
      case (Some err)
      then have "s' = s1" "e \<noteq> None" using Cons.prems(1) 1 by auto
      then have "pending (v # entries) s = [v] @ pending entries s1 \<and> recorded s' = recorded s @ [v] \<and>
          run_files (dr_Exec d) ReadFile [v] (st_Data s) = Some (st_Data s') \<and> (e = None \<longrightarrow> pending entries s1 = [])"
        using pend rec1 run1 by (auto simp del: run_files.simps)
      then show ?thesis by blast
    qed
  qed
qed (simp add: pending_def)

lemma create_versions_frame:
  "create_versions d s = (e, s') \<Longrightarrow> recorded s' = recorded s \<and> st_Data s' = st_Data s"
  by (auto simp: create_versions_def dr_call_def recorded_def Let_def split: option.splits fault.splits)

lemma pending_frame: "recorded s' = recorded s \<Longrightarrow> pending entries s' = pending entries s"
  by (simp add: pending_def)

lemma distinct_sorted: "distinct entries \<Longrightarrow> distinct (sort_SliceStable lt entries)"
  by (metis mset_eq_imp_distinct_iff mset_sort_SliceStable)

lemma Migrate_prefix:
  assumes "Migrate d (Inr entries) ReadFile s = (e, s')" "distinct entries"
  shows "\<exists>vs rest. pending (sort_SliceStable bytes_less entries) s = vs @ rest \<and> recorded s' = recorded s @ vs \<and>
    run_files (dr_Exec d) ReadFile vs (st_Data s) = Some (st_Data s') \<and> (e = None \<longrightarrow> rest = [])"
proof -
  obtain e1 s1 where c: "create_versions d s = (e1, s1)" by fastforce
  note f = create_versions_frame [OF c]
  show ?thesis
  proof (cases e1)
    case None
    then have "migrate_entries d ReadFile (sort_SliceStable bytes_less entries) s1 = (e, s')"
      using assms(1) c by (simp add: Migrate_def)
    from migrate_entries_prefix [OF this distinct_sorted [OF assms(2)]] f show ?thesis
      by (simp add: pending_frame [of s1 s])
  next
    case (Some err)
    then have "s' = s1" "e \<noteq> None" using assms(1) c by (auto simp: Migrate_def)
    then have "pending (sort_SliceStable bytes_less entries) s = [] @ pending (sort_SliceStable bytes_less entries) s \<and>
        recorded s' = recorded s @ [] \<and> run_files (dr_Exec d) ReadFile [] (st_Data s) = Some (st_Data s') \<and>
        (e = None \<longrightarrow> pending (sort_SliceStable bytes_less entries) s = [])"
      using f by auto
    then show ?thesis by blast
  qed
qed

text \<open>
  C30: Whatever calls the driver loses, a run of the migrations leaves the database as if a first part
  of the pending files, in the order of their names, had been applied completely and recorded, and
  nothing of the others; a run that reports success has applied all of them.
\<close>

theorem migrate_applies_whole_files:
  "Migrate d (Inr entries) ReadFile s = (e, s') \<Longrightarrow> distinct entries \<Longrightarrow>
   \<exists>vs rest. pending (sort_SliceStable bytes_less entries) s = vs @ rest \<and> recorded s' = recorded s @ vs \<and>
     run_files (dr_Exec d) ReadFile vs (st_Data s) = Some (st_Data s') \<and> (e = None \<longrightarrow> rest = [])"
  by (rule Migrate_prefix)

definition sample_driver :: "(nat \<Rightarrow> fault option) \<Rightarrow> string list driver" where
  "sample_driver f = \<lparr>dr_Exec = (\<lambda>st data. Inr (data @ [st])), dr_Fault = f, dr_Now = (\<lambda>_. 0)\<rparr>"

definition sample_migrations :: "string \<Rightarrow> string + string" where
  "sample_migrations path =
     (if path = ''migrations/0001.sql'' then Inr ''CREATE a; -- x; y
        CREATE b;''
      else if path = ''migrations/0002.sql'' then Inr ''CREATE c'' else Inl ''file does not exist'')"

definition empty_store :: "string list store" where
  "empty_store = \<lparr>st_Versions = None, st_Data = [], st_Calls = 0\<rparr>"

definition lossy :: "nat \<Rightarrow> fault option" where
  "lossy n = (if n = 9 then Some (LostReply ''eof'') else None)"

lemma sample_lossy_run:
  "Migrate (sample_driver lossy) (Inr [''0002.sql'', ''0001.sql'']) sample_migrations empty_store =
     (Some (Wrapped ''could not apply migration 0002.sql'' (Plain ''eof'')),
      \<lparr>st_Versions = Some [(''0001.sql'', ''0001-01-01T00:00:00Z'')], st_Data = [''CREATE a'', ''CREATE b''], st_Calls = 11\<rparr>)"
  by code_simp

theorem migrate_applies_whole_files_witness:
  "\<exists>vs rest. [''0001.sql'', ''0002.sql''] = vs @ rest \<and> [''0001.sql''] = vs \<and>
     run_files (dr_Exec (sample_driver lossy)) sample_migrations vs [] = Some [''CREATE a'', ''CREATE b'']"
proof -
  have "pending (sort_SliceStable bytes_less [''0002.sql'', ''0001.sql'']) empty_store = [''0001.sql'', ''0002.sql'']" by code_simp
  with migrate_applies_whole_files [OF sample_lossy_run] show ?thesis
    by (auto simp: recorded_def empty_store_def)
qed

section \<open>Runs without failures\<close>

lemma exec_statements_clean:
  "dr_Fault d = (\<lambda>_. None) \<Longrightarrow> run_statements (dr_Exec d) sts data = Some data' \<Longrightarrow>
   \<exists>n. exec_statements d sts data s = (Inr data', s\<lparr>st_Calls := n\<rparr>)"
proof (induction sts arbitrary: data s)
  case (Cons st sts)
  from Cons.prems obtain data1 where "dr_Exec d st data = Inr data1" "run_statements (dr_Exec d) sts data1 = Some data'"
    by (auto split: sum.splits)
  with Cons.IH [OF Cons.prems(1) this(2), of "s\<lparr>st_Calls := Suc (st_Calls s)\<rparr>"] Cons.prems(1) show ?case
    by (simp add: dr_call_def)
qed (auto simp: exI [of _ "st_Calls s"])

lemma migrate_entry_clean:
  assumes "dr_Fault d = (\<lambda>_. None)" "version \<notin> set (recorded s) \<Longrightarrow> run_files (dr_Exec d) ReadFile [version] (st_Data s) \<noteq> None"
  shows "fst (migrate_entry d ReadFile version s) = None"
proof (cases "version \<in> set (recorded s)")
  case True
  then have "0 < length (filter (\<lambda>v. v = version) (recorded s))" by (auto simp: filter_empty_conv)
  then show ?thesis using assms(1) by (simp add: migrate_entry_def count_version_def dr_call_def)
next
  case False
  then obtain contents data where c: "ReadFile (''migrations/'' @ version) = Inr contents"
    "run_statements (dr_Exec d) (splitStatements contents) (st_Data s) = Some data"
    using assms(2) by (auto split: sum.splits bind_splits)
  from exec_statements_clean [OF assms(1) c(2), of "s\<lparr>st_Calls := Suc (Suc (st_Calls s))\<rparr>"] obtain n where
    "exec_statements d (splitStatements contents) (st_Data s) (s\<lparr>st_Calls := Suc (Suc (st_Calls s))\<rparr>) = (Inr data, s\<lparr>st_Calls := n\<rparr>)"
    by auto
  then show ?thesis using assms(1) c(1) False
    by (simp add: migrate_entry_def count_version_def dr_call_def insert_version_def filter_empty_conv)
qed

lemma migrate_entries_clean:
  "dr_Fault d = (\<lambda>_. None) \<Longrightarrow> distinct entries \<Longrightarrow> run_files (dr_Exec d) ReadFile (pending entries s) (st_Data s) \<noteq> None \<Longrightarrow>
   fst (migrate_entries d ReadFile entries s) = None"
proof (induction entries arbitrary: s)
  case (Cons v entries)
  obtain e1 s1 where 1: "migrate_entry d ReadFile v s = (e1, s1)" by fastforce
  have "v \<notin> set (recorded s) \<Longrightarrow> run_files (dr_Exec d) ReadFile [v] (st_Data s) \<noteq> None"
    using Cons.prems(3) by (auto simp: pending_def split: sum.splits bind_splits)
  from migrate_entry_clean [OF Cons.prems(1) this] 1 have e1: "e1 = None" by simp
  have "run_files (dr_Exec d) ReadFile (pending entries s1) (st_Data s1) \<noteq> None"
    using migrate_entry_cases [OF 1]
  proof (elim disjE conjE exE)
    fix n assume "s1 = s\<lparr>st_Calls := n\<rparr>" "e1 = None \<longrightarrow> v \<in> set (recorded s)"
    then show ?thesis using Cons.prems(3) e1 by (simp add: pending_def)
  next
    assume fresh: "v \<notin> set (recorded s)" and d: "entry_done d ReadFile v s s1"
    then have "pending (v # entries) s = v # pending entries s1"
      using Cons.prems(2) by (auto simp: entry_done_def pending_def intro!: filter_cong)
    then show ?thesis using Cons.prems(3) d run_files_Cons [of "dr_Exec d" ReadFile v "st_Data s" "st_Data s1" "pending entries s1"]
      by (simp add: entry_done_def del: run_files.simps)
  qed
  then have "fst (migrate_entries d ReadFile entries s1) = None" using Cons.IH Cons.prems by simp
  then show ?case by (simp add: 1 e1)
qed simp

text \<open>The database after several runs, each with its own driver.\<close>

definition migrate_runs ::
    "'db driver list \<Rightarrow> string list \<Rightarrow> (string \<Rightarrow> string + string) \<Rightarrow> 'db store \<Rightarrow> 'db store" where
  "migrate_runs ds entries ReadFile s = fold (\<lambda>d s. snd (Migrate d (Inr entries) ReadFile s)) ds s"

lemma migrate_runs_prefix:
  assumes "\<forall>d \<in> set ds. dr_Exec d = exec" "distinct entries"
  shows "\<exists>vs rest. pending (sort_SliceStable bytes_less entries) s = vs @ rest \<and> recorded (migrate_runs ds entries ReadFile s) = recorded s @ vs \<and>
    pending (sort_SliceStable bytes_less entries) (migrate_runs ds entries ReadFile s) = rest \<and>
    run_files exec ReadFile vs (st_Data s) = Some (st_Data (migrate_runs ds entries ReadFile s))"
  using assms(1)
proof (induction ds rule: rev_induct)
  case Nil
  then show ?case by (simp add: migrate_runs_def)
next
  case (snoc d ds)
  let ?es = "sort_SliceStable bytes_less entries" and ?t = "migrate_runs ds entries ReadFile s"
  from snoc obtain vs rest where IH: "pending ?es s = vs @ rest" "recorded ?t = recorded s @ vs" "pending ?es ?t = rest"
    "run_files exec ReadFile vs (st_Data s) = Some (st_Data ?t)" by auto
  obtain e s' where m: "Migrate d (Inr entries) ReadFile ?t = (e, s')" by fastforce
  then have s': "migrate_runs (ds @ [d]) entries ReadFile s = s'" by (simp add: migrate_runs_def)
  from Migrate_prefix [OF m assms(2)] snoc.prems obtain us rest' where
    step: "pending ?es ?t = us @ rest'" "recorded s' = recorded ?t @ us" "run_files exec ReadFile us (st_Data ?t) = Some (st_Data s')"
    by auto
  have d: "distinct (us @ rest')" unfolding step(1) [symmetric] using distinct_sorted [OF assms(2), of bytes_less] by (simp add: pending_def)
  have "pending ?es s' = filter (\<lambda>v. v \<notin> set us) (pending ?es ?t)"
    using step(2) by (simp add: pending_def conj_commute)
  also have "\<dots> = rest'" unfolding step(1) using d by (auto simp: filter_empty_conv filter_id_conv)
  finally have "pending ?es s' = rest'" .
  then show ?case unfolding s' using IH step
    by (intro exI [of _ "vs @ us"] exI [of _ rest']) (simp add: run_files_append)
qed

text \<open>
  C31: Migrating at every start is safe. After any number of runs that failed at any point, a run
  without failures succeeds, and the database is the one a single clean run would have left: every
  pending file applied exactly once, in the order of the names.
\<close>

theorem migrate_converges:
  assumes "\<forall>d' \<in> set ds. dr_Exec d' = dr_Exec d" "distinct entries" "dr_Fault d = (\<lambda>_. None)"
    and "run_files (dr_Exec d) ReadFile (pending (sort_SliceStable bytes_less entries) s) (st_Data s) = Some data"
  shows "\<exists>s'. Migrate d (Inr entries) ReadFile (migrate_runs ds entries ReadFile s) = (None, s') \<and>
    st_Data s' = data \<and> recorded s' = recorded s @ pending (sort_SliceStable bytes_less entries) s"
proof -
  let ?es = "sort_SliceStable bytes_less entries" and ?t = "migrate_runs ds entries ReadFile s"
  obtain vs rest where t: "pending ?es s = vs @ rest" "recorded ?t = recorded s @ vs" "pending ?es ?t = rest"
    "run_files (dr_Exec d) ReadFile vs (st_Data s) = Some (st_Data ?t)"
    using migrate_runs_prefix [OF assms(1,2), of s ReadFile] by blast
  have rest: "run_files (dr_Exec d) ReadFile rest (st_Data ?t) = Some data"
    using assms(4) t by (simp add: run_files_append)
  obtain s1 where c: "create_versions d ?t = (None, s1)" using assms(3) by (simp add: create_versions_def dr_call_def Let_def)
  note f = create_versions_frame [OF c]
  have "fst (migrate_entries d ReadFile ?es s1) = None"
    by (rule migrate_entries_clean [OF assms(3) distinct_sorted [OF assms(2)]])
      (use f rest t(3) in \<open>simp add: pending_frame [of s1 ?t]\<close>)
  then obtain s' where m: "Migrate d (Inr entries) ReadFile ?t = (None, s')"
    using c by (cases "migrate_entries d ReadFile ?es s1") (auto simp: Migrate_def)
  from Migrate_prefix [OF m assms(2)] t(1-3) rest show ?thesis using m by auto
qed

theorem migrate_converges_witness:
  "\<exists>s'. Migrate (sample_driver (\<lambda>_. None)) (Inr [''0002.sql'', ''0001.sql'']) sample_migrations
      (migrate_runs [sample_driver lossy, sample_driver lossy] [''0002.sql'', ''0001.sql''] sample_migrations empty_store) = (None, s') \<and>
     st_Data s' = [''CREATE a'', ''CREATE b'', ''CREATE c'']"
proof -
  have "run_files (dr_Exec (sample_driver (\<lambda>_. None))) sample_migrations
      (pending (sort_SliceStable bytes_less [''0002.sql'', ''0001.sql'']) empty_store) (st_Data empty_store) =
      Some [''CREATE a'', ''CREATE b'', ''CREATE c'']"
    by code_simp
  from migrate_converges [OF _ _ _ this, of "[sample_driver lossy, sample_driver lossy]"] show ?thesis
    by (auto simp: sample_driver_def)
qed

end
