(* ===== verification/Startup.thy ===== *)
theory Startup
  imports Middleware Bootstrap
begin

text \<open>
  The start of the server (\<open>cmd/app\<close>): the configuration and its check outside the local environment,
  the dependencies, and the handler the router is built with. The configuration library, the driver,
  the key parsers and the Redis client are parameters; a fatal log entry is an error that ends the
  start.
\<close>

section \<open>Configuration\<close>

record Config =
  cf_Environment :: string
  cf_PostgresDSN :: string
  cf_RedisURI :: string

record SecureConfig =
  sc_JWTPrivateKeyPEM :: string

text \<open>
  \<open>vp_Get defaults k\<close> is the value of a key once the environment and the configuration file were read
  and \<open>defaults\<close> were set; \<open>vp_Unmarshal\<close> is the error of filling one of the two records, if any.
\<close>

record viper =
  vp_Get :: "(string \<rightharpoonup> string) \<Rightarrow> string \<Rightarrow> string"
  vp_Unmarshal :: "(string \<rightharpoonup> string) \<Rightarrow> bool \<Rightarrow> string option"

definition start_defaults :: "string \<rightharpoonup> string" where
  "start_defaults = [''Environment'' \<mapsto> envLocal]"

definition GetConfig :: "viper \<Rightarrow> string \<Rightarrow> string + Config \<times> SecureConfig" where
  "GetConfig vp bakedKey =
     (let env = vp_Get vp start_defaults ''Environment'';
          defaults = (if env = envLocal then start_defaults(''RedisURI'' \<mapsto> ''localhost:6379'',
              ''PostgresDSN'' \<mapsto> defaultPostgresDSN, ''JWTPrivateKeyPEM'' \<mapsto> bakedKey) else start_defaults);
          conf = \<lparr>cf_Environment = vp_Get vp defaults ''Environment'', cf_PostgresDSN = vp_Get vp defaults ''PostgresDSN'',
              cf_RedisURI = vp_Get vp defaults ''RedisURI''\<rparr>;
          secureConf = \<lparr>sc_JWTPrivateKeyPEM = vp_Get vp defaults ''JWTPrivateKeyPEM''\<rparr>
      in if vp_Unmarshal vp defaults False \<noteq> None then Inl ''could not unmarshal configuration''
         else if vp_Unmarshal vp defaults True \<noteq> None then Inl ''could not unmarshal secure configuration''
         else if env \<noteq> envLocal \<and> sc_JWTPrivateKeyPEM secureConf = [] then
           Inl ''JWT_PRIVATE_KEY_PEM is required outside the local environment''
         else if env \<noteq> envLocal \<and> cf_PostgresDSN conf = [] then Inl ''POSTGRES_DSN is required outside the local environment''
         else if env \<noteq> envLocal \<and> cf_RedisURI conf = [] then Inl ''REDIS_URI is required outside the local environment''
         else Inr (conf, secureConf))"

section \<open>Dependencies\<close>

record 'k platform =
  pf_Open :: "string \<Rightarrow> string option"
  pf_Migrate :: "unit op"
  redis_Ping :: "string \<Rightarrow> string option"
  pem_Decode :: "string \<Rightarrow> string option"
  x509_ParsePKCS8 :: "string \<Rightarrow> string + 'k"
  is_RSA :: "'k \<Rightarrow> bool"
  jose_NewSigner :: "'k \<Rightarrow> string option"

definition parseRSAPrivateKey :: "'k platform \<Rightarrow> string \<Rightarrow> go_error + 'k" where
  "parseRSAPrivateKey pf privateKeyPEM =
     (case pem_Decode pf privateKeyPEM of
        None \<Rightarrow> Inl (Plain ''could not decode PEM block'')
      | Some block \<Rightarrow>
        (case x509_ParsePKCS8 pf block of
           Inl err \<Rightarrow> Inl (Wrapped ''could not parse PKCS#8 private key'' (Plain err))
         | Inr key \<Rightarrow> if \<not> is_RSA pf key then Inl (Plain ''private key is not an RSA key'') else Inr key))"

text \<open>The rate limiter of the dependencies: an error, none, or one that uses the Redis server.\<close>

definition connect_limiter :: "'k platform \<Rightarrow> Config \<Rightarrow> go_error + string option" where
  "connect_limiter pf config =
     (if cf_RedisURI config \<noteq> [] then
        (case redis_Ping pf (cf_RedisURI config) of
           Some err \<Rightarrow>
             if cf_Environment config \<noteq> envLocal then Inl (Wrapped ''could not connect to redis'' (Plain err))
             else Inr None
         | None \<Rightarrow> Inr (Some (cf_RedisURI config)))
      else Inr None)"

record 'k Dependencies =
  dp_RateLimiter :: "string option"
  dp_Signer :: 'k

definition NewDependencies :: "'k platform \<Rightarrow> Config \<Rightarrow> SecureConfig \<Rightarrow> 'k Dependencies op" where
  "NewDependencies pf config secureConfig w =
     (case NewClient (pf_Open pf) (cf_PostgresDSN config) w of
        (Inl err, w) \<Rightarrow> (Inl (Wrapped ''could not create postgres client'' err), w)
      | (Inr _, w) \<Rightarrow>
        (case pf_Migrate pf w of
           (Inl err, w) \<Rightarrow> (Inl (Wrapped ''could not migrate database'' err), w)
         | (Inr _, w) \<Rightarrow>
           (case connect_limiter pf config of
              Inl err \<Rightarrow> (Inl err, w)
            | Inr rateLimiter \<Rightarrow>
              (case parseRSAPrivateKey pf (sc_JWTPrivateKeyPEM secureConfig) of
                 Inl err \<Rightarrow> (Inl (Wrapped ''could not parse JWT private key'' err), w)
               | Inr jwtPrivateKey \<Rightarrow>
                 (case jose_NewSigner pf jwtPrivateKey of
                    Some err \<Rightarrow> (Inl (Wrapped ''could not create token signer'' (Plain err)), w)
                  | None \<Rightarrow> (Inr \<lparr>dp_RateLimiter = rateLimiter, dp_Signer = jwtPrivateKey\<rparr>, w))))))"

text \<open>The handler that \<open>setupRPCServer\<close> installs, and the start as \<open>main\<close> does it.\<close>

definition setupRPCServer ::
    "('s, 'l) library \<Rightarrow> 'k Dependencies \<Rightarrow> http_request \<Rightarrow> 'l server \<Rightarrow> http_response \<times> 'l server" where
  "setupRPCServer lib deps = api lib (dp_RateLimiter deps \<noteq> None)"

definition start_server :: "viper \<Rightarrow> string \<Rightarrow> 'k platform \<Rightarrow> 'k Dependencies op" where
  "start_server vp bakedKey pf w =
     (case GetConfig vp bakedKey of
        Inl fatal \<Rightarrow> (Inl (Plain fatal), w)
      | Inr (config, secureConfig) \<Rightarrow> NewDependencies pf config secureConfig w)"

section \<open>Fail closed\<close>

lemma GetConfig_deployed:
  assumes "GetConfig vp bakedKey = Inr (config, secureConfig)" "vp_Get vp start_defaults ''Environment'' \<noteq> envLocal"
  shows "cf_Environment config = vp_Get vp start_defaults ''Environment''"
    "cf_PostgresDSN config = vp_Get vp start_defaults ''PostgresDSN''" "cf_PostgresDSN config \<noteq> []"
    "cf_RedisURI config = vp_Get vp start_defaults ''RedisURI''" "cf_RedisURI config \<noteq> []"
    "sc_JWTPrivateKeyPEM secureConfig = vp_Get vp start_defaults ''JWTPrivateKeyPEM''" "sc_JWTPrivateKeyPEM secureConfig \<noteq> []"
  using assms by (auto simp: GetConfig_def Let_def split: if_splits)

lemma NewDependencies_Inr:
  "NewDependencies pf config secureConfig w = (Inr deps, w') \<Longrightarrow>
   connect_limiter pf config = Inr (dp_RateLimiter deps) \<and> parseRSAPrivateKey pf (sc_JWTPrivateKeyPEM secureConfig) = Inr (dp_Signer deps)"
  by (auto simp: NewDependencies_def split: prod.splits sum.splits option.splits)

text \<open>
  C32: A deployment starts closed or not at all. Whenever the server starts outside the local
  environment, its signing key, its DSN and its Redis address come from the deployment and not from the
  defaults in the source, the key parses, Redis has answered, and every request is served behind both
  rate limiters.
\<close>

theorem start_fails_closed:
  assumes "start_server vp bakedKey pf w = (Inr deps, w')" "vp_Get vp start_defaults ''Environment'' \<noteq> ''local''"
  shows "vp_Get vp start_defaults ''PostgresDSN'' \<noteq> [] \<and> vp_Get vp start_defaults ''RedisURI'' \<noteq> [] \<and>
    redis_Ping pf (vp_Get vp start_defaults ''RedisURI'') = None \<and>
    parseRSAPrivateKey pf (vp_Get vp start_defaults ''JWTPrivateKeyPEM'') = Inr (dp_Signer deps) \<and>
    vp_Get vp start_defaults ''JWTPrivateKeyPEM'' \<noteq> [] \<and> setupRPCServer lib deps = api lib True"
proof -
  have env: "vp_Get vp start_defaults ''Environment'' \<noteq> envLocal" using assms(2) by (simp add: envLocal_def)
  obtain config secureConfig where c: "GetConfig vp bakedKey = Inr (config, secureConfig)"
    "NewDependencies pf config secureConfig w = (Inr deps, w')"
    using assms(1) by (auto simp: start_server_def split: sum.splits)
  note conf = GetConfig_deployed [OF c(1) env] and deps = NewDependencies_Inr [OF c(2)]
  have "redis_Ping pf (cf_RedisURI config) = None \<and> dp_RateLimiter deps = Some (cf_RedisURI config)"
    using deps conf(1,5) env by (auto simp: connect_limiter_def split: option.splits)
  then show ?thesis using conf deps by (simp add: setupRPCServer_def)
qed

definition sample_viper :: viper where
  "sample_viper = \<lparr>vp_Get = (\<lambda>defaults k. if k = ''Environment'' then ''production'' else if k = ''RedisURI'' then ''redis:6379''
       else if k = ''PostgresDSN'' then ''postgres://db'' else ''key''), vp_Unmarshal = (\<lambda>_ _. None)\<rparr>"

definition sample_platform :: "string platform" where
  "sample_platform = \<lparr>pf_Open = (\<lambda>_. None), pf_Migrate = (\<lambda>w. (Inr (), w)), redis_Ping = (\<lambda>_. None), pem_Decode = Some,
     x509_ParsePKCS8 = Inr, is_RSA = (\<lambda>_. True), jose_NewSigner = (\<lambda>_. None)\<rparr>"

theorem start_fails_closed_witness:
  "\<exists>deps w'. start_server sample_viper ''baked'' sample_platform sample_world = (Inr deps, w') \<and> dp_Signer deps = ''key''"
proof -
  let ?run = "start_server sample_viper ''baked'' sample_platform sample_world"
  have "fst ?run = Inr \<lparr>dp_RateLimiter = Some ''redis:6379'', dp_Signer = ''key''\<rparr>" by code_simp
  then obtain deps w' where run: "?run = (Inr deps, w')" by (cases ?run) auto
  have "vp_Get sample_viper start_defaults ''Environment'' \<noteq> ''local''" by (simp add: sample_viper_def)
  then have "parseRSAPrivateKey sample_platform (vp_Get sample_viper start_defaults ''JWTPrivateKeyPEM'') = Inr (dp_Signer deps)"
    using start_fails_closed [OF run] by blast
  then show ?thesis using run by (auto simp: parseRSAPrivateKey_def sample_platform_def sample_viper_def)
qed

end
