(* ===== verification/Paging.thy ===== *)
theory Paging
  imports TransactionRepository Sample
begin

text \<open>
  What the page tokens of the transaction listing add up to. \<open>walk_pages\<close> is the loop a caller of
  \<open>TransactionRepository_List\<close> runs: it asks for a page, sends the token of the answer with the next
  request and stops at the empty token. The ledger order is a \<open>stable_order\<close> under every collation
  and separates rows with different refs, so seeking past a row of the sorted listing leaves exactly
  the rows after it; the pages then partition the listing.
\<close>

section \<open>The order of the listing\<close>

lemma transaction_order: "collation le \<Longrightarrow> stable_order (transaction_before le)"
  unfolding stable_order_def transaction_before_def using text_lt_facts [of le] by metis

interpretation ledger_order: stable_order "transaction_before byte_le"
  by (rule transaction_order [OF collation_byte_le])

lemma transaction_before_total:
  "collation le \<Longrightarrow> t_ref x \<noteq> t_ref y \<Longrightarrow> transaction_before le x y \<or> transaction_before le y x"
  unfolding transaction_before_def using text_lt_facts(4) [of le] by metis

lemma past_cursor_row:
  "past_cursor le (Some (t_recorded_at c, t_ref c)) x = transaction_before le c x"
  by (auto simp: past_cursor_def transaction_before_def)

context stable_order
begin

lemma sort_filter: "sort_SliceStable lt (filter Q xs) = filter Q (sort_SliceStable lt xs)"
proof (rule sort_determined [symmetric])
  show "sorted_wrt (\<lambda>a b. \<not> lt b a) (filter Q (sort_SliceStable lt xs))"
    by (rule sorted_wrt_filter) (rule sorted_sort)
  have comm: "filter (tied z) (filter Q ys) = filter Q (filter (tied z) ys)" for z ys
    by (simp add: conj_commute)
  show "filter (tied z) (filter Q (sort_SliceStable lt xs)) = filter (tied z) (filter Q xs)" for z
    by (simp only: comm sort_stable)
qed

lemma strictly_sorted:
  assumes "distinct ys" "\<And>a b. a \<in> set ys \<Longrightarrow> b \<in> set ys \<Longrightarrow> a \<noteq> b \<Longrightarrow> lt a b \<or> lt b a"
    and "sorted_wrt (\<lambda>a b. \<not> lt b a) ys"
  shows "sorted_wrt lt ys"
  using assms
proof (induction ys)
  case (Cons y ys)
  have "lt y z" if "z \<in> set ys" for z
    using that Cons.prems(1) Cons.prems(2) [of y z] Cons.prems(3) by auto
  moreover have "sorted_wrt lt ys"
    using Cons.prems by (intro Cons.IH) auto
  ultimately show ?case by simp
qed simp

lemma seek_past:
  assumes "sorted_wrt lt ys" "i < length ys"
  shows "filter (lt (ys ! i)) ys = drop (Suc i) ys"
proof -
  have split: "ys = take i ys @ ys ! i # drop (Suc i) ys" using assms(2) by (rule id_take_nth_drop)
  have sw: "sorted_wrt lt (take i ys @ ys ! i # drop (Suc i) ys)"
    using assms(1) split by metis
  then have "\<forall>x \<in> set (take i ys). \<not> lt (ys ! i) x" "\<forall>x \<in> set (drop (Suc i) ys). lt (ys ! i) x"
    using asym by (auto simp: sorted_wrt_append)
  then have "filter (lt (ys ! i)) (take i ys @ ys ! i # drop (Suc i) ys) = drop (Suc i) ys"
    using irrefl by simp
  then show ?thesis using split by metis
qed

end

text \<open>The listing of a scope, in full, and the part of it past the row before position \<open>k\<close>.\<close>

definition listing :: "(string \<Rightarrow> string \<Rightarrow> bool) \<Rightarrow> string option \<Rightarrow> tables \<Rightarrow> transaction_row list" where
  "listing le sc T = sort_SliceStable (transaction_before le)
     (filter (\<lambda>x. in_scope sc (t_owner_id x)) (transactions T))"

definition position :: "transaction_row list \<Rightarrow> nat \<Rightarrow> (string \<times> string) option" where
  "position rows k = (if k = 0 then None else Some (t_recorded_at (rows ! (k - 1)), t_ref (rows ! (k - 1))))"

lemma set_listing: "set (listing le sc T) = {x \<in> set (transactions T). in_scope sc (t_owner_id x)}"
  by (simp add: listing_def)

lemma listing_sorted:
  assumes "collation le" "distinct (map t_ref (transactions T))"
  shows "sorted_wrt (transaction_before le) (listing le sc T)"
proof -
  have inj: "inj_on t_ref (set (transactions T))" and d: "distinct (transactions T)"
    using assms(2) by (simp_all add: distinct_map)
  have "mset (listing le sc T) = mset (filter (\<lambda>x. in_scope sc (t_owner_id x)) (transactions T))"
    by (simp add: listing_def)
  then have "distinct (listing le sc T)" using d mset_eq_imp_distinct_iff distinct_filter by metis
  moreover have "transaction_before le a b \<or> transaction_before le b a"
    if "a \<in> set (listing le sc T)" "b \<in> set (listing le sc T)" "a \<noteq> b" for a b
    using that inj by (intro transaction_before_total [OF assms(1)]) (auto simp: set_listing inj_on_def)
  ultimately show ?thesis
    by (rule stable_order.strictly_sorted [OF transaction_order [OF assms(1)]])
      (simp_all add: listing_def stable_order.sorted_sort [OF transaction_order [OF assms(1)]])
qed

lemma select_transactions_page:
  assumes "collation le" "distinct (map t_ref (transactions T))" "k \<le> length (listing le sc T)"
  shows "select_transactions le sc (position (listing le sc T) k) n T =
    Inr (take n (drop k (listing le sc T)), T)"
proof -
  let ?L = "listing le sc T"
  have "sort_SliceStable (transaction_before le)
      (filter (\<lambda>x. in_scope sc (t_owner_id x) \<and> past_cursor le cur x) (transactions T)) =
    filter (past_cursor le cur) ?L" for cur
    unfolding listing_def stable_order.sort_filter [OF transaction_order [OF assms(1)], symmetric]
    by (simp add: conj_commute)
  moreover have "filter (past_cursor le (position ?L k)) ?L = drop k ?L"
  proof (cases k)
    case 0
    then show ?thesis by (simp add: position_def past_cursor_def)
  next
    case (Suc i)
    then have "past_cursor le (position ?L k) = transaction_before le (?L ! i)"
      by (auto simp: position_def past_cursor_row)
    then show ?thesis
      using Suc assms(3) stable_order.seek_past [OF transaction_order [OF assms(1)] listing_sorted [OF assms(1,2)]]
      by simp
  qed
  ultimately show ?thesis by (simp add: select_transactions_def)
qed

section \<open>One page\<close>

text \<open>Rows as the repository writes them: a ref that text columns hold and readable timestamps.\<close>

definition readable_row :: "transaction_row \<Rightarrow> bool" where
  "readable_row r \<longleftrightarrow> t_ref r \<noteq> [] \<and> clean (t_ref r) \<and>
     (\<exists>t. four_digit_year t \<and> t_occurred_at r = FormatTime t) \<and>
     (\<exists>t. four_digit_year t \<and> t_recorded_at r = FormatTime t)"

definition read_row :: "transaction_row \<Rightarrow> Transaction" where
  "read_row r = projr (transaction_of_row r)"

definition page_token :: "(string \<times> string) option \<Rightarrow> string" where
  "page_token pos = (case pos of None \<Rightarrow> [] | Some (recordedAt, ref) \<Rightarrow> encodeTransactionCursor recordedAt ref)"

lemma readable_row_read:
  assumes "readable_row r"
  shows "transaction_of_row r = Inr (read_row r)" "tr_Ref (read_row r) = t_ref r"
    "FormatTime (tr_RecordedAt (read_row r)) = t_recorded_at r"
  using assms by (auto simp: readable_row_def read_row_def transaction_of_row_def parse_format)

lemma scan_readable: "list_all readable_row rows \<Longrightarrow> scanTransactions rows = Inr (map read_row rows)"
  by (induction rows) (simp_all add: scanTransaction_def readable_row_read)

lemma encode_nonempty: "s \<noteq> [] \<Longrightarrow> base64_EncodeToString s \<noteq> []"
  by (cases s rule: base64_EncodeToString.cases) auto

lemma page_token_nonempty: "page_token (Some pos) \<noteq> []"
  by (simp add: page_token_def encodeTransactionCursor_def encode_nonempty split: prod.split)

lemma page_token_decodes:
  "readable_row r \<Longrightarrow> decodeTransactionCursor (page_token (Some (t_recorded_at r, t_ref r))) =
     Inr (t_recorded_at r, t_ref r)"
  unfolding readable_row_def page_token_def using decode_encode_cursor by auto

lemma fetch_rows_runs:
  "fault_free w \<Longrightarrow> usable ctx w \<Longrightarrow>
   \<exists>w'. fetch_rows ctx rows w = ((rows, None), w') \<and> moved ctx w w' \<and> view ctx w' = view ctx w"
  by (auto simp: fetch_rows_def driver_call_def fault_free_def moved_def)

lemma clampPageSize_range: "0 < clampPageSize n" "clampPageSize n \<le> maxPageSize"
  by (auto simp: clampPageSize_def defaultPageSize_def maxPageSize_def)

lemma List_page:
  assumes env: "fault_free w" "usable ctx w" "collation (env_text_le (w_env w))"
    and req: "uid \<noteq> []" "clean uid" "0 \<le> sint psize"
    and rows: "distinct (map t_ref (transactions (view ctx w)))" "list_all readable_row (transactions (view ctx w))"
    and L: "L = listing (env_text_le (w_env w)) (scope_arg ctx PermTransactionReadAll uid) (view ctx w)"
    and k: "k = 0 \<or> k < length L"
  shows "\<exists>w'. TransactionRepository_List ctx \<lparr>ltr_UserID = uid, ltr_PageSize = psize, ltr_Cursor = page_token (position L k)\<rparr> w =
      (Inr \<lparr>ltp_Transactions = map read_row (take (clampPageSize psize) (drop k L)),
         ltp_NextCursor = (if length L > k + clampPageSize psize
           then page_token (position L (k + clampPageSize psize)) else [])\<rparr>, w') \<and>
    moved ctx w w' \<and> view ctx w' = view ctx w"
proof -
  let ?sc = "scope_arg ctx PermTransactionReadAll uid" and ?n = "clampPageSize psize" and ?le = "env_text_le (w_env w)"
  let ?pos = "position L k"
  have all: "list_all readable_row L" using rows(2) by (auto simp: L set_listing list_all_iff)
  define page where "page = take (?n + 1) (drop k L)"
  have cur: "(if page_token ?pos \<noteq> [] then map_sum (\<lambda>e. e) Some (decodeTransactionCursor (page_token ?pos)) else Inr None) =
      Inr ?pos \<and> list_all clean (scope_args ?sc @ (case ?pos of None \<Rightarrow> [] | Some (ts, ref) \<Rightarrow> [ts, ref]))"
  proof (cases "k = 0")
    case True
    then show ?thesis using req by (simp add: position_def page_token_def scope_args_def scope_arg_def)
  next
    case False
    with k have "readable_row (L ! (k - 1))" using all by (simp add: list_all_length)
    then show ?thesis using False req page_token_decodes [of "L ! (k - 1)"] page_token_nonempty
      by (auto simp: position_def scope_args_def scope_arg_def readable_row_def)
  qed
  have "select_transactions ?le ?sc ?pos (?n + 1) (view ctx w) = Inr (page, view ctx w)"
    unfolding page_def L by (rule select_transactions_page) (use env(3) rows(1) k in \<open>auto simp: L\<close>)
  from sql_exec_runs [where st = "select_transactions ?le ?sc ?pos (?n + 1)", OF env(1,2) conjunct2 [OF cur] this]
  obtain w1 where w1: "sql_exec ctx (scope_args ?sc @ (case ?pos of None \<Rightarrow> [] | Some (ts, ref) \<Rightarrow> [ts, ref]))
      (select_transactions ?le ?sc ?pos (?n + 1)) w = (Inr page, w1)" "moved ctx w w1" "view ctx w1 = view ctx w" by blast
  have "fault_free w1" "usable ctx w1" using w1(2) env(1) moved_fault_free moved_usable(1) by blast+
  from fetch_rows_runs [OF this] obtain w2 where w2: "fetch_rows ctx page w1 = ((page, None), w2)"
    "moved ctx w1 w2" "view ctx w2 = view ctx w1" by blast
  have "list_all readable_row page" using all unfolding page_def list_all_iff by (meson in_set_dropD in_set_takeD)
  then have scan: "scanTransactions page = Inr (map read_row page)" by (rule scan_readable)
  have len: "length page > ?n \<longleftrightarrow> length L > k + ?n" by (auto simp: page_def)
  have tok: "encodeTransactionCursor (FormatTime (tr_RecordedAt (last (map read_row (take ?n page)))))
      (tr_Ref (last (map read_row (take ?n page)))) = page_token (position L (k + ?n))" if more: "length L > k + ?n"
  proof -
    have "take ?n page \<noteq> []" using more clampPageSize_range(1) [of psize] by (auto simp: page_def)
    moreover have "last (take ?n page) = L ! (k + ?n - 1)"
      using more clampPageSize_range(1) [of psize]
      by (simp add: page_def last_conv_nth)
    moreover have "readable_row (L ! (k + ?n - 1))"
      using all more clampPageSize_range(1) [of psize] by (simp add: list_all_length)
    ultimately show ?thesis
      using clampPageSize_range(1) [of psize]
      by (simp add: last_map readable_row_read position_def page_token_def)
  qed
  have val: "ListTransactionsRequest_Validate \<lparr>ltr_UserID = uid, ltr_PageSize = psize, ltr_Cursor = page_token ?pos\<rparr> = None"
    using req by (simp add: valid_simps)
  have mv: "moved ctx w w2" "view ctx w2 = view ctx w" using w1 w2 moved_trans by auto
  have body: "TransactionRepository_List ctx \<lparr>ltr_UserID = uid, ltr_PageSize = psize, ltr_Cursor = page_token ?pos\<rparr> w =
      (if length page > ?n then
         (Inr \<lparr>ltp_Transactions = map read_row (take ?n page), ltp_NextCursor =
            encodeTransactionCursor (FormatTime (tr_RecordedAt (last (map read_row (take ?n page)))))
              (tr_Ref (last (map read_row (take ?n page))))\<rparr>, w2)
       else (Inr \<lparr>ltp_Transactions = map read_row page, ltp_NextCursor = []\<rparr>, w2))"
    using val conjunct1 [OF cur] w1(1) w2(1) scan
    by (cases "page_token ?pos = []") (simp_all add: TransactionRepository_List_def Let_def take_map)
  show ?thesis
  proof (cases "length L > k + ?n")
    case True
    then show ?thesis using body len tok [OF True] mv by (auto simp: page_def min_def)
  next
    case False
    then show ?thesis using body len mv by (auto simp: page_def)
  qed
qed

section \<open>Walking the pages\<close>

text \<open>
  The caller's loop, with at most \<open>n\<close> requests: the pages, or the first error, or None when the
  requests are used up before an empty token comes back.
\<close>

primrec walk_pages :: "nat \<Rightarrow> go_context \<Rightarrow> string \<Rightarrow> int64 \<Rightarrow> string \<Rightarrow> world \<Rightarrow>
    ((go_error + Transaction list list) \<times> world) option" where
  "walk_pages 0 ctx uid psize token w = None"
| "walk_pages (Suc n) ctx uid psize token w =
     (case TransactionRepository_List ctx \<lparr>ltr_UserID = uid, ltr_PageSize = psize, ltr_Cursor = token\<rparr> w of
        (Inl err, w) \<Rightarrow> Some (Inl err, w)
      | (Inr page, w) \<Rightarrow>
          if ltp_NextCursor page = [] then Some (Inr [ltp_Transactions page], w)
          else map_option (\<lambda>(r, w). (map_sum (\<lambda>e. e) (\<lambda>ps. ltp_Transactions page # ps) r, w))
            (walk_pages n ctx uid psize (ltp_NextCursor page) w))"

definition page_run :: "nat \<Rightarrow> 'a list list \<Rightarrow> bool" where
  "page_run n pages \<longleftrightarrow> pages \<noteq> [] \<and> list_all (\<lambda>p. length p = n) (butlast pages) \<and> length (last pages) \<le> n"

lemma page_run_simps:
  "length p \<le> n \<Longrightarrow> page_run n [p]"
  "length p = n \<Longrightarrow> page_run n ps \<Longrightarrow> page_run n (p # ps)"
  by (auto simp: page_run_def)

lemma walk_from:
  assumes req: "uid \<noteq> []" "clean uid" "0 \<le> sint psize"
    and col: "collation le" and rows: "distinct (map t_ref (transactions T))" "list_all readable_row (transactions T)"
    and L: "L = listing le (scope_arg ctx PermTransactionReadAll uid) T"
  shows "fault_free w \<Longrightarrow> usable ctx w \<Longrightarrow> env_text_le (w_env w) = le \<Longrightarrow> view ctx w = T \<Longrightarrow>
    k = 0 \<or> k < length L \<Longrightarrow> 0 < n \<Longrightarrow> length L - k \<le> n * clampPageSize psize \<Longrightarrow>
    \<exists>pages w'. walk_pages n ctx uid psize (page_token (position L k)) w = Some (Inr pages, w') \<and>
      view ctx w' = T \<and> concat pages = map read_row (drop k L) \<and> page_run (clampPageSize psize) pages"
proof (induction n arbitrary: k w)
  case 0
  then show ?case by simp
next
  case (Suc n)
  let ?n = "clampPageSize psize" and ?page = "map read_row (take (clampPageSize psize) (drop k L))"
  have "\<exists>w1. TransactionRepository_List ctx \<lparr>ltr_UserID = uid, ltr_PageSize = psize, ltr_Cursor = page_token (position L k)\<rparr> w =
      (Inr \<lparr>ltp_Transactions = ?page, ltp_NextCursor = (if length L > k + ?n then page_token (position L (k + ?n)) else [])\<rparr>, w1) \<and>
    moved ctx w w1 \<and> view ctx w1 = view ctx w"
    by (rule List_page) (use Suc.prems req col rows L in auto)
  then obtain w1 where w1: "TransactionRepository_List ctx \<lparr>ltr_UserID = uid, ltr_PageSize = psize, ltr_Cursor = page_token (position L k)\<rparr> w =
      (Inr \<lparr>ltp_Transactions = ?page, ltp_NextCursor = (if length L > k + ?n then page_token (position L (k + ?n)) else [])\<rparr>, w1)"
    "moved ctx w w1" "view ctx w1 = T" using Suc.prems(4) by auto
  show ?case
  proof (cases "length L > k + ?n")
    case False
    then show ?thesis using w1 by (auto simp: intro!: page_run_simps(1))
  next
    case True
    have tok: "page_token (position L (k + ?n)) \<noteq> []"
      using clampPageSize_range(1) [of psize] page_token_nonempty by (simp add: position_def)
    have env: "fault_free w1" "usable ctx w1" "env_text_le (w_env w1) = le"
      using Suc.prems(1,3) moved_fault_free [OF w1(2)] w1(2) by (simp_all add: moved_def)
    have bound: "length L - k \<le> ?n + n * ?n" using Suc.prems(7) by (simp only: mult_Suc)
    have "n \<noteq> 0"
    proof
      assume "n = 0"
      with bound have "length L - k \<le> ?n" by simp
      with True show False by linarith
    qed
    moreover have "length L - (k + ?n) \<le> n * ?n" using bound by linarith
    ultimately have left: "0 < n" "length L - (k + ?n) \<le> n * ?n" by simp_all
    obtain pages w' where rest: "walk_pages n ctx uid psize (page_token (position L (k + ?n))) w1 = Some (Inr pages, w')"
      "view ctx w' = T" "concat pages = map read_row (drop (k + ?n) L)" "page_run ?n pages"
      using Suc.IH [OF env w1(3) disjI2 [OF True] left] by blast
    have "?page @ map read_row (drop (k + ?n) L) = map read_row (drop k L)"
      by (metis add.commute append_take_drop_id drop_drop map_append)
    moreover have "length ?page = ?n" using True by simp
    ultimately show ?thesis using w1 rest tok True page_run_simps(2) [of ?page ?n pages]
      by simp
  qed
qed

text \<open>
  C24: Following the page tokens from the first request visits the whole listing: on a working driver
  a caller that may send one request per page gets every transaction of its scope exactly once, newest
  first, in pages that are full but for the last, and the loop ends. Nothing is assumed of the page
  size but that it is accepted, nor of the collation but that it is a linear order, and rows recorded
  at the same instant may straddle a page.
\<close>

theorem pages_partition_listing:
  assumes "fault_free w" "usable ctx w" "collation (env_text_le (w_env w))"
    and "uid \<noteq> []" "clean uid" "0 \<le> sint psize"
    and "distinct (map t_ref (transactions (view ctx w)))" "list_all readable_row (transactions (view ctx w))"
    and "0 < n" "length (listing (env_text_le (w_env w)) (scope_arg ctx PermTransactionReadAll uid) (view ctx w))
           \<le> n * clampPageSize psize"
  shows "\<exists>pages w'. walk_pages n ctx uid psize [] w = Some (Inr pages, w') \<and> view ctx w' = view ctx w \<and>
    concat pages = map read_row (listing (env_text_le (w_env w)) (scope_arg ctx PermTransactionReadAll uid) (view ctx w)) \<and>
    page_run (clampPageSize psize) pages"
proof -
  have "page_token (position L 0) = []" for L by (simp add: page_token_def position_def)
  then show ?thesis
    using walk_from [OF assms(4-6,3,7,8) refl assms(1,2) refl refl, of 0 n] assms(9,10) by simp
qed

definition paging_world :: world where
  "paging_world = sample_world\<lparr>w_db := sample_tables\<lparr>transactions := map (\<lambda>ref.
     \<lparr>t_id = ref, t_ref = ref, t_account_id = ''acc'', t_owner_id = ''ann'', t_kind = ''earn'', t_points = 10,
      t_occurred_at = FormatTime (63871234567 * second), t_recorded_at = FormatTime (63871234567 * second),
      t_created_by = ''ann''\<rparr>) [''r3'', ''r1'', ''r2'']\<rparr>\<rparr>"

theorem pages_partition_listing_witness:
  "\<exists>pages w'. walk_pages 2 member_ctx ''ann'' 2 [] paging_world = Some (Inr pages, w') \<and>
     length (concat pages) = 3 \<and> page_run 2 pages"
proof -
  have "four_digit_year (63871234567 * second)" by code_simp
  then have rows: "list_all readable_row (transactions (view member_ctx paging_world))"
    by (auto simp: paging_world_def view_def readable_row_def clean_def)
  have env: "fault_free paging_world" "usable member_ctx paging_world" "w_env paging_world = sample_env"
    by (simp_all add: paging_world_def usable_def connected_def fault_free_def sample_env_def sample_world_def)
  have size: "clampPageSize 2 = 2" by (simp add: clampPageSize_def maxPageSize_def)
  have len: "length (listing byte_le (scope_arg member_ctx PermTransactionReadAll ''ann'') (view member_ctx paging_world)) = 3"
    by (simp add: listing_def paging_world_def view_def in_scope_def scope_arg_def IsGranted_def member_ctx_def
        ContextWithLoginClaim_def background_def member_claim_def)
  show ?thesis
    using pages_partition_listing [OF env(1,2) _ _ _ _ _ rows, of "''ann''" 2 2] size len
    by (auto simp: env(3) sample_env_def collation_byte_le clean_def paging_world_def view_def)
qed

end
