(* ===== verification/Programs.thy ===== *)
theory Programs
  imports WalletService
begin

text \<open>
  The wallet service at the grain of its database calls. A \<open>program\<close> is what is left of an
  operation between two calls: a result, or the next call with the rest of the operation as a
  function of the answer. The programs below follow the code of the repositories,
  of \<open>RunInTx\<close> and of \<open>ProcessTransaction\<close> call by call. \<open>run\<close> executes a program alone; it gives
  exactly the operations of the other theories, whatever the driver does. The theory
  \<open>Interleaving\<close> executes many programs at once.
\<close>

section \<open>Calls and answers\<close>

datatype sql =
    InsertTransaction transaction_row
  | SelectTransaction string "string option"
  | SelectAccount string "string option"
  | UpdateBalance string int64 "string option"
  | SelectBalance string "string option"
  | InsertAudit audit_row

datatype reply =
    Failed go_error
  | Affected nat
  | TransactionRow "transaction_row option"
  | AccountRow "account_row option"
  | BalanceColumn "int64 option"
  | Identity int

fun perform :: "sql \<Rightarrow> reply stmt" where
  "perform (InsertTransaction row) T = map_sum (\<lambda>e. e) (apfst Affected) (insert_transaction row T)"
| "perform (SelectTransaction ref sc) T = map_sum (\<lambda>e. e) (apfst TransactionRow) (select_transaction ref sc T)"
| "perform (SelectAccount aid sc) T = map_sum (\<lambda>e. e) (apfst AccountRow) (select_account aid sc T)"
| "perform (UpdateBalance aid delta sc) T = map_sum (\<lambda>e. e) (apfst Affected) (update_balance aid delta sc T)"
| "perform (SelectBalance aid sc) T = map_sum (\<lambda>e. e) (apfst BalanceColumn) (select_balance aid sc T)"
| "perform (InsertAudit row) T = map_sum (\<lambda>e. e) (apfst Identity) (insert_audit row T)"

text \<open>The text parameters of a statement.\<close>

fun params :: "sql \<Rightarrow> string list" where
  "params (InsertTransaction row) =
     [t_id row, t_ref row, t_account_id row, t_owner_id row, t_kind row, t_occurred_at row,
      t_recorded_at row, t_created_by row]"
| "params (SelectTransaction ref sc) = ref # scope_args sc"
| "params (SelectAccount aid sc) = aid # scope_args sc"
| "params (UpdateBalance aid delta sc) = aid # scope_args sc"
| "params (SelectBalance aid sc) = aid # scope_args sc"
| "params (InsertAudit row) =
     opt_arg (e_transaction_ref row) @ opt_arg (e_account_id row) @ opt_arg (e_owner_id row) @
     opt_arg (e_kind row) @ [e_outcome row, e_reason row, e_user_id row, e_created_at row]"

text \<open>What the caller of a statement reads from the answer.\<close>

fun count_of :: "reply \<Rightarrow> go_error + nat" where
  "count_of (Failed e) = Inl e"
| "count_of (Affected n) = Inr n"
| "count_of _ = Inr 0"

fun transaction_in :: "reply \<Rightarrow> go_error + transaction_row option" where
  "transaction_in (Failed e) = Inl e"
| "transaction_in (TransactionRow x) = Inr x"
| "transaction_in _ = Inr None"

fun account_in :: "reply \<Rightarrow> go_error + account_row option" where
  "account_in (Failed e) = Inl e"
| "account_in (AccountRow x) = Inr x"
| "account_in _ = Inr None"

fun balance_in :: "reply \<Rightarrow> go_error + int64 option" where
  "balance_in (Failed e) = Inl e"
| "balance_in (BalanceColumn x) = Inr x"
| "balance_in _ = Inr None"

fun identity_in :: "reply \<Rightarrow> go_error + int" where
  "identity_in (Failed e) = Inl e"
| "identity_in (Identity n) = Inr n"
| "identity_in _ = Inr 0"

section \<open>Programs\<close>

text \<open>The flag of \<open>Exec\<close> tells whether the statement goes to the transaction of the context or to the pool.\<close>

datatype 'a program =
    Return "go_error + 'a"
  | Clock "gotime \<Rightarrow> 'a program"
  | NewUUID "string \<Rightarrow> 'a program"
  | Exec bool sql "reply \<Rightarrow> 'a program"
  | Begin "go_error option \<Rightarrow> 'a program"
  | Commit "go_error option \<Rightarrow> 'a program"
  | Rollback "go_error option \<Rightarrow> 'a program"

primrec and_then :: "'a program \<Rightarrow> (go_error + 'a \<Rightarrow> 'b program) \<Rightarrow> 'b program" where
  "and_then (Return r) f = f r"
| "and_then (Clock k) f = Clock (\<lambda>t. and_then (k t) f)"
| "and_then (NewUUID k) f = NewUUID (\<lambda>u. and_then (k u) f)"
| "and_then (Exec tx q k) f = Exec tx q (\<lambda>r. and_then (k r) f)"
| "and_then (Begin k) f = Begin (\<lambda>e. and_then (k e) f)"
| "and_then (Commit k) f = Commit (\<lambda>e. and_then (k e) f)"
| "and_then (Rollback k) f = Rollback (\<lambda>e. and_then (k e) f)"

definition failure :: "go_error + unit \<Rightarrow> go_error option" where
  "failure r = (case r of Inl e \<Rightarrow> Some e | Inr _ \<Rightarrow> None)"

primrec run :: "'a program \<Rightarrow> 'a op" where
  "run (Return r) w = (r, w)"
| "run (Clock k) w = (case time_Now w of (t, w) \<Rightarrow> run (k t) w)"
| "run (NewUUID k) w = (case uuid_NewString w of (u, w) \<Rightarrow> run (k u) w)"
| "run (Exec tx q k) w =
     (case sql_exec (background\<lparr>ctx_Tx := tx\<rparr>) (params q) (perform q) w of
        (Inl e, w) \<Rightarrow> run (k (Failed e)) w
      | (Inr r, w) \<Rightarrow> run (k r) w)"
| "run (Begin k) w = (case begin_tx w of (r, w) \<Rightarrow> run (k (failure r)) w)"
| "run (Commit k) w = (case commit_tx w of (r, w) \<Rightarrow> run (k (failure r)) w)"
| "run (Rollback k) w = (case rollback_tx w of (r, w) \<Rightarrow> run (k (failure r)) w)"

section \<open>The programs of the wallet\<close>

definition AccountRepository_GetByID_program :: "go_context \<Rightarrow> GetAccountByIDRequest \<Rightarrow> Account program" where
  "AccountRepository_GetByID_program ctx request =
     (case GetAccountByIDRequest_Validate request of
        Some err \<Rightarrow> Return (Inl (Wrapped ''invalid request for GetByID'' err))
      | None \<Rightarrow>
          Exec (ctx_Tx ctx)
            (SelectAccount (gar_AccountID request) (scope_arg ctx PermAccountReadAll (gar_UserID request)))
            (\<lambda>row. Return (case scanAccount (account_in row) of
               Inl err \<Rightarrow>
                 if errors_Is_NoRows err then
                   Inl (Wrapped (''account '' @ gar_AccountID request) (Sentinel ErrNotFound))
                 else Inl err
             | Inr account \<Rightarrow> Inr account)))"

definition AccountRepository_UpdateAccountBalance_program ::
    "go_context \<Rightarrow> UpdateAccountBalanceRequest \<Rightarrow> int64 program" where
  "AccountRepository_UpdateAccountBalance_program ctx request =
     (case UpdateAccountBalanceRequest_Validate request of
        Some err \<Rightarrow> Return (Inl (Wrapped ''invalid request for UpdateAccountBalance'' err))
      | None \<Rightarrow>
          let sc = scope_arg ctx PermAccountWriteAll (ubr_UserID request); aid = ubr_AccountID request in
          Exec (ctx_Tx ctx) (UpdateBalance aid (ubr_Delta request) sc) (\<lambda>result.
            case count_of result of
              Inl err \<Rightarrow> Return (Inl (Wrapped ''could not update account balance'' err))
            | Inr affected \<Rightarrow>
                if affected = 0 then
                  Exec (ctx_Tx ctx) (SelectBalance aid sc) (\<lambda>row. Return (case balance_in row of
                    Inr None \<Rightarrow> Inl (Wrapped (''account '' @ aid) (Sentinel ErrNotFound))
                  | Inl err \<Rightarrow> Inl (Wrapped ''could not read account balance'' err)
                  | Inr (Some balance) \<Rightarrow> Inl (Wrapped (''account '' @ aid) (Sentinel ErrInsufficientBalance))))
                else
                  Exec (ctx_Tx ctx) (SelectBalance aid None) (\<lambda>row. Return (case balance_in row of
                    Inr None \<Rightarrow> Inl (Wrapped ''could not read updated account balance'' SqlNoRows)
                  | Inl err \<Rightarrow> Inl (Wrapped ''could not read updated account balance'' err)
                  | Inr (Some balance) \<Rightarrow> Inr balance))))"

definition TransactionRepository_Create_program ::
    "go_context \<Rightarrow> CreateTransactionRequest \<Rightarrow> Transaction program" where
  "TransactionRepository_Create_program ctx request =
     (case CreateTransactionRequest_Validate request of
        Some err \<Rightarrow> Return (Inl (Wrapped ''invalid request for Create'' err))
      | None \<Rightarrow>
          let insert = (\<lambda>x. Exec (ctx_Tx ctx) (InsertTransaction (row_of_transaction x)) (\<lambda>result. Return (
            case count_of result of
              Inl err \<Rightarrow>
                if IsForeignKeyConstraintViolation err then
                  Inl (Wrapped (''account '' @ tr_AccountID x) (Sentinel ErrNotFound))
                else Inl (Wrapped ''could not insert transaction'' err)
            | Inr affected \<Rightarrow>
                if affected = 0 then Inl (Wrapped (''transaction '' @ tr_Ref x) (Sentinel ErrDuplicateRef))
                else Inr x)));
              transaction = ctr_Transaction request
          in if tr_ID transaction = [] then NewUUID (\<lambda>new. insert (transaction\<lparr>tr_ID := new\<rparr>))
             else insert transaction)"

definition TransactionRepository_GetByID_program ::
    "go_context \<Rightarrow> GetTransactionByIDRequest \<Rightarrow> Transaction program" where
  "TransactionRepository_GetByID_program ctx request =
     (case GetTransactionByIDRequest_Validate request of
        Some err \<Rightarrow> Return (Inl (Wrapped ''invalid request for GetByID'' err))
      | None \<Rightarrow>
          Exec (ctx_Tx ctx)
            (SelectTransaction (gtr_Ref request) (scope_arg ctx PermTransactionReadAll (gtr_UserID request)))
            (\<lambda>row. Return (case scanTransaction (transaction_in row) of
               Inl err \<Rightarrow>
                 if errors_Is_NoRows err then
                   Inl (Wrapped (''transaction '' @ gtr_Ref request) (Sentinel ErrNotFound))
                 else Inl err
             | Inr x \<Rightarrow> Inr x)))"

definition AuditEntryRepository_Create_program ::
    "go_context \<Rightarrow> CreateAuditEntryRequest \<Rightarrow> AuditEntry program" where
  "AuditEntryRepository_Create_program ctx request =
     (case CreateAuditEntryRequest_Validate request of
        Some err \<Rightarrow> Return (Inl (Wrapped ''invalid request for Create'' err))
      | None \<Rightarrow>
          let entry = cae_AuditEntry request in
          Exec (ctx_Tx ctx)
            (InsertAudit \<lparr>e_id = 0, e_transaction_ref = aud_TransactionRef entry,
                e_account_id = aud_AccountID entry, e_owner_id = aud_OwnerID entry,
                e_kind = aud_Kind entry, e_points = aud_Points entry, e_outcome = aud_Outcome entry,
                e_reason = aud_Reason entry, e_user_id = aud_UserID entry,
                e_created_at = FormatTime (aud_CreatedAt entry)\<rparr>)
            (\<lambda>result. Return (case identity_in result of
               Inl err \<Rightarrow> Inl (Wrapped ''could not insert audit entry'' err)
             | Inr new \<Rightarrow> Inr (entry\<lparr>aud_ID := new\<rparr>))))"

definition RunInTx_program :: "go_context \<Rightarrow> (go_context \<Rightarrow> 'a program) \<Rightarrow> 'a program" where
  "RunInTx_program ctx fn =
     (if ctx_Tx ctx then fn ctx
      else Begin (\<lambda>begun. case begun of
        Some err \<Rightarrow> Return (Inl (Wrapped ''could not begin transaction'' err))
      | None \<Rightarrow> and_then (fn (ctx\<lparr>ctx_Tx := True\<rparr>)) (\<lambda>res. case res of
            Inl err \<Rightarrow> Rollback (\<lambda>rolled. case rolled of
                Some rollbackErr \<Rightarrow>
                  Return (Inl (Wrapped2 ''could not roll back transaction'' rollbackErr ''original error'' err))
              | None \<Rightarrow> Return (Inl err))
          | Inr a \<Rightarrow> Commit (\<lambda>committed. case committed of
                Some err \<Rightarrow> Return (Inl (Wrapped ''could not commit transaction'' err))
              | None \<Rightarrow> Return (Inr a)))))"

definition rejectTransaction_program ::
    "go_context \<Rightarrow> ProcessTransactionRequest \<Rightarrow> int64 \<Rightarrow> gotime \<Rightarrow> string option \<Rightarrow> go_error \<Rightarrow>
     ProcessTransactionResponse program" where
  "rejectTransaction_program ctx request delta now ownerID err =
     and_then (AuditEntryRepository_Create_program ctx
         (buildAuditEntry request delta ownerID OutcomeRejected (reasonFor err) now))
       (\<lambda>res. Return (case res of Inl auditErr \<Rightarrow> Inl auditErr | Inr _ \<Rightarrow> Inl err))"

definition process_unit_program ::
    "ProcessTransactionRequest \<Rightarrow> int64 \<Rightarrow> gotime \<Rightarrow> gotime \<Rightarrow> string \<Rightarrow> go_context \<Rightarrow>
     ProcessTransactionResponse program" where
  "process_unit_program request delta now occurredAt ownerID ctx =
     and_then (TransactionRepository_Create_program ctx
         \<lparr>ctr_Transaction =
            \<lparr>tr_ID = [], tr_Ref = ptr_Ref request, tr_AccountID = ptr_AccountID request,
             tr_OwnerID = ownerID, tr_Kind = ptr_Kind request, tr_Points = delta,
             tr_OccurredAt = occurredAt, tr_RecordedAt = now, tr_CreatedBy = ptr_UserID request\<rparr>\<rparr>)
       (\<lambda>res. case res of
          Inl err \<Rightarrow>
            if errors_Is err ErrDuplicateRef then
              and_then (TransactionRepository_GetByID_program ctx
                  \<lparr>gtr_UserID = ptr_UserID request, gtr_Ref = ptr_Ref request\<rparr>)
                (\<lambda>res. case res of Inl err \<Rightarrow> Return (Inl err) | Inr original \<Rightarrow>
                  and_then (AccountRepository_GetByID_program ctx
                      \<lparr>gar_AccountID = ptr_AccountID request, gar_UserID = ptr_UserID request\<rparr>)
                    (\<lambda>res. case res of Inl err \<Rightarrow> Return (Inl err) | Inr account \<Rightarrow>
                      and_then (AuditEntryRepository_Create_program ctx
                          (buildAuditEntry request delta (Some ownerID) OutcomeDuplicate ''duplicate'' now))
                        (\<lambda>res. Return (case res of Inl err \<Rightarrow> Inl err | Inr _ \<Rightarrow>
                           Inr \<lparr>ptp_Transaction = original, ptp_Balance = acc_Balance account,
                                ptp_Duplicate = True\<rparr>))))
            else Return (Inl err)
        | Inr created \<Rightarrow>
            and_then (AccountRepository_UpdateAccountBalance_program ctx
                \<lparr>ubr_AccountID = ptr_AccountID request, ubr_Delta = delta, ubr_UserID = ownerID\<rparr>)
              (\<lambda>res. case res of Inl err \<Rightarrow> Return (Inl err) | Inr updated \<Rightarrow>
                and_then (AuditEntryRepository_Create_program ctx
                    (buildAuditEntry request delta (Some ownerID) OutcomeAccepted ''ok'' now))
                  (\<lambda>res. Return (case res of Inl err \<Rightarrow> Inl err | Inr _ \<Rightarrow>
                     Inr \<lparr>ptp_Transaction = created, ptp_Balance = updated, ptp_Duplicate = False\<rparr>))))"

definition ProcessTransaction_program ::
    "go_context \<Rightarrow> ProcessTransactionRequest \<Rightarrow> ProcessTransactionResponse program" where
  "ProcessTransaction_program ctx request =
     (case ProcessTransactionRequest_Validate request of
        Some err \<Rightarrow> Return (Inl (Wrapped ''invalid request for ProcessTransaction'' err))
      | None \<Rightarrow>
        let delta = signedDelta (ptr_Kind request) (ptr_Points request) in
        Clock (\<lambda>now.
          let occurredAt = (if IsZero (ptr_OccurredAt request) then now else ptr_OccurredAt request) in
          and_then (AccountRepository_GetByID_program ctx
              \<lparr>gar_AccountID = ptr_AccountID request, gar_UserID = ptr_UserID request\<rparr>)
            (\<lambda>res. case res of
               Inl err \<Rightarrow> rejectTransaction_program ctx request delta now None err
             | Inr account \<Rightarrow>
                 let ownerID = acc_OwnerID account in
                 and_then (RunInTx_program ctx (process_unit_program request delta now occurredAt ownerID))
                   (\<lambda>res. case res of
                      Inl err \<Rightarrow> rejectTransaction_program ctx request delta now (Some ownerID) err
                    | Inr resp \<Rightarrow> Return (Inr resp)))))"

section \<open>Running a program alone\<close>

lemma run_and_then: "run (and_then p f) w = (case run p w of (r, w) \<Rightarrow> run (f r) w)"
  by (induction p arbitrary: w) (auto split: prod.splits sum.splits)

lemma sql_exec_context: "sql_exec (background\<lparr>ctx_Tx := ctx_Tx ctx\<rparr>) args st = sql_exec ctx args st"
  by (rule ext) (simp add: sql_exec_def)

lemma sql_exec_map:
  "sql_exec ctx args (\<lambda>T. map_sum (\<lambda>e. e) (apfst f) (st T)) w =
     (case sql_exec ctx args st w of (r, w) \<Rightarrow> (map_sum (\<lambda>e. e) f r, w))"
  by (auto simp: sql_exec_def driver_call_def pool_exec_def tx_exec_def bind_text_def
      split: option.splits fault.splits sum.splits prod.splits if_splits)

lemma perform_eta:
  "perform (InsertTransaction row) = (\<lambda>T. map_sum (\<lambda>e. e) (apfst Affected) (insert_transaction row T))"
  "perform (SelectTransaction ref sc) = (\<lambda>T. map_sum (\<lambda>e. e) (apfst TransactionRow) (select_transaction ref sc T))"
  "perform (SelectAccount aid sc) = (\<lambda>T. map_sum (\<lambda>e. e) (apfst AccountRow) (select_account aid sc T))"
  "perform (UpdateBalance aid delta sc) = (\<lambda>T. map_sum (\<lambda>e. e) (apfst Affected) (update_balance aid delta sc T))"
  "perform (SelectBalance aid sc) = (\<lambda>T. map_sum (\<lambda>e. e) (apfst BalanceColumn) (select_balance aid sc T))"
  "perform (InsertAudit arow) = (\<lambda>T. map_sum (\<lambda>e. e) (apfst Identity) (insert_audit arow T))"
  by (rule ext, simp)+

lemmas run_program = run_and_then sql_exec_context perform_eta sql_exec_map Let_def

lemma run_AccountRepository_GetByID:
  "run (AccountRepository_GetByID_program ctx request) = AccountRepository_GetByID ctx request"
  by (rule ext)
     (auto simp: AccountRepository_GetByID_program_def AccountRepository_GetByID_def run_program scanAccount_def
       split: option.splits prod.splits sum.splits if_splits)

lemma run_TransactionRepository_GetByID:
  "run (TransactionRepository_GetByID_program ctx request) = TransactionRepository_GetByID ctx request"
  by (rule ext)
     (auto simp: TransactionRepository_GetByID_program_def TransactionRepository_GetByID_def run_program
       scanTransaction_def split: option.splits prod.splits sum.splits if_splits)

lemma run_AuditEntryRepository_Create:
  "run (AuditEntryRepository_Create_program ctx request) = AuditEntryRepository_Create ctx request"
  by (rule ext)
     (auto simp: AuditEntryRepository_Create_program_def AuditEntryRepository_Create_def run_program
       split: option.splits prod.splits sum.splits)

lemma run_TransactionRepository_Create:
  "run (TransactionRepository_Create_program ctx request) = TransactionRepository_Create ctx request"
  by (rule ext, cases "tr_ID (ctr_Transaction request) = []")
     (auto simp: TransactionRepository_Create_program_def TransactionRepository_Create_def run_program
       row_of_transaction_def split: option.splits prod.splits sum.splits)

lemma run_AccountRepository_UpdateAccountBalance:
  "run (AccountRepository_UpdateAccountBalance_program ctx request) = AccountRepository_UpdateAccountBalance ctx request"
proof (rule ext)
  fix w
  let ?sc = "scope_arg ctx PermAccountWriteAll (ubr_UserID request)" and ?aid = "ubr_AccountID request"
  have read: "run (Exec (ctx_Tx ctx) (SelectBalance aid sc) (\<lambda>row. Return (f (balance_in row)))) w =
      (case sql_exec ctx (aid # scope_args sc) (select_balance aid sc) w of (r, w) \<Rightarrow> (f r, w))" for aid sc f w
    by (simp add: run_program case_sum_map_sum split: prod.split sum.split)
  have upd: "run (Exec (ctx_Tx ctx) (UpdateBalance aid d sc) (\<lambda>r. f (count_of r))) w =
      (case sql_exec ctx (aid # scope_args sc) (update_balance aid d sc) w of (r, w) \<Rightarrow> run (f r) w)" for aid d sc f w
    by (simp add: run_program case_sum_map_sum split: prod.split sum.split)
  show "run (AccountRepository_UpdateAccountBalance_program ctx request) w = AccountRepository_UpdateAccountBalance ctx request w"
  proof (cases "UpdateAccountBalanceRequest_Validate request")
    case None
    obtain r w1 where u: "sql_exec ctx (?aid # scope_args ?sc) (update_balance ?aid (ubr_Delta request) ?sc) w = (r, w1)"
      by fastforce
    show ?thesis
      unfolding AccountRepository_UpdateAccountBalance_program_def AccountRepository_UpdateAccountBalance_def None Let_def
        option.case upd u prod.case
      by (cases r) (simp_all add: read scope_args_def del: run.simps(4) split: prod.split sum.split option.split)
  qed (simp add: AccountRepository_UpdateAccountBalance_program_def AccountRepository_UpdateAccountBalance_def)
qed

lemma run_RunInTx:
  "(\<And>c. run (fn c) = op c) \<Longrightarrow> run (RunInTx_program ctx fn) = RunInTx ctx op"
  by (rule ext)
     (auto simp: RunInTx_program_def RunInTx_def run_and_then failure_def split: option.splits prod.splits sum.splits)

lemmas run_operations = run_AccountRepository_GetByID run_TransactionRepository_GetByID
  run_AuditEntryRepository_Create run_TransactionRepository_Create run_AccountRepository_UpdateAccountBalance

lemma run_rejectTransaction:
  "run (rejectTransaction_program ctx request delta now owner err) = rejectTransaction ctx request delta now owner err"
  by (rule ext)
     (auto simp: rejectTransaction_program_def rejectTransaction_def run_and_then run_operations
       split: prod.splits sum.splits)

lemma run_process_unit:
  "run (process_unit_program request delta now occ owner ctx) = process_unit request delta now occ owner ctx"
  by (rule ext)
     (simp add: process_unit_program_def process_unit_def run_and_then run_operations split: prod.split sum.split)

text \<open>
  Run alone, the call-by-call program of a transaction is the operation of the wallet service: same
  answer and same next world, from every world and under every failure of the driver. The interleaved
  executions are therefore executions of the same code.
\<close>

theorem process_program_is_operation:
  "run (ProcessTransaction_program ctx request) w = WalletService_ProcessTransaction ctx request w"
  by (auto simp: ProcessTransaction_program_def WalletService_ProcessTransaction_def Let_def run_and_then
      run_operations run_rejectTransaction run_RunInTx [OF run_process_unit] split: option.splits prod.splits sum.splits)

end
