(* ===== verification/Interleaving.thy ===== *)
theory Interleaving
  imports Programs UserRepository
begin

text \<open>
  Many programs at once on one Postgres database, at its default isolation level \<open>READ COMMITTED\<close>
  (\<open>BeginTx(ctx, nil)\<close> asks for no other). A statement sees what is committed when it runs, with the
  writes of its own transaction on top. Uncommitted rows are kept in an \<open>overlay\<close>, row versions and
  not differences, so that without the locks an update could be lost. A statement that would write
  waits while another open transaction holds a new row with the same unique key or a new version of
  the same row; it is evaluated again when it goes on. A commit makes the overlay visible. Numbers drawn
  from the identity sequence are drawn for good.
\<close>

section \<open>Uncommitted writes\<close>

record overlay =
  ov_rows :: "transaction_row list"
  ov_accounts :: "account_row list"
  ov_audit :: "audit_row list"

definition empty_overlay :: overlay where
  "empty_overlay = \<lparr>ov_rows = [], ov_accounts = [], ov_audit = []\<rparr>"

text \<open>The newest version of an account row: the one of the overlay, or the committed one.\<close>

definition newest :: "account_row list \<Rightarrow> account_row \<Rightarrow> account_row" where
  "newest versions a = (case List.find (\<lambda>v. a_id v = a_id a) versions of None \<Rightarrow> a | Some v \<Rightarrow> v)"

definition seen :: "tables \<Rightarrow> overlay \<Rightarrow> tables" where
  "seen T ov = T\<lparr>accounts := map (newest (ov_accounts ov)) (accounts T),
     transactions := transactions T @ ov_rows ov, audit_entries := audit_entries T @ ov_audit ov\<rparr>"

text \<open>The overlay after a statement that took the tables in sight from \<open>T\<close> to \<open>T'\<close>.\<close>

definition written :: "tables \<Rightarrow> tables \<Rightarrow> overlay \<Rightarrow> overlay" where
  "written T T' ov =
     \<lparr>ov_rows = ov_rows ov @ drop (length (transactions T)) (transactions T'),
      ov_accounts = filter (\<lambda>a. a \<notin> set (accounts T)) (accounts T') @ ov_accounts ov,
      ov_audit = ov_audit ov @ drop (length (audit_entries T)) (audit_entries T')\<rparr>"

text \<open>Does a statement on the tables \<open>T\<close> wait for an open transaction with the writes \<open>ov\<close>?\<close>

fun waits :: "sql \<Rightarrow> tables \<Rightarrow> overlay \<Rightarrow> bool" where
  "waits (InsertTransaction row) T ov =
     (case insert_transaction row T of
        Inr (n, _) \<Rightarrow> 0 < n \<and> list_ex (\<lambda>x. t_ref x = t_ref row \<or> t_id x = t_id row) (ov_rows ov)
      | Inl _ \<Rightarrow> False)"
| "waits (UpdateBalance aid delta sc) T ov =
     (case update_balance aid delta sc T of
        Inr (n, _) \<Rightarrow> 0 < n \<and> list_ex (\<lambda>a. a_id a = aid) (ov_accounts ov)
      | Inl _ \<Rightarrow> False)"
| "waits _ T ov = False"

section \<open>The steps of one session\<close>

datatype session_tx = NoTx | OpenTx overlay | BrokenTx

text \<open>
  \<open>acts O T p tx T' p' tx'\<close>: with the committed tables \<open>T\<close> and other transactions open with the writes
  in \<open>O\<close>, the next call of the program \<open>p\<close> succeeds or is refused by the server, which leaves the
  committed tables \<open>T'\<close>, the rest \<open>p'\<close> of the program and the state \<open>tx'\<close> of its own transaction. The
  clock and the UUIDs are arbitrary.
\<close>

inductive acts :: "overlay set \<Rightarrow> tables \<Rightarrow> 'a program \<Rightarrow> session_tx \<Rightarrow> tables \<Rightarrow> 'a program \<Rightarrow> session_tx \<Rightarrow> bool"
  for others :: "overlay set" and T :: tables where
  acts_clock: "acts others T (Clock k) tx T (k t) tx"
| acts_uuid: "acts others T (NewUUID k) tx T (k u) tx"
| acts_begin: "acts others T (Begin k) NoTx T (k None) (OpenTx empty_overlay)"
| acts_in_tx: "bind_text (params q) (perform q) (seen T ov) = Inr (r, U) \<Longrightarrow>
    \<forall>ov' \<in> others. \<not> waits q (seen T ov) ov' \<Longrightarrow>
    acts others T (Exec True q k) (OpenTx ov)
      (T\<lparr>audit_seq := audit_seq U\<rparr>) (k r) (OpenTx (written (seen T ov) U ov))"
| acts_in_tx_refused: "bind_text (params q) (perform q) (seen T ov) = Inl e \<Longrightarrow>
    acts others T (Exec True q k) (OpenTx ov) T (k (Failed e)) BrokenTx"
| acts_in_broken: "acts others T (Exec True q k) BrokenTx T (k (Failed tx_is_aborted)) BrokenTx"
| acts_without_tx: "acts others T (Exec True q k) NoTx T (k (Failed tx_done)) NoTx"
| acts_on_pool: "bind_text (params q) (perform q) T = Inr (r, U) \<Longrightarrow>
    \<forall>ov' \<in> others. \<not> waits q T ov' \<Longrightarrow> acts others T (Exec False q k) tx U (k r) tx"
| acts_on_pool_refused: "bind_text (params q) (perform q) T = Inl e \<Longrightarrow>
    acts others T (Exec False q k) tx T (k (Failed e)) tx"
| acts_commit: "acts others T (Commit k) (OpenTx ov) (seen T ov) (k None) NoTx"
| acts_commit_broken: "acts others T (Commit k) BrokenTx T
    (k (Some (Plain ''commit unexpectedly resulted in rollback''))) NoTx"
| acts_commit_none: "acts others T (Commit k) NoTx T (k (Some tx_done)) NoTx"
| acts_rollback: "acts others T (Rollback k) tx T (k None) NoTx"

text \<open>
  \<open>fails\<close>: the driver loses a request or the reply of a call that took effect, or the process dies and
  the server rolls back.
\<close>

inductive fails :: "overlay set \<Rightarrow> tables \<Rightarrow> 'a program \<Rightarrow> session_tx \<Rightarrow> tables \<Rightarrow> 'a program \<Rightarrow> session_tx \<Rightarrow> bool"
  for others :: "overlay set" and T :: tables where
  fails_begin: "fails others T (Begin k) NoTx T (k (Some (Plain m))) NoTx"
| fails_in_tx: "fails others T (Exec True q k) (OpenTx ov) T (k (Failed (Plain m))) BrokenTx"
| fails_in_tx_reply: "perform q (seen T ov) = Inr (r, U) \<Longrightarrow>
    fails others T (Exec True q k) (OpenTx ov) (T\<lparr>audit_seq := audit_seq U\<rparr>) (k (Failed (Plain m))) BrokenTx"
| fails_on_pool: "fails others T (Exec False q k) tx T (k (Failed (Plain m))) tx"
| fails_on_pool_reply: "bind_text (params q) (perform q) T = Inr (r, U) \<Longrightarrow>
    \<forall>ov' \<in> others. \<not> waits q T ov' \<Longrightarrow>
    fails others T (Exec False q k) tx U (k (Failed (Plain m))) tx"
| fails_commit: "fails others T (Commit k) (OpenTx ov) T (k (Some (Plain m))) NoTx"
| fails_commit_reply: "fails others T (Commit k) (OpenTx ov) (seen T ov) (k (Some (Plain m))) NoTx"
| fails_rollback: "fails others T (Rollback k) tx T (k (Some (Plain m))) NoTx"
| fails_crash: "fails others T p tx T (Return (Inl (Plain m))) NoTx"

section \<open>The system\<close>

record session =
  se_program :: "ProcessTransactionResponse program"
  se_tx :: session_tx

record system =
  sy_db :: tables
  sy_sessions :: "nat \<Rightarrow> session"

definition others_of :: "nat \<Rightarrow> system \<Rightarrow> overlay set" where
  "others_of i s = {ov. \<exists>j. j \<noteq> i \<and> se_tx (sy_sessions s j) = OpenTx ov}"

definition put :: "nat \<Rightarrow> tables \<Rightarrow> ProcessTransactionResponse program \<Rightarrow> session_tx \<Rightarrow> system \<Rightarrow> system" where
  "put i T p tx s = \<lparr>sy_db = T, sy_sessions = (sy_sessions s)(i := \<lparr>se_program = p, se_tx = tx\<rparr>)\<rparr>"

text \<open>
  Meanwhile other requests register users, open accounts, rename accounts and end sessions; each of
  these writes with one statement at a time. (The admin correction of a balance, which by design has
  no ledger row, is left out.)
\<close>

inductive elsewhere :: "overlay set \<Rightarrow> tables \<Rightarrow> tables \<Rightarrow> bool" where
  new_user: "insert_user row T = Inr (x, T') \<Longrightarrow> elsewhere others T T'"
| new_account: "insert_account arow T = Inr (x, T') \<Longrightarrow> a_balance arow = 0 \<Longrightarrow> elsewhere others T T'"
| renamed: "update_name aid nm sc T = Inr (y, T') \<Longrightarrow>
    \<forall>ov \<in> others. \<not> list_ex (\<lambda>a. a_id a = aid) (ov_accounts ov) \<Longrightarrow> elsewhere others T T'"
| logged_out: "increment_token_version uid T = Inr (z, T') \<Longrightarrow> elsewhere others T T'"

inductive works :: "nat \<Rightarrow> system \<Rightarrow> system \<Rightarrow> bool" where
  works: "acts (others_of i s) (sy_db s) (se_program (sy_sessions s i)) (se_tx (sy_sessions s i)) T p tx \<Longrightarrow>
    works i s (put i T p tx s)"

inductive sys_step :: "system \<Rightarrow> system \<Rightarrow> bool" where
  step_works: "works i s s' \<Longrightarrow> sys_step s s'"
| step_fails: "fails (others_of i s) (sy_db s) (se_program (sy_sessions s i)) (se_tx (sy_sessions s i)) T p tx \<Longrightarrow>
    sys_step s (put i T p tx s)"
| step_request: "se_program (sy_sessions s i) = Return r \<Longrightarrow> \<not> ctx_Tx ctx \<Longrightarrow>
    sys_step s (put i (sy_db s) (ProcessTransaction_program ctx request) NoTx s)"
| step_elsewhere: "elsewhere {ov. \<exists>i. se_tx (sy_sessions s i) = OpenTx ov} (sy_db s) T \<Longrightarrow>
    sys_step s (s\<lparr>sy_db := T\<rparr>)"

text \<open>A system in which no request was made yet: every session is free.\<close>

definition start_system :: "tables \<Rightarrow> system" where
  "start_system T = \<lparr>sy_db = T, sy_sessions = (\<lambda>_. \<lparr>se_program = Return (Inl (Plain [])), se_tx = NoTx\<rparr>)\<rparr>"

definition answered :: "nat \<Rightarrow> system \<Rightarrow> bool" where
  "answered i s \<longleftrightarrow> (case se_program (sy_sessions s i) of Return _ \<Rightarrow> True | _ \<Rightarrow> False)"

lemma put_sel [simp]:
  "sy_db (put i T p tx s) = T" "sy_sessions (put i T p tx s) i = \<lparr>se_program = p, se_tx = tx\<rparr>"
  "j \<noteq> i \<Longrightarrow> sy_sessions (put i T p tx s) j = sy_sessions s j"
  by (simp_all add: put_def)

end
