(* ===== verification/Concurrency.thy ===== *)
theory Concurrency
  imports Interleaving WalletProperties
begin

text \<open>
  Why interleaving is safe. A program is typed by the stage of its transaction (\<open>obeys\<close>): the ledger
  row is inserted before the balance moves, the balance moves by the points of that row, and
  a transaction that moved a balance is committed only with its accepted audit row.
  Typed programs keep the invariant of the system, every commit is one posting of the abstract
  ledger on the tables committed at that time, and no set of sessions deadlocks.
\<close>

section \<open>Stages\<close>

text \<open>
  \<open>Idle\<close>: no transaction. \<open>Fresh\<close>: a transaction without ledger writes. \<open>Inserted\<close>, \<open>Applied\<close>,
  \<open>Recorded\<close>: with its row, its balance, its audit row. \<open>Broken\<close>: aborted. \<open>Posted\<close>: committed.
\<close>

datatype stage = Idle | Fresh | Inserted Transaction | Applied Transaction | Recorded Transaction | Broken
  | Posted Transaction

fun in_progress :: "stage \<Rightarrow> bool" where
  "in_progress Idle = False"
| "in_progress (Posted x) = False"
| "in_progress _ = True"

fun after_commit :: "stage \<Rightarrow> stage" where
  "after_commit (Recorded x) = Posted x"
| "after_commit _ = Idle"

text \<open>An accepted answer is given only after its own transaction was committed.\<close>

fun answers :: "go_error + ProcessTransactionResponse \<Rightarrow> stage \<Rightarrow> bool" where
  "answers (Inl err) st \<longleftrightarrow> st = Idle"
| "answers (Inr resp) st \<longleftrightarrow> (if ptp_Duplicate resp then st = Idle else st = Posted (ptp_Transaction resp))"

text \<open>\<open>known\<close> pairs are accounts whose owner the program has read.\<close>

fun after_audit :: "audit_row \<Rightarrow> stage \<Rightarrow> stage" where
  "after_audit row (Applied x) =
     (if e_transaction_ref row = Some (tr_Ref x) \<and> e_outcome row = OutcomeAccepted then Recorded x else Applied x)"
| "after_audit row st = st"

primrec obeys :: "ProcessTransactionResponse program \<Rightarrow> stage \<Rightarrow> (string \<times> string) set \<Rightarrow> bool" where
  "obeys (Return r) st known \<longleftrightarrow> answers r st"
| "obeys (Clock k) st known \<longleftrightarrow> (\<forall>t. obeys (k t) st known)"
| "obeys (NewUUID k) st known \<longleftrightarrow> (\<forall>u. obeys (k u) st known)"
| "obeys (Begin k) st known \<longleftrightarrow> st = Idle \<and> (\<forall>e. obeys (k e) (if e = None then Fresh else Idle) known)"
| "obeys (Commit k) st known \<longleftrightarrow> (st = Fresh \<or> st = Broken \<or> (\<exists>x. st = Recorded x)) \<and>
     (\<forall>e. obeys (k e) (if e = None then after_commit st else Idle) known)"
| "obeys (Rollback k) st known \<longleftrightarrow> in_progress st \<and> (\<forall>e. obeys (k e) Idle known)"
| "obeys (Exec tx q k) st known \<longleftrightarrow> (if tx then in_progress st else st = Idle) \<and>
     (\<forall>e. driver_error e \<longrightarrow> obeys (k (Failed e)) (if tx then Broken else Idle) known) \<and>
     (st \<noteq> Broken \<longrightarrow>
       (case q of
          InsertTransaction row \<Rightarrow> st = Fresh \<and> (t_account_id row, t_owner_id row) \<in> known \<and>
            obeys (k (Affected 0)) st known \<and>
            (\<exists>x. row = row_of_transaction x \<and> obeys (k (Affected 1)) (Inserted x) known)
        | UpdateBalance aid delta sc \<Rightarrow>
            (\<exists>x. st = Inserted x \<and> aid = tr_AccountID x \<and> delta = tr_Points x \<and> delta \<noteq> 0 \<and>
              obeys (k (Affected 0)) st known \<and> obeys (k (Affected 1)) (Applied x) known)
        | SelectTransaction ref sc \<Rightarrow> (\<forall>r. obeys (k (TransactionRow r)) st known)
        | SelectAccount aid sc \<Rightarrow> obeys (k (AccountRow None)) st known \<and>
            (\<forall>a. a_id a = aid \<longrightarrow> obeys (k (AccountRow (Some a))) st (insert (aid, a_owner_id a) known))
        | SelectBalance aid sc \<Rightarrow> (\<forall>b. obeys (k (BalanceColumn b)) st known)
        | InsertAudit row \<Rightarrow> (\<forall>n. obeys (k (Identity n)) (after_audit row st) known)))"

lemma obeys_mono: "obeys p st known \<Longrightarrow> known \<subseteq> known' \<Longrightarrow> obeys p st known'"
proof (induction p arbitrary: st known known')
  case (Exec tx q k)
  have step: "obeys (k r) st' K \<Longrightarrow> K \<subseteq> K' \<Longrightarrow> obeys (k r) st' K'" for r st' K K'
    using Exec.IH by blast
  show ?case
    using Exec.prems by (cases tx; cases q) (fastforce intro: step)+
next
  case (Clock k)
  then show ?case unfolding obeys.simps by (meson rangeI)
next
  case (NewUUID k)
  then show ?case unfolding obeys.simps by (meson rangeI)
next
  case (Begin k)
  then show ?case unfolding obeys.simps by (meson rangeI)
next
  case (Commit k)
  then have "obeys (k e) (if e = None then after_commit st else Idle) known'" for e
    unfolding obeys.simps by (meson rangeI)
  then show ?case using Commit.prems by simp
next
  case (Rollback k)
  then show ?case unfolding obeys.simps by (meson rangeI)
qed simp

section \<open>The program of a transaction is typed\<close>

text \<open>One rule per repository operation: what the rest of the program must obey for each kind of answer.\<close>

lemma and_then_assoc: "and_then (and_then p f) g = and_then p (\<lambda>r. and_then (f r) g)"
  by (induction p) auto

lemma typed_get_account:
  assumes "st \<noteq> Broken" "if ctx_Tx ctx then in_progress st else st = Idle"
    and "\<And>e. obeys (f (Inl e)) (if ctx_Tx ctx then Broken else Idle) known" "\<And>e. obeys (f (Inl e)) st known"
    and "\<And>acc. obeys (f (Inr acc)) st (insert (gar_AccountID request, acc_OwnerID acc) known)"
  shows "obeys (and_then (AccountRepository_GetByID_program ctx request) f) st known"
proof -
  have weak: "obeys (f (Inl e)) st (insert z known)" for e z
    using assms(4) by (rule obeys_mono) blast
  have own: "obeys (f (Inr \<lparr>acc_ID = i, acc_OwnerID = ow, acc_Name = n, acc_Balance = b, acc_CreatedAt = t\<rparr>)) st
      (insert (gar_AccountID request, ow) known)" for i ow n b t
    using assms(5) [of "\<lparr>acc_ID = i, acc_OwnerID = ow, acc_Name = n, acc_Balance = b, acc_CreatedAt = t\<rparr>"] by simp
  show ?thesis
    using assms(1-4) weak own
    by (auto simp: AccountRepository_GetByID_program_def Let_def scanAccount_def account_of_row_def
        split: option.split sum.split)
qed

lemma typed_get_transaction:
  assumes "st \<noteq> Broken" "if ctx_Tx ctx then in_progress st else st = Idle"
    and "\<And>e. obeys (f (Inl e)) (if ctx_Tx ctx then Broken else Idle) known" "\<And>e. obeys (f (Inl e)) st known"
    and "\<And>x. obeys (f (Inr x)) st known"
  shows "obeys (and_then (TransactionRepository_GetByID_program ctx request) f) st known"
  using assms
  by (auto simp: TransactionRepository_GetByID_program_def Let_def scanTransaction_def split: option.split sum.split)

lemma typed_audit:
  assumes "st \<noteq> Broken" "if ctx_Tx ctx then in_progress st else st = Idle"
    and "\<And>e. obeys (f (Inl e)) (if ctx_Tx ctx then Broken else Idle) known" "\<And>e. obeys (f (Inl e)) st known"
    and "\<And>a row. e_transaction_ref row = aud_TransactionRef (cae_AuditEntry request) \<Longrightarrow>
      e_outcome row = aud_Outcome (cae_AuditEntry request) \<Longrightarrow> obeys (f (Inr a)) (after_audit row st) known"
  shows "obeys (and_then (AuditEntryRepository_Create_program ctx request) f) st known"
  using assms by (auto simp: AuditEntryRepository_Create_program_def Let_def split: option.split)

lemma row_of_transaction_sel [simp]:
  "t_id (row_of_transaction x) = tr_ID x" "t_ref (row_of_transaction x) = tr_Ref x"
  "t_account_id (row_of_transaction x) = tr_AccountID x" "t_owner_id (row_of_transaction x) = tr_OwnerID x"
  "t_kind (row_of_transaction x) = tr_Kind x" "t_points (row_of_transaction x) = tr_Points x"
  by (simp_all add: row_of_transaction_def)

lemma typed_create:
  assumes "ctx_Tx ctx" "tr_ID (ctr_Transaction request) = []"
    and "(tr_AccountID (ctr_Transaction request), tr_OwnerID (ctr_Transaction request)) \<in> known"
    and "\<And>e. \<not> errors_Is e ErrDuplicateRef \<Longrightarrow> obeys (f (Inl e)) Broken known" "\<And>e. obeys (f (Inl e)) Fresh known"
    and "\<And>u. obeys (f (Inr ((ctr_Transaction request)\<lparr>tr_ID := u\<rparr>))) (Inserted ((ctr_Transaction request)\<lparr>tr_ID := u\<rparr>)) known"
  shows "obeys (and_then (TransactionRepository_Create_program ctx request) f) Fresh known"
  using assms
  by (auto simp: TransactionRepository_Create_program_def Let_def driver_error_def errs_simps split: option.split)

lemma typed_update:
  assumes "ctx_Tx ctx" "tr_AccountID x = ubr_AccountID request" "tr_Points x = ubr_Delta request"
    and "\<And>e. obeys (f (Inl e)) Broken known" "\<And>e. obeys (f (Inl e)) (Inserted x) known"
    and "\<And>e. obeys (f (Inl e)) (Applied x) known" "\<And>b. obeys (f (Inr b)) (Applied x) known"
  shows "obeys (and_then (AccountRepository_UpdateAccountBalance_program ctx request) f) (Inserted x) known"
  using assms
  by (auto simp: AccountRepository_UpdateAccountBalance_program_def Let_def valid_simps
      split: option.split option.splits)

lemma typed_unit:
  assumes tx: "ctx_Tx ctx" and own: "(ptr_AccountID request, owner) \<in> known"
    and err: "\<And>e st known'. in_progress st \<Longrightarrow> known \<subseteq> known' \<Longrightarrow> obeys (g (Inl e)) st known'"
    and dup: "\<And>a known'. ptp_Duplicate a \<Longrightarrow> known \<subseteq> known' \<Longrightarrow> obeys (g (Inr a)) Fresh known'"
    and ok: "\<And>a. \<not> ptp_Duplicate a \<Longrightarrow> obeys (g (Inr a)) (Recorded (ptp_Transaction a)) known"
  shows "obeys (and_then (process_unit_program request (request_delta request) now occ owner ctx) g) Fresh known"
proof -
  have audit_dup: "after_audit row Fresh = Fresh" for row by simp
  have ok': "obeys (g (Inr \<lparr>ptp_Transaction = x, ptp_Balance = b, ptp_Duplicate = False\<rparr>)) (Recorded x) known" for x b
    using ok [of "\<lparr>ptp_Transaction = x, ptp_Balance = b, ptp_Duplicate = False\<rparr>"] by simp
  note err' = err [OF _ order_refl] and err_more = err [OF _ subset_insertI]
  show ?thesis
    unfolding process_unit_program_def and_then_assoc
  proof (rule typed_create, goal_cases)
    case 1 show ?case by (rule tx)
  next
    case (5 e)
    show ?case
    proof (cases "errors_Is e ErrDuplicateRef")
      case True
      show ?thesis
        unfolding sum.case if_P [OF True] and_then_assoc
      proof (rule typed_get_transaction, goal_cases)
        case (5 x)
        show ?case unfolding sum.case and_then_assoc
        proof (rule typed_get_account, goal_cases)
          case (5 acc)
          show ?case unfolding sum.case and_then_assoc
            by (rule typed_audit) (simp_all add: tx err_more dup [OF _ subset_insertI])
        qed (simp_all add: tx err')
      qed (simp_all add: tx err')
    qed (simp add: err')
  next
    case (6 u)
    show ?case unfolding sum.case and_then_assoc
    proof (rule typed_update, goal_cases)
      case (7 b)
      show ?case unfolding sum.case and_then_assoc
        by (rule typed_audit) (simp_all add: tx err' ok')
    qed (simp_all add: tx err')
  qed (simp_all add: own err')
qed

lemma typed_reject: "\<not> ctx_Tx ctx \<Longrightarrow> obeys (rejectTransaction_program ctx request delta now owner err) Idle known"
  unfolding rejectTransaction_program_def by (rule typed_audit) simp_all

text \<open>
  C9: The program of a transaction keeps the order the ledger needs, on every path and for every answer
  of the database: the ledger row goes in first and names the owner the account was read with, the
  balance moves once and by the points of that row, an accepted audit row of the same ref follows, and
  nothing else is ever committed with a ledger row.
\<close>

theorem process_program_typed:
  assumes "\<not> ctx_Tx ctx"
  shows "obeys (ProcessTransaction_program ctx request) Idle {}"
proof -
  have unit: "obeys (and_then (RunInTx_program ctx (process_unit_program request (request_delta request) now occ owner))
      (\<lambda>res. case res of
         Inl err \<Rightarrow> rejectTransaction_program ctx request delta now (Some owner) err
       | Inr resp \<Rightarrow> Return (Inr resp))) Idle {(ptr_AccountID request, owner)}" for now occ owner delta
    using assms
    by (auto simp: RunInTx_program_def and_then_assoc typed_reject
        intro!: typed_unit split: option.split)
  show ?thesis
    using assms
    by (auto simp: ProcessTransaction_program_def Let_def typed_reject request_delta_def [symmetric]
        intro!: typed_get_account unit split: option.split)
qed

end
