(* ===== verification/ConcurrencySafety.thy ===== *)
theory ConcurrencySafety
  imports Concurrency
begin

text \<open>
  The invariant of the interleaved system and its preservation: rely and guarantee. What a session
  with uncommitted writes relies on (\<open>rely\<close>) is what every step of the others gives; the invariant
  ties the overlay of each session to the stage of its program (\<open>stands\<close>), on the tables committed
  now, not those at the time of the write.
\<close>

section \<open>The invariant\<close>

definition core_ok :: "tables \<Rightarrow> bool" where
  "core_ok T \<longleftrightarrow> users_ok T \<and> accounts_ok T \<and> transactions_ok T"

definition accepted_entry :: "string \<Rightarrow> audit_row \<Rightarrow> bool" where
  "accepted_entry ref e \<longleftrightarrow> e_transaction_ref e = Some ref \<and> e_outcome e = OutcomeAccepted"

definition audited :: "tables \<Rightarrow> bool" where
  "audited T \<longleftrightarrow> list_all (\<lambda>x. list_ex (accepted_entry (t_ref x)) (audit_entries T)) (transactions T)"

definition sound :: "tables \<Rightarrow> bool" where
  "sound T \<longleftrightarrow> core_ok T \<and> balanced T \<and> audited T"

definition insertable :: "Transaction \<Rightarrow> tables \<Rightarrow> bool" where
  "insertable x T \<longleftrightarrow> valid_kind (tr_Kind x) \<and> tr_Ref x \<notin> t_ref ` set (transactions T) \<and>
     tr_ID x \<notin> t_id ` set (transactions T) \<and> tr_OwnerID x \<in> u_id ` set (users T) \<and>
     (\<exists>a \<in> set (accounts T). a_id a = tr_AccountID x \<and> a_owner_id a = tr_OwnerID x)"

definition moved_version :: "Transaction \<Rightarrow> tables \<Rightarrow> account_row list \<Rightarrow> bool" where
  "moved_version x T versions \<longleftrightarrow> (\<exists>a \<in> set (accounts T). a_id a = tr_AccountID x \<and>
     0 \<le> sint (a_balance a) + sint (tr_Points x) \<and> fits64 (sint (a_balance a) + sint (tr_Points x)) \<and>
     versions = [a\<lparr>a_balance := a_balance a + tr_Points x\<rparr>])"

fun stands :: "tables \<Rightarrow> session_tx \<Rightarrow> stage \<Rightarrow> bool" where
  "stands T NoTx st \<longleftrightarrow> st = Idle \<or> (\<exists>x. st = Posted x \<and> row_of_transaction x \<in> set (transactions T))"
| "stands T BrokenTx st \<longleftrightarrow> st = Broken"
| "stands T (OpenTx ov) Fresh \<longleftrightarrow> ov_rows ov = [] \<and> ov_accounts ov = []"
| "stands T (OpenTx ov) (Inserted x) \<longleftrightarrow>
     ov_rows ov = [row_of_transaction x] \<and> ov_accounts ov = [] \<and> insertable x T"
| "stands T (OpenTx ov) (Applied x) \<longleftrightarrow>
     ov_rows ov = [row_of_transaction x] \<and> insertable x T \<and> moved_version x T (ov_accounts ov)"
| "stands T (OpenTx ov) (Recorded x) \<longleftrightarrow>
     ov_rows ov = [row_of_transaction x] \<and> insertable x T \<and> moved_version x T (ov_accounts ov) \<and>
     list_ex (accepted_entry (tr_Ref x)) (ov_audit ov)"
| "stands T (OpenTx ov) _ \<longleftrightarrow> False"

definition knows :: "tables \<Rightarrow> (string \<times> string) set \<Rightarrow> bool" where
  "knows T known \<longleftrightarrow> known \<subseteq> (\<lambda>a. (a_id a, a_owner_id a)) ` set (accounts T)"

definition apart :: "overlay \<Rightarrow> overlay \<Rightarrow> bool" where
  "apart ov ov' \<longleftrightarrow>
     (\<forall>x \<in> set (ov_rows ov). \<forall>y \<in> set (ov_rows ov'). t_ref x \<noteq> t_ref y \<and> t_id x \<noteq> t_id y) \<and>
     (\<forall>a \<in> set (ov_accounts ov). \<forall>b \<in> set (ov_accounts ov'). a_id a \<noteq> a_id b)"

definition rely :: "overlay \<Rightarrow> tables \<Rightarrow> tables \<Rightarrow> bool" where
  "rely ov T T' \<longleftrightarrow> set (transactions T) \<subseteq> set (transactions T') \<and> u_id ` set (users T) \<subseteq> u_id ` set (users T') \<and>
     (\<forall>a \<in> set (accounts T). \<exists>a' \<in> set (accounts T'). a_id a' = a_id a \<and> a_owner_id a' = a_owner_id a \<and>
        (a_id a \<in> a_id ` set (ov_accounts ov) \<longrightarrow> a' = a)) \<and>
     (\<forall>x \<in> set (transactions T'). x \<in> set (transactions T) \<or>
        (\<forall>y \<in> set (ov_rows ov). t_ref x \<noteq> t_ref y \<and> t_id x \<noteq> t_id y))"

lemma apart_sym: "apart ov ov' \<Longrightarrow> apart ov' ov"
  unfolding apart_def by fastforce

lemma rely_same: "users T' = users T \<Longrightarrow> accounts T' = accounts T \<Longrightarrow> transactions T' = transactions T \<Longrightarrow> rely ov T T'"
  by (auto simp: rely_def)

lemma rely_insertable:
  "rely ov T T' \<Longrightarrow> row_of_transaction x \<in> set (ov_rows ov) \<Longrightarrow> insertable x T \<Longrightarrow> insertable x T'"
  unfolding rely_def insertable_def by fastforce

lemma rely_moved: "rely ov T T' \<Longrightarrow> moved_version x T (ov_accounts ov) \<Longrightarrow> moved_version x T' (ov_accounts ov)"
  unfolding rely_def moved_version_def by fastforce

lemma rely_stands: "stands T (OpenTx ov) st \<Longrightarrow> rely ov T T' \<Longrightarrow> stands T' (OpenTx ov) st"
  using rely_insertable [of ov T T'] rely_moved [of ov T T'] by (cases st) auto

lemma rely_stands_closed: "stands T tx st \<Longrightarrow> tx \<in> {NoTx, BrokenTx} \<Longrightarrow> rely ov T T' \<Longrightarrow> stands T' tx st"
  unfolding rely_def by (cases tx) (simp, blast, simp_all)

lemma rely_knows:
  assumes "knows T known" "rely ov T T'"
  shows "knows T' known"
proof -
  have "(a_id a, a_owner_id a) \<in> (\<lambda>a. (a_id a, a_owner_id a)) ` set (accounts T')" if a: "a \<in> set (accounts T)" for a
  proof -
    obtain a' where "a' \<in> set (accounts T')" "a_id a' = a_id a" "a_owner_id a' = a_owner_id a"
      using bspec [OF conjunct1 [OF conjunct2 [OF conjunct2 [OF assms(2) [unfolded rely_def]]]] a] by auto
    then show ?thesis by (intro image_eqI [of _ _ a']) simp_all
  qed
  then show ?thesis using assms(1) unfolding knows_def by blast
qed

lemma stands_seq [simp]: "stands (T\<lparr>audit_seq := n\<rparr>) tx st = stands T tx st"
  by (cases tx; cases st) (simp_all add: insertable_def moved_version_def)

lemma tables_seq [simp]:
  "sound (T\<lparr>audit_seq := n\<rparr>) = sound T" "knows (T\<lparr>audit_seq := n\<rparr>) known = knows T known"
  by (simp_all add: sound_def core_ok_def users_ok_def accounts_ok_def transactions_ok_def balanced_def audited_def knows_def)

section \<open>Statements on the tables in sight\<close>

lemma newest_Nil [simp]: "newest [] = (\<lambda>a. a)"
  by (rule ext) (simp add: newest_def)

lemma written_same: "users T' = users T \<Longrightarrow> accounts T' = accounts T \<Longrightarrow> transactions T' = transactions T \<Longrightarrow>
    written T T' ov = ov\<lparr>ov_audit := ov_audit ov @ drop (length (audit_entries T)) (audit_entries T')\<rparr>"
  by (simp add: written_def)

lemma newest_identity:
  assumes "stands T (OpenTx ov) st" "core_ok T" "a \<in> set (accounts T)"
  shows "a_id (newest (ov_accounts ov) a) = a_id a \<and> a_owner_id (newest (ov_accounts ov) a) = a_owner_id a"
proof (cases "ov_accounts ov")
  case (Cons v vs)
  then obtain b where "b \<in> set (accounts T)" "ov_accounts ov = [b\<lparr>a_balance := a_balance v\<rparr>]"
    using assms(1) by (cases st) (auto simp: moved_version_def)
  moreover have "b = a" if "a_id b = a_id a"
    using that assms(2,3) \<open>b \<in> set (accounts T)\<close> by (auto simp: core_ok_def accounts_ok_def distinct_map inj_on_def)
  ultimately show ?thesis by (auto simp: newest_def)
qed simp

lemma one_version:
  assumes "a \<in> set rows" "P a" "\<And>b. b \<in> set rows \<Longrightarrow> P b \<Longrightarrow> b = a" "distinct rows" "f a \<notin> set rows"
  shows "filter (\<lambda>v. v \<notin> set rows) (update_where P f rows) = [f a]" "filter P rows = [a]"
proof -
  obtain xs ys where rows: "rows = xs @ a # ys" using assms(1) by (auto dest: split_list)
  have others: "\<And>b. b \<in> set xs \<union> set ys \<Longrightarrow> \<not> P b" using assms(3,4) rows by auto
  then have "update_where P f rows = xs @ f a # ys"
    using assms(2) by (simp add: rows update_where_def map_idI)
  moreover have "filter (\<lambda>v. v \<notin> set rows) xs = []" "filter (\<lambda>v. v \<notin> set rows) ys = []" using rows by auto
  ultimately show "filter (\<lambda>v. v \<notin> set rows) (update_where P f rows) = [f a]" using assms(5) by simp
  show "filter P rows = [a]" using others assms(2) by (simp add: rows filter_empty_conv)
qed

lemma update_in_sight:
  assumes run: "update_balance aid d sc T = Inr (n, U)" and d: "d \<noteq> 0" and ok: "distinct (map a_id (accounts T))"
  shows "n = 0 \<and> U = T \<or> n = 1 \<and> (\<exists>a \<in> set (accounts T). a_id a = aid \<and> 0 \<le> sint (a_balance a) + sint d \<and>
      fits64 (sint (a_balance a) + sint d) \<and> users U = users T \<and> transactions U = transactions T \<and>
      audit_entries U = audit_entries T \<and>
      filter (\<lambda>v. v \<notin> set (accounts T)) (accounts U) = [a\<lparr>a_balance := a_balance a + d\<rparr>])"
proof -
  let ?P = "balance_hit aid d sc" and ?f = "\<lambda>a. a\<lparr>a_balance := a_balance a + d\<rparr>"
  have U: "U = T\<lparr>accounts := update_where ?P ?f (accounts T)\<rparr>" "n = length (filter ?P (accounts T))"
    and fits: "\<And>a. a \<in> set (accounts T) \<Longrightarrow> a_id a = aid \<Longrightarrow> fits64 (sint (a_balance a) + sint d)"
    using run by (auto simp: update_balance_def list_ex_iff split: if_splits)
  show ?thesis
  proof (cases "\<exists>a \<in> set (accounts T). ?P a")
    case False
    then have "update_where ?P ?f (accounts T) = accounts T" "filter ?P (accounts T) = []"
      by (auto intro: update_where_none simp: filter_empty_conv)
    then show ?thesis using U by simp
  next
    case True
    then obtain a where a: "a \<in> set (accounts T)" "?P a" by blast
    have uniq: "b = a" if "b \<in> set (accounts T)" "a_id b = aid" for b
      using that a ok by (auto simp: balance_hit_def distinct_map inj_on_def)
    have "?f a \<notin> set (accounts T)"
    proof
      assume "?f a \<in> set (accounts T)"
      from uniq [OF this] a(2) have "?f a = a" by (simp add: balance_hit_def)
      then have "a_balance (?f a) = a_balance a" by (rule arg_cong)
      then show False using d by simp
    qed
    moreover have "distinct (accounts T)" using ok by (simp add: distinct_map)
    ultimately have "filter (\<lambda>v. v \<notin> set (accounts T)) (update_where ?P ?f (accounts T)) = [?f a]" "filter ?P (accounts T) = [a]"
      by (intro one_version [of a "accounts T" ?P ?f] a; simp add: uniq balance_hit_def)+
    then show ?thesis using U a fits by (auto simp: balance_hit_def)
  qed
qed

section \<open>One statement in a transaction\<close>

text \<open>
  What a session has to keep when its own program goes on: the rest is typed from the new stage, the
  overlay stands there, and it stays apart from the overlays of the others.
\<close>

definition goes_on :: "overlay set \<Rightarrow> tables \<Rightarrow> ProcessTransactionResponse program \<Rightarrow> session_tx \<Rightarrow> bool" where
  "goes_on others T p tx \<longleftrightarrow> (\<exists>st known. obeys p st known \<and> stands T tx st \<and> knows T known) \<and>
     (\<forall>ov. tx = OpenTx ov \<longrightarrow> (\<forall>ov' \<in> others. apart ov ov'))"

lemma goes_onI:
  "obeys p st known \<Longrightarrow> stands T tx st \<Longrightarrow> knows T known \<Longrightarrow>
   (\<And>ov ov'. tx = OpenTx ov \<Longrightarrow> ov' \<in> others \<Longrightarrow> apart ov ov') \<Longrightarrow> goes_on others T p tx"
  by (auto simp: goes_on_def)

lemma apart_audit [simp]: "apart (ov\<lparr>ov_audit := es\<rparr>) ov' = apart ov ov'"
  by (simp add: apart_def)

lemma stands_audit:
  "stands T (OpenTx ov) st \<Longrightarrow>
   stands T (OpenTx (ov\<lparr>ov_audit := ov_audit ov @ [e]\<rparr>)) (after_audit e st)"
  by (cases st) (auto simp: accepted_entry_def)

lemma stands_same_audit: "stands T (OpenTx (ov\<lparr>ov_audit := ov_audit ov @ []\<rparr>)) st = stands T (OpenTx ov) st"
  by simp

lemma seen_sel [simp]:
  "users (seen T ov) = users T" "accounts (seen T ov) = map (newest (ov_accounts ov)) (accounts T)"
  "transactions (seen T ov) = transactions T @ ov_rows ov"
  "audit_entries (seen T ov) = audit_entries T @ ov_audit ov" "audit_seq (seen T ov) = audit_seq T"
  by (simp_all add: seen_def)

lemma read_goes_on:
  assumes q: "\<And>T. perform q T = Inr (f T, T)" and k: "obeys (k (f (seen T ov))) st known'"
    and run: "perform q (seen T ov) = Inr (r, U)"
    and st: "stands T (OpenTx ov) st" "knows T known'" "\<And>ov'. ov' \<in> others \<Longrightarrow> apart ov ov'"
  shows "goes_on others T (k r) (OpenTx (written (seen T ov) U ov))"
proof -
  have "r = f (seen T ov)" "U = seen T ov" using run [unfolded q] by auto
  then show ?thesis
    using k st by (intro goes_onI [of _ st known']) (auto simp: written_same)
qed

lemma perform_Affected:
  "perform (InsertTransaction row) T = Inr (r, U) \<longleftrightarrow> (\<exists>n. insert_transaction row T = Inr (n, U) \<and> r = Affected n)"
  "perform (UpdateBalance aid d sc) T = Inr (r, U) \<longleftrightarrow> (\<exists>n. update_balance aid d sc T = Inr (n, U) \<and> r = Affected n)"
  by (cases "insert_transaction row T"; force) (cases "update_balance aid d sc T"; force)

lemma statement_goes_on:
  assumes run: "perform q (seen T ov) = Inr (r, U)" and typed: "obeys (Exec True q k) st known"
    and st: "stands T (OpenTx ov) st" "knows T known" "core_ok T"
    and free: "\<And>ov'. ov' \<in> others \<Longrightarrow> \<not> waits q (seen T ov) ov'" "\<And>ov'. ov' \<in> others \<Longrightarrow> apart ov ov'"
  shows "goes_on others T (k r) (OpenTx (written (seen T ov) U ov))"
proof (cases q)
  case (SelectTransaction ref sc)
  show ?thesis
    by (rule read_goes_on [OF _ _ run st(1,2) free(2), where f = "\<lambda>T. TransactionRow (List.find (\<lambda>x. t_ref x = ref \<and> in_scope sc (t_owner_id x)) (transactions T))"])
       (use typed st(1) in \<open>auto simp: SelectTransaction select_transaction_def\<close>)
next
  case (SelectBalance aid sc)
  show ?thesis
    by (rule read_goes_on [OF _ _ run st(1,2) free(2), where f = "\<lambda>T. BalanceColumn (fst (projr (select_balance aid sc T)))"])
       (use typed st(1) in \<open>auto simp: SelectBalance select_balance_def\<close>)
next
  case (SelectAccount aid sc)
  let ?find = "\<lambda>T. List.find (\<lambda>a. a_id a = aid \<and> in_scope sc (a_owner_id a)) (accounts T)"
  obtain known' where k: "obeys (k (AccountRow (?find (seen T ov)))) st known'" "knows T known'"
  proof (cases "?find (seen T ov)")
    case None
    then show ?thesis using typed st that by (auto simp: SelectAccount)
  next
    case (Some v)
    then have "v \<in> set (accounts (seen T ov))" "a_id v = aid" by (auto simp: find_Some_iff)
    then obtain a where a: "a \<in> set (accounts T)" "v = newest (ov_accounts ov) a" by auto
    then have "(aid, a_owner_id v) = (a_id a, a_owner_id a)"
      using newest_identity [OF st(1,3) a(1)] \<open>a_id v = aid\<close> by simp
    then have "knows T (insert (aid, a_owner_id v) known)" using st(2) a(1) by (auto simp: knows_def)
    moreover have "obeys (k (AccountRow (Some v))) st (insert (aid, a_owner_id v) known)"
      using typed st(1) \<open>a_id v = aid\<close> by (auto simp: SelectAccount)
    ultimately show ?thesis using that Some by auto
  qed
  show ?thesis
    by (rule read_goes_on [where f = "\<lambda>T. AccountRow (?find T)" and k = k, OF _ k(1) run st(1) k(2) free(2)])
       (simp_all add: SelectAccount select_account_def)
next
  case (InsertAudit row)
  then obtain n e where r: "r = Identity n" "e = row\<lparr>e_id := n\<rparr>" and U: "users U = users T" "accounts U = accounts (seen T ov)"
    "transactions U = transactions (seen T ov)" "audit_entries U = audit_entries (seen T ov) @ [e]"
    using run by (auto simp: insert_audit_def split: if_splits)
  have "after_audit e st = after_audit row st" by (cases st) (simp_all add: r)
  then have "obeys (k r) (after_audit e st) known" using typed st(1) r by (auto simp: InsertAudit)
  moreover have "written (seen T ov) U ov = ov\<lparr>ov_audit := ov_audit ov @ [e]\<rparr>" using U by (simp add: written_same)
  ultimately show ?thesis using stands_audit [OF st(1)] st(2) free(2) by (auto intro!: goes_onI)
next
  case (InsertTransaction row)
  then have fresh: "st = Fresh" "ov_rows ov = []" "ov_accounts ov = []"
    "(t_account_id row, t_owner_id row) \<in> known" using typed st(1) by auto
  obtain n where n: "insert_transaction row (seen T ov) = Inr (n, U)" "r = Affected n"
    using run unfolding InsertTransaction perform_Affected by blast
  from n(1) consider "n = 0" "U = seen T ov"
    | "n = 1" "U = (seen T ov)\<lparr>transactions := transactions T @ [row]\<rparr>" "valid_kind (t_kind row)"
      "t_ref row \<notin> t_ref ` set (transactions T)" "t_id row \<notin> t_id ` set (transactions T)" "t_owner_id row \<in> u_id ` set (users T)"
    by (auto simp: insert_transaction_Inr fresh)
  then show ?thesis
  proof cases
    case 1
    then show ?thesis
      using typed st fresh n free(2) InsertTransaction by (intro goes_onI [of _ Fresh known]) (auto simp: written_same)
  next
    case 2
    obtain x where x: "row = row_of_transaction x" "obeys (k (Affected 1)) (Inserted x) known"
      using typed st(1) InsertTransaction fresh(1) by auto
    have w: "written (seen T ov) U ov = ov\<lparr>ov_rows := [row]\<rparr>"
      using fresh by (simp add: 2(2) written_def)
    have "(tr_AccountID x, tr_OwnerID x) \<in> (\<lambda>a. (a_id a, a_owner_id a)) ` set (accounts T)"
      using x(1) fresh(4) st(2) by (auto simp: knows_def)
    then have "\<exists>a \<in> set (accounts T). a_id a = tr_AccountID x \<and> a_owner_id a = tr_OwnerID x" by fastforce
    then have "insertable x T" using 2 x(1) by (simp add: insertable_def)
    moreover have "apart (ov\<lparr>ov_rows := [row]\<rparr>) ov'" if "ov' \<in> others" for ov'
      using free(1) [OF that] n(1) 2(1) fresh by (auto simp: InsertTransaction apart_def list_ex_iff)
    ultimately show ?thesis
      using x n(2) 2(1) st(2) fresh w by (intro goes_onI [of _ "Inserted x" known]) auto
  qed
next
  case (UpdateBalance aid d sc)
  then obtain x where x: "st = Inserted x" "aid = tr_AccountID x" "d = tr_Points x" "d \<noteq> 0"
    "obeys (k (Affected 0)) st known" "obeys (k (Affected 1)) (Applied x) known" using typed st(1) by auto
  then have ov: "ov_rows ov = [row_of_transaction x]" "ov_accounts ov = []" "insertable x T" using st(1) by auto
  obtain n where n: "update_balance aid d sc (seen T ov) = Inr (n, U)" "r = Affected n"
    using run unfolding UpdateBalance perform_Affected by blast
  have "distinct (map a_id (accounts (seen T ov)))" using st(3) ov by (simp add: core_ok_def accounts_ok_def)
  from update_in_sight [OF n(1) x(4) this] consider "n = 0" "U = seen T ov"
    | a where "n = 1" "a \<in> set (accounts T)" "a_id a = aid" "0 \<le> sint (a_balance a) + sint d"
      "fits64 (sint (a_balance a) + sint d)" "transactions U = transactions (seen T ov)"
      "audit_entries U = audit_entries (seen T ov)"
      "filter (\<lambda>v. v \<notin> set (accounts T)) (accounts U) = [a\<lparr>a_balance := a_balance a + d\<rparr>]"
    using ov by auto
  then show ?thesis
  proof cases
    case 1
    then show ?thesis
      using x n st free(2) by (intro goes_onI [of _ "Inserted x" known]) (auto simp: written_same)
  next
    case (2 a)
    have w: "written (seen T ov) U ov = ov\<lparr>ov_accounts := [a\<lparr>a_balance := a_balance a + d\<rparr>]\<rparr>"
      using 2(6-8) ov by (simp add: written_def)
    have "apart (ov\<lparr>ov_accounts := [a\<lparr>a_balance := a_balance a + d\<rparr>]\<rparr>) ov'" if "ov' \<in> others" for ov'
      using free [OF that] n(1) 2(1,3) ov by (auto simp: UpdateBalance apart_def list_ex_iff)
    then show ?thesis
      using x n(2) 2 st(2) ov w by (intro goes_onI [of _ "Applied x" known]) (auto simp: moved_version_def)
  qed
qed

section \<open>What a step does to the committed tables\<close>

text \<open>
  The abstract ledger under concurrency: a step either posts one transaction (\<open>posts\<close>, the abstract
  step of \<open>WalletLedger\<close>), or leaves the rows and balances as they are, but for new empty accounts.
\<close>

definition keeps_balances :: "tables \<Rightarrow> tables \<Rightarrow> bool" where
  "keeps_balances T T' \<longleftrightarrow> transactions T' = transactions T \<and>
     (\<exists>new. map (\<lambda>a. (a_id a, a_balance a)) (accounts T') =
        map (\<lambda>a. (a_id a, a_balance a)) (accounts T) @ map (\<lambda>i. (i, 0)) new)"

definition ledger_step :: "tables \<Rightarrow> tables \<Rightarrow> bool" where
  "ledger_step T T' \<longleftrightarrow> keeps_balances T T' \<or> (\<exists>x b. posts x b T T')"

lemma keeps_same: "accounts T' = accounts T \<Longrightarrow> transactions T' = transactions T \<Longrightarrow> ledger_step T T'"
  unfolding ledger_step_def keeps_balances_def by (intro disjI1 conjI exI [of _ "[]"]) simp_all

lemma core_same: "users T' = users T \<Longrightarrow> accounts T' = accounts T \<Longrightarrow> transactions T' = transactions T \<Longrightarrow> core_ok T' = core_ok T"
  by (simp add: core_ok_def users_ok_def accounts_ok_def transactions_ok_def)

lemma audited_append:
  assumes "audited T" "transactions T' = transactions T @ xs" "set (audit_entries T) \<subseteq> set (audit_entries T')"
    and "\<And>x. x \<in> set xs \<Longrightarrow> list_ex (accepted_entry (t_ref x)) (audit_entries T')"
  shows "audited T'"
proof -
  have "list_ex (accepted_entry (t_ref x)) (audit_entries T')" if x: "x \<in> set (transactions T')" for x
  proof (cases "x \<in> set xs")
    case False
    with x assms(1,2) have "list_ex (accepted_entry (t_ref x)) (audit_entries T)"
      by (simp add: audited_def list_all_iff)
    then show ?thesis using assms(3) by (meson list_ex_iff subsetD)
  qed (rule assms(4))
  then show ?thesis by (simp add: audited_def list_all_iff)
qed

lemma sound_same:
  assumes "users T' = users T" "accounts T' = accounts T" "transactions T' = transactions T"
    and "set (audit_entries T) \<subseteq> set (audit_entries T')" "sound T"
  shows "sound T'"
  using assms core_same [OF assms(1-3)] audited_append [of T T' "[]"]
  by (simp add: sound_def balanced_def)

lemma posts_core:
  assumes p: "posts x b T T'" and "insertable x T" "core_ok T"
  shows "core_ok T'"
proof -
  have T': "users T' = users T" "transactions T' = transactions T @ [row_of_transaction x]"
    "accounts T' = update_where (\<lambda>a. a_id a = tr_AccountID x) (\<lambda>a. a\<lparr>a_balance := a_balance a + tr_Points x\<rparr>) (accounts T)"
    using p by (simp_all add: posts_def)
  have ids: "map a_id (accounts T') = map a_id (accounts T)" by (simp add: T')
  have "0 \<le> sint (a_balance a + tr_Points x)" if "a \<in> set (accounts T)" "a_id a = tr_AccountID x" for a
  proof -
    obtain c where c: "c \<in> set (accounts T)" "a_id c = tr_AccountID x" "0 \<le> sint (a_balance c) + sint (tr_Points x)"
      "fits64 (sint (a_balance c) + sint (tr_Points x))" using p by (auto simp: posts_def)
    then have "a = c" using that assms(3) by (auto simp: core_ok_def accounts_ok_def distinct_map inj_on_def)
    then show ?thesis using c by (simp add: sint_add_fits)
  qed
  then have "accounts_ok T'"
    using assms(3) ids by (auto simp: core_ok_def accounts_ok_def T'(1) list_all_iff T'(3) set_update_where)
  moreover have "transactions_ok T'"
  proof -
    have "set (map a_id (accounts T')) = set (map a_id (accounts T))" by (simp only: ids)
    moreover have "tr_AccountID x \<in> a_id ` set (accounts T)"
      using assms(2) unfolding insertable_def by (metis imageI)
    ultimately show ?thesis
      using assms(2,3) by (auto simp: core_ok_def transactions_ok_def T'(1,2) insertable_def list_all_iff)
  qed
  moreover have "users_ok T'" using assms(3) by (simp add: core_ok_def users_ok_def T')
  ultimately show ?thesis by (simp add: core_ok_def)
qed

lemma posts_sound:
  assumes p: "posts x b T T'" and "insertable x T" "sound T"
    and "set (audit_entries T) \<subseteq> set (audit_entries T')" "list_ex (accepted_entry (tr_Ref x)) (audit_entries T')"
  shows "sound T'"
proof -
  have "balanced T'" using balanced_posts [OF p] assms(3) by (simp add: sound_def core_ok_def)
  moreover have "transactions T' = transactions T @ [row_of_transaction x]" using p by (simp add: posts_def)
  then have "audited T'" using assms(3-5) by (auto intro: audited_append [of T T' "[row_of_transaction x]"] simp: sound_def)
  ultimately show ?thesis using posts_core [OF p assms(2)] assms(3) by (simp add: sound_def)
qed

lemma commit_posts:
  assumes "stands T (OpenTx ov) (Recorded x)" "core_ok T"
  shows "\<exists>b. posts x b T (seen T ov)"
proof -
  from assms(1) obtain a where a: "a \<in> set (accounts T)" "a_id a = tr_AccountID x"
    "0 \<le> sint (a_balance a) + sint (tr_Points x)" "fits64 (sint (a_balance a) + sint (tr_Points x))"
    "ov_accounts ov = [a\<lparr>a_balance := a_balance a + tr_Points x\<rparr>]" and ins: "insertable x T"
    and rows: "ov_rows ov = [row_of_transaction x]"
    by (auto simp: moved_version_def)
  have uniq: "c = a" if "c \<in> set (accounts T)" "a_id c = tr_AccountID x" for c
    using that a assms(2) by (auto simp: core_ok_def accounts_ok_def distinct_map inj_on_def)
  have "map (newest (ov_accounts ov)) (accounts T) =
      update_where (\<lambda>c. a_id c = tr_AccountID x) (\<lambda>c. c\<lparr>a_balance := a_balance c + tr_Points x\<rparr>) (accounts T)"
    unfolding update_where_def
  proof (rule map_cong [OF refl])
    fix c
    assume "c \<in> set (accounts T)"
    then show "newest (ov_accounts ov) c = (if a_id c = tr_AccountID x then c\<lparr>a_balance := a_balance c + tr_Points x\<rparr> else c)"
      using a(2,5) uniq [of c] by (simp add: newest_def)
  qed
  moreover have "a_owner_id a = tr_OwnerID x" using ins uniq unfolding insertable_def by blast
  ultimately have "posts x (a_balance a + tr_Points x) T (seen T ov)"
    unfolding posts_def using a ins rows by (simp add: insertable_def) blast
  then show ?thesis ..
qed

lemma commit_effect:
  assumes st: "stands T (OpenTx ov) st" "st = Fresh \<or> (\<exists>x. st = Recorded x)" and ok: "sound T"
  shows "sound (seen T ov)" "ledger_step T (seen T ov)" "apart ov ov' \<Longrightarrow> rely ov' T (seen T ov)"
proof -
  have all: "sound (seen T ov) \<and> ledger_step T (seen T ov) \<and> (apart ov ov' \<longrightarrow> rely ov' T (seen T ov))"
  proof (cases "st = Fresh")
    case True
    then have "ov_rows ov = []" "ov_accounts ov = []" using st(1) by simp_all
    then show ?thesis using ok by (auto intro!: sound_same [of "seen T ov" T] keeps_same rely_same)
  next
    case False
    then obtain x where x: "stands T (OpenTx ov) (Recorded x)" using st by auto
    have core: "core_ok T" using ok by (simp add: sound_def)
    from commit_posts [OF x core] obtain b where p: "posts x b T (seen T ov)" ..
    have "sound (seen T ov)" by (rule posts_sound [OF p _ ok]) (use x in auto)
    moreover have "rely ov' T (seen T ov)" if ap: "apart ov ov'"
    proof -
      have "a_id (newest (ov_accounts ov) a) = a_id a \<and> a_owner_id (newest (ov_accounts ov) a) = a_owner_id a \<and>
          (a_id a \<in> a_id ` set (ov_accounts ov') \<longrightarrow> newest (ov_accounts ov) a = a)" if a: "a \<in> set (accounts T)" for a
        using newest_identity [OF x core a] ap x by (auto simp: apart_def moved_version_def newest_def)
      moreover have "t_ref (row_of_transaction x) \<noteq> t_ref y \<and> t_id (row_of_transaction x) \<noteq> t_id y"
        if "y \<in> set (ov_rows ov')" for y using that ap x by (auto simp: apart_def)
      ultimately show ?thesis using x unfolding rely_def by auto
    qed
    ultimately show ?thesis using p by (auto simp: ledger_step_def)
  qed
  then show "sound (seen T ov)" "ledger_step T (seen T ov)" "apart ov ov' \<Longrightarrow> rely ov' T (seen T ov)" by blast+
qed

section \<open>Every step of a session\<close>

lemma perform_Inl: "bind_text (params q) (perform q) T = Inl e \<Longrightarrow> driver_error e"
  by (cases q) (auto simp: bind_text_def map_sum_def insert_audit_def insert_transaction_def update_balance_def
      select_transaction_def select_account_def select_balance_def split: if_splits sum.splits)

lemma bound_perform: "bind_text (params q) (perform q) T = Inr z \<Longrightarrow> perform q T = Inr z"
  by (simp add: bind_text_def split: if_splits)

text \<open>On the pool a typed program only reads and audits.\<close>

lemma pool_goes_on:
  assumes run: "perform q T = Inr (r, U)" and typed: "obeys (Exec False q k) st known"
    and st: "stands T tx st" "knows T known"
  shows "goes_on others U (k r) tx \<and> users U = users T \<and> accounts U = accounts T \<and> transactions U = transactions T \<and>
    set (audit_entries T) \<subseteq> set (audit_entries U)"
proof -
  have idle: "st = Idle" "tx = NoTx" using typed st(1) by (cases tx; simp)+
  have reads: ?thesis if "U = T" "obeys (k r) Idle known'" "knows T known'" for known'
    using that idle by (auto intro!: goes_onI)
  show ?thesis
  proof (cases q)
    case (SelectAccount aid sc)
    show ?thesis
    proof (cases "List.find (\<lambda>a. a_id a = aid \<and> in_scope sc (a_owner_id a)) (accounts T)")
      case None
      then show ?thesis using run typed idle st(2) by (intro reads [of known]) (auto simp: SelectAccount select_account_def)
    next
      case (Some a)
      then have "a \<in> set (accounts T)" "a_id a = aid" by (auto simp: find_Some_iff)
      then have "knows T (insert (aid, a_owner_id a) known)" using st(2) by (auto simp: knows_def)
      then show ?thesis
        using run typed idle Some \<open>a_id a = aid\<close>
        by (intro reads [of "insert (aid, a_owner_id a) known"]) (auto simp: SelectAccount select_account_def)
    qed
  next
    case (InsertAudit row)
    then show ?thesis
      using run typed idle st(2) by (auto simp: insert_audit_def knows_def intro!: goes_onI split: if_splits)
  next
    case (SelectTransaction ref sc)
    then show ?thesis using run typed idle st(2) by (intro reads [of known]) (auto simp: select_transaction_def)
  next
    case (SelectBalance aid sc)
    then show ?thesis using run typed idle st(2) by (intro reads [of known]) (auto simp: select_balance_def)
  qed (use typed idle in auto)
qed

definition guarantees :: "overlay set \<Rightarrow> tables \<Rightarrow> tables \<Rightarrow> bool" where
  "guarantees others T T' \<longleftrightarrow> sound T' \<and> ledger_step T T' \<and> (\<forall>ov \<in> insert empty_overlay others. rely ov T T')"

lemma guarantees_same:
  "sound T \<Longrightarrow> users T' = users T \<Longrightarrow> accounts T' = accounts T \<Longrightarrow> transactions T' = transactions T \<Longrightarrow>
   set (audit_entries T) \<subseteq> set (audit_entries T') \<Longrightarrow> guarantees others T T'"
  unfolding guarantees_def by (metis sound_same keeps_same rely_same)

lemma guarantees_refl: "sound T \<Longrightarrow> guarantees others T T" "sound T \<Longrightarrow> guarantees others T (T\<lparr>audit_seq := n\<rparr>)"
  by (rule guarantees_same; simp)+

lemma guarantees_commit:
  assumes "stands T (OpenTx ov) st" "st = Fresh \<or> (\<exists>x. st = Recorded x)" "sound T" "\<And>ov'. ov' \<in> others \<Longrightarrow> apart ov ov'"
  shows "guarantees others T (seen T ov)"
proof -
  have "apart ov empty_overlay" by (simp add: apart_def empty_overlay_def)
  then show ?thesis unfolding guarantees_def using commit_effect [OF assms(1-3)] assms(4) by blast
qed

lemma acts_sound:
  assumes step: "acts others T p tx T' p' tx'"
    and typed: "obeys p st known" "stands T tx st" "knows T known" "sound T"
    and ap: "\<And>ov ov'. tx = OpenTx ov \<Longrightarrow> ov' \<in> others \<Longrightarrow> apart ov ov'"
  shows "goes_on others T' p' tx' \<and> guarantees others T T'"
  using step
proof cases
  case (acts_clock k t)
  then show ?thesis using typed ap by (auto intro!: goes_onI guarantees_refl)
next
  case (acts_uuid k u)
  then show ?thesis using typed ap by (auto intro!: goes_onI guarantees_refl)
next
  case (acts_begin k)
  then have "obeys (k None) Fresh known" using typed by (auto dest: spec [of _ None])
  then show ?thesis using acts_begin typed
    by (auto intro!: goes_onI [of _ Fresh known] guarantees_refl simp: empty_overlay_def apart_def)
next
  case (acts_in_tx q ov r U k)
  have "goes_on others T (k r) (OpenTx (written (seen T ov) U ov))"
    using acts_in_tx typed ap by (intro statement_goes_on [of q T ov r U k st known]) (auto simp: sound_def dest: bound_perform)
  then show ?thesis using acts_in_tx typed by (auto simp: goes_on_def intro: guarantees_refl)
next
  case (acts_in_tx_refused q ov e k)
  then have "obeys p' Broken known" using typed perform_Inl by auto
  then show ?thesis using acts_in_tx_refused typed by (auto intro!: goes_onI guarantees_refl)
next
  case (acts_in_broken q k)
  then have "obeys p' Broken known" using typed by auto
  then show ?thesis using acts_in_broken typed by (auto intro!: goes_onI guarantees_refl)
next
  case (acts_without_tx q k)
  then show ?thesis using typed by auto
next
  case (acts_on_pool q r k)
  have *: "goes_on others T' (k r) tx \<and> users T' = users T \<and> accounts T' = accounts T \<and>
      transactions T' = transactions T \<and> set (audit_entries T) \<subseteq> set (audit_entries T')"
    using acts_on_pool typed by (intro pool_goes_on [of q T r T' k st known]) (auto dest: bound_perform)
  then show ?thesis using acts_on_pool typed(4) by (auto intro: guarantees_same)
next
  case (acts_on_pool_refused q e k)
  then have "st = Idle" "obeys p' Idle known" using typed perform_Inl by auto
  then show ?thesis using acts_on_pool_refused typed ap by (auto intro!: goes_onI guarantees_refl)
next
  case (acts_commit k ov)
  then have st: "st = Fresh \<or> (\<exists>x. st = Recorded x)" and on: "obeys p' (after_commit st) known"
    using typed by (auto dest: spec [of _ None])
  have g: "guarantees others T (seen T ov)"
    using guarantees_commit [of T ov st] acts_commit typed st ap by auto
  then have "knows (seen T ov) known" using typed(3) rely_knows [of T known empty_overlay] by (auto simp: guarantees_def)
  moreover have "stands (seen T ov) NoTx (after_commit st)" using st typed(2) acts_commit by auto
  ultimately show ?thesis using g on acts_commit by (auto intro: goes_onI)
next
  case (acts_commit_broken k)
  then show ?thesis using typed by (auto intro!: goes_onI guarantees_refl)
next
  case (acts_commit_none k)
  then show ?thesis using typed by (auto intro!: goes_onI guarantees_refl)
next
  case (acts_rollback k)
  then show ?thesis using typed by (auto intro!: goes_onI guarantees_refl)
qed

lemma fails_sound:
  assumes step: "fails others T p tx T' p' tx'"
    and typed: "obeys p st known" "stands T tx st" "knows T known" "sound T"
    and ap: "\<And>ov ov'. tx = OpenTx ov \<Longrightarrow> ov' \<in> others \<Longrightarrow> apart ov ov'"
  shows "goes_on others T' p' tx' \<and> guarantees others T T'"
  using step
proof cases
  case (fails_begin k m)
  then have "obeys p' Idle known" using typed by (auto dest: spec [of _ "Some (Plain m)"])
  then show ?thesis using fails_begin typed by (auto intro!: goes_onI guarantees_refl)
next
  case (fails_in_tx q k ov m)
  then have "obeys p' Broken known" using typed by auto
  then show ?thesis using fails_in_tx typed by (auto intro!: goes_onI guarantees_refl)
next
  case (fails_in_tx_reply q ov r U k m)
  then have "obeys p' Broken known" using typed by auto
  then show ?thesis using fails_in_tx_reply typed by (auto intro!: goes_onI guarantees_refl)
next
  case (fails_on_pool q k m)
  then have "st = Idle" "obeys p' Idle known" using typed by auto
  then show ?thesis using fails_on_pool typed ap by (auto intro!: goes_onI guarantees_refl)
next
  case (fails_on_pool_reply q r k m)
  then have idle: "st = Idle" "obeys p' Idle known" using typed by auto
  have same: "users T' = users T \<and> accounts T' = accounts T \<and>
      transactions T' = transactions T \<and> set (audit_entries T) \<subseteq> set (audit_entries T')"
    using fails_on_pool_reply typed pool_goes_on [of q T r T' k st known tx] by (auto dest: bound_perform)
  then have "stands T' tx Idle" "knows T' known" using typed(2,3) idle by (cases tx; simp add: knows_def)+
  then show ?thesis using fails_on_pool_reply typed same idle ap
    by (auto intro!: goes_onI [of _ Idle known] intro: guarantees_same)
next
  case (fails_commit k ov m)
  then show ?thesis using typed by (auto intro!: goes_onI guarantees_refl)
next
  case (fails_commit_reply k ov m)
  then have "acts others T (Commit k) (OpenTx ov) T' (k None) NoTx" by (auto intro: acts_commit)
  from acts_sound [OF this] have g: "guarantees others T T'" using typed ap fails_commit_reply by blast
  then have "knows T' known" using typed(3) rely_knows [of T known empty_overlay] by (auto simp: guarantees_def)
  then show ?thesis using g fails_commit_reply typed by (auto intro!: goes_onI)
next
  case (fails_rollback k m)
  then show ?thesis using typed by (auto intro!: goes_onI guarantees_refl)
next
  case (fails_crash m)
  then show ?thesis using typed by (auto intro!: goes_onI [of _ Idle known] guarantees_refl)
qed

text \<open>Requests elsewhere.\<close>

lemma rely_accounts:
  assumes "users T' = users T" "transactions T' = transactions T"
    and "\<And>a. a \<in> set (accounts T) \<Longrightarrow> \<exists>a' \<in> set (accounts T'). a_id a' = a_id a \<and> a_owner_id a' = a_owner_id a \<and>
        (a_id a \<in> a_id ` set (ov_accounts ov) \<longrightarrow> a' = a)"
  shows "rely ov T T'"
  using assms by (simp add: rely_def)

lemma elsewhere_sound:
  assumes step: "elsewhere others T T'" and ok: "sound T"
  shows "guarantees others T T'"
  using step
proof cases
  case (new_user row x)
  then have T': "T' = T\<lparr>users := users T @ [row\<lparr>u_token_version := 0\<rparr>]\<rparr>" "u_id row \<notin> u_id ` set (users T)"
    "u_email row \<notin> u_email ` set (users T)" "valid_role (u_role row)"
    by (auto simp: insert_user_def list_ex_iff split: if_splits)
  then have "core_ok T'" using ok
    by (auto simp: sound_def core_ok_def users_ok_def accounts_ok_def transactions_ok_def list_all_iff)
  then have "sound T'" using ok T'(1) by (simp add: sound_def balanced_def audited_def)
  then show ?thesis using T'(1) by (auto simp: guarantees_def rely_def intro: keeps_same)
next
  case (new_account row x)
  then have T': "T' = T\<lparr>accounts := accounts T @ [row]\<rparr>" "a_id row \<notin> a_id ` set (accounts T)"
    "a_owner_id row \<in> u_id ` set (users T)" by (auto simp: insert_account_Inr)
  have "core_ok T'" using ok T' new_account(2)
    by (auto simp: sound_def core_ok_def users_ok_def accounts_ok_def transactions_ok_def list_all_iff)
  moreover have "t_account_id y \<noteq> a_id row" if y: "y \<in> set (transactions T)" for y
  proof -
    have "t_account_id y \<in> a_id ` set (accounts T)"
      using ok y by (simp add: sound_def core_ok_def transactions_ok_def list_all_iff)
    with T'(2) show ?thesis by metis
  qed
  then have "filter (\<lambda>y. t_account_id y = a_id row) (transactions T) = []" by simp
  then have "balanced T'" using ok T'(1) new_account(2) by (simp add: sound_def balanced_def posted_def)
  moreover have "audited T'" using ok T'(1) by (simp add: sound_def audited_def)
  moreover have "ledger_step T T'"
    unfolding ledger_step_def keeps_balances_def using T'(1) new_account(2)
    by (intro disjI1 conjI exI [of _ "[a_id row]"]) simp_all
  ultimately show ?thesis using T'(1) by (auto simp: guarantees_def sound_def intro!: rely_accounts)
next
  case (renamed aid nm sc y)
  let ?P = "\<lambda>a. a_id a = aid \<and> in_scope sc (a_owner_id a)" and ?f = "\<lambda>a. a\<lparr>a_name := nm\<rparr>"
  have T': "T' = T\<lparr>accounts := update_where ?P ?f (accounts T)\<rparr>"
    using renamed(1) by (auto simp: update_name_def Let_def)
  have same: "map a_id (accounts T') = map a_id (accounts T)" "map a_owner_id (accounts T') = map a_owner_id (accounts T)"
    "map a_balance (accounts T') = map a_balance (accounts T)"
    "map (\<lambda>a. (a_id a, a_balance a)) (accounts T') = map (\<lambda>a. (a_id a, a_balance a)) (accounts T)" by (simp_all add: T')
  have "set (map a_id (accounts T')) = set (map a_id (accounts T))" by (simp only: same)
  then have "core_ok T'" using ok same(1)
    by (auto simp: sound_def core_ok_def users_ok_def accounts_ok_def transactions_ok_def list_all_iff T' set_update_where)
  moreover have "balanced T'" using ok by (auto simp: sound_def balanced_def T' list_all_iff set_update_where)
  moreover have "audited T'" using ok by (simp add: sound_def audited_def T')
  moreover have "ledger_step T T'"
    unfolding ledger_step_def keeps_balances_def using same(4) by (intro disjI1 conjI exI [of _ "[]"]) (simp_all add: T')
  moreover have "rely ov T T'" if ov: "ov \<in> insert empty_overlay others" for ov
  proof (rule rely_accounts)
    fix a
    assume a: "a \<in> set (accounts T)"
    have free: "\<not> ?P a" if "a_id a \<in> a_id ` set (ov_accounts ov)"
    proof (cases "ov = empty_overlay")
      case False
      then show ?thesis using that ov renamed(2) unfolding list_ex_iff by (metis imageE insertE)
    qed (use that in \<open>simp add: empty_overlay_def\<close>)
    have "(if ?P a then ?f a else a) \<in> set (accounts T')" using a by (auto simp: T' set_update_where)
    then show "\<exists>a' \<in> set (accounts T'). a_id a' = a_id a \<and> a_owner_id a' = a_owner_id a \<and>
        (a_id a \<in> a_id ` set (ov_accounts ov) \<longrightarrow> a' = a)"
      using free by (intro bexI) auto
  qed (simp_all add: T')
  ultimately show ?thesis by (simp add: guarantees_def sound_def)
next
  case (logged_out uid z)
  then obtain us where T': "T' = T\<lparr>users := us\<rparr>" "map u_id us = map u_id (users T)"
    "map u_email us = map u_email (users T)" "map u_role us = map u_role (users T)"
    by (auto simp: increment_token_version_def Let_def split: if_splits)
  have ids: "set (map u_id us) = set (map u_id (users T))" by (simp only: T')
  have "list_all valid_role (map u_role us) = list_all valid_role (map u_role (users T))" by (simp only: T'(4))
  then have roles: "list_all (\<lambda>u. valid_role (u_role u)) us = list_all (\<lambda>u. valid_role (u_role u)) (users T)"
    by (simp only: list.pred_map o_def)
  have "core_ok T'" using ok T' ids
    by (simp add: sound_def core_ok_def users_ok_def accounts_ok_def transactions_ok_def roles)
  then have "sound T'" using ok T'(1) by (simp add: sound_def balanced_def audited_def)
  moreover have "rely ov T T'" for ov using ids T'(1) by (auto simp: rely_def)
  ultimately show ?thesis using T'(1) by (auto simp: guarantees_def intro: keeps_same)
qed

end
