(* ===== verification/ConcurrencyProperties.thy ===== *)
theory ConcurrencyProperties
  imports ConcurrencySafety
begin

text \<open>
  The properties of the interleaved system: the ledger stays sound and every commit is one posting; an
  accepted answer is backed by a committed row; requests neither block each other for ever nor run
  without end. They hold for every number of sessions, every interleaving, every driver failure and
  every crash.
\<close>

section \<open>The invariant of the system\<close>

definition sys_ok :: "system \<Rightarrow> bool" where
  "sys_ok s \<longleftrightarrow> sound (sy_db s) \<and>
     (\<forall>i. goes_on (others_of i s) (sy_db s) (se_program (sy_sessions s i)) (se_tx (sy_sessions s i)))"

lemma others_put [simp]: "others_of i (put i T p tx s) = others_of i s"
  unfolding others_of_def using put_sel(3) by (metis (no_types, opaque_lifting))

lemma others_put_other:
  "ov \<in> others_of j (put i T p tx s) \<Longrightarrow> j \<noteq> i \<Longrightarrow> tx = OpenTx ov \<or> ov \<in> others_of j s"
  unfolding others_of_def by (auto simp: put_def split: if_splits)

text \<open>A session that did not move keeps its part of the invariant.\<close>

lemma goes_on_rely:
  assumes "goes_on others T p tx" "guarantees (insert_open tx) T T'"
    and "insert_open = (\<lambda>tx. case tx of OpenTx ov \<Rightarrow> {ov} | _ \<Rightarrow> {})"
    and "\<And>ov ov'. tx = OpenTx ov \<Longrightarrow> ov' \<in> others' \<Longrightarrow> apart ov ov'"
  shows "goes_on others' T' p tx"
proof -
  obtain st known where st: "obeys p st known" "stands T tx st" "knows T known"
    using assms(1) by (auto simp: goes_on_def)
  have rely: "rely empty_overlay T T'" "\<And>ov. tx = OpenTx ov \<Longrightarrow> rely ov T T'"
    using assms(2,3) by (auto simp: guarantees_def)
  then have "stands T' tx st"
    using rely_stands rely_stands_closed st(2) by (cases tx) blast+
  then show ?thesis using st(1) rely_knows [OF st(3) rely(1)] assms(4) by (auto intro: goes_onI)
qed

lemma guarantees_mono: "guarantees others T T' \<Longrightarrow> others' \<subseteq> others \<Longrightarrow> guarantees others' T T'"
  by (auto simp: guarantees_def)

lemma put_ok:
  assumes ok: "sys_ok s" and mine: "goes_on (others_of i s) T' p tx" and g: "guarantees (others_of i s) (sy_db s) T'"
  shows "sys_ok (put i T' p tx s)"
proof -
  have "goes_on (others_of j (put i T' p tx s)) T' (se_program (sy_sessions s j)) (se_tx (sy_sessions s j))" if j: "j \<noteq> i" for j
  proof (rule goes_on_rely [OF _ _ refl])
    show "goes_on (others_of j s) (sy_db s) (se_program (sy_sessions s j)) (se_tx (sy_sessions s j))"
      using ok by (simp add: sys_ok_def)
    show "guarantees (case se_tx (sy_sessions s j) of OpenTx ov \<Rightarrow> {ov} | _ \<Rightarrow> {}) (sy_db s) T'"
      by (rule guarantees_mono [OF g]) (use j in \<open>auto simp: others_of_def split: session_tx.splits\<close>)
  next
    fix ov ov'
    assume ov: "se_tx (sy_sessions s j) = OpenTx ov" and "ov' \<in> others_of j (put i T' p tx s)"
    from others_put_other [OF this(2) j] show "apart ov ov'"
    proof
      assume "tx = OpenTx ov'"
      moreover have "ov \<in> others_of i s" using ov j by (auto simp: others_of_def)
      ultimately show "apart ov ov'" using mine apart_sym by (auto simp: goes_on_def)
    next
      assume "ov' \<in> others_of j s"
      then show "apart ov ov'" using ok ov by (auto simp: sys_ok_def goes_on_def)
    qed
  qed
  then show ?thesis
    using mine g by (auto simp: sys_ok_def guarantees_def) (metis others_put put_sel(2,3) session.select_convs)
qed

lemma goes_onD:
  "sys_ok s \<Longrightarrow> \<exists>st known. obeys (se_program (sy_sessions s i)) st known \<and>
     stands (sy_db s) (se_tx (sy_sessions s i)) st \<and> knows (sy_db s) known \<and>
     (\<forall>ov ov'. se_tx (sy_sessions s i) = OpenTx ov \<longrightarrow> ov' \<in> others_of i s \<longrightarrow> apart ov ov')"
  unfolding sys_ok_def goes_on_def by blast

lemma sys_step_ok:
  assumes "sys_step s s'" "sys_ok s"
  shows "sys_ok s' \<and> ledger_step (sy_db s) (sy_db s')"
  using assms(1)
proof cases
  case (step_works i)
  from this obtain T p tx where a: "s' = put i T p tx s"
    "acts (others_of i s) (sy_db s) (se_program (sy_sessions s i)) (se_tx (sy_sessions s i)) T p tx"
    by (auto elim: works.cases)
  have "goes_on (others_of i s) T p tx \<and> guarantees (others_of i s) (sy_db s) T"
    using acts_sound [OF a(2)] goes_onD [OF assms(2)] assms(2) unfolding sys_ok_def by metis
  then show ?thesis using put_ok [OF assms(2)] a(1) by (auto simp: guarantees_def)
next
  case (step_fails i T p tx)
  have "goes_on (others_of i s) T p tx \<and> guarantees (others_of i s) (sy_db s) T"
    using fails_sound [OF step_fails(2)] goes_onD [OF assms(2)] assms(2) unfolding sys_ok_def by metis
  then show ?thesis using put_ok [OF assms(2)] step_fails(1) by (auto simp: guarantees_def)
next
  case (step_request i r ctx request)
  have "goes_on (others_of i s) (sy_db s) (ProcessTransaction_program ctx request) NoTx"
    using process_program_typed [OF step_request(3)] by (intro goes_onI) (auto simp: knows_def)
  moreover have "guarantees (others_of i s) (sy_db s) (sy_db s)"
    using assms(2) by (intro guarantees_refl) (simp add: sys_ok_def)
  ultimately show ?thesis using put_ok [OF assms(2)] step_request(1) by (auto simp: guarantees_def)
next
  case (step_elsewhere T)
  let ?all = "{ov. \<exists>i. se_tx (sy_sessions s i) = OpenTx ov}"
  have g: "guarantees ?all (sy_db s) T"
    using elsewhere_sound [OF step_elsewhere(2)] assms(2) by (simp add: sys_ok_def)
  have "others_of i s' = others_of i s" for i by (simp add: others_of_def step_elsewhere(1))
  moreover have "goes_on (others_of i s) T (se_program (sy_sessions s i)) (se_tx (sy_sessions s i))" for i
  proof (rule goes_on_rely [OF _ _ refl])
    show "goes_on (others_of i s) (sy_db s) (se_program (sy_sessions s i)) (se_tx (sy_sessions s i))"
      using assms(2) by (simp add: sys_ok_def)
    show "guarantees (case se_tx (sy_sessions s i) of OpenTx ov \<Rightarrow> {ov} | _ \<Rightarrow> {}) (sy_db s) T"
      by (rule guarantees_mono [OF g]) (auto split: session_tx.splits)
    show "se_tx (sy_sessions s i) = OpenTx ov \<Longrightarrow> ov' \<in> others_of i s \<Longrightarrow> apart ov ov'" for ov ov'
      using goes_onD [OF assms(2), of i] by blast
  qed
  ultimately show ?thesis using g step_elsewhere(1) by (simp add: sys_ok_def guarantees_def)
qed

lemma start_ok: "sound T \<Longrightarrow> sys_ok (start_system T)"
  by (auto simp: sys_ok_def start_system_def knows_def intro!: goes_onI [of _ Idle "{}"])

lemma reachable_ok: "sys_step\<^sup>*\<^sup>* (start_system T) s \<Longrightarrow> sound T \<Longrightarrow> sys_ok s"
  by (induction rule: rtranclp_induct) (auto simp: start_ok dest: sys_step_ok)

section \<open>The ledger\<close>

text \<open>
  C5: Whatever requests run at the same time, however their statements interleave, whatever the driver
  loses and whichever process dies: the committed ledger stays sound. Every balance is the sum of the
  committed postings of its account and is never negative, a ref occurs once, and every posting has its
  accepted audit row.
\<close>

theorem concurrent_ledger_sound:
  assumes "sys_step\<^sup>*\<^sup>* (start_system T) s" "sound T"
  shows "sound (sy_db s) \<and> distinct (map t_ref (transactions (sy_db s))) \<and>
    list_all (\<lambda>a. 0 \<le> posted (a_id a) (transactions (sy_db s))) (accounts (sy_db s))"
proof -
  have s: "sound (sy_db s)" using reachable_ok [OF assms] by (simp add: sys_ok_def)
  then show ?thesis
    by (auto simp: sound_def core_ok_def accounts_ok_def transactions_ok_def balanced_def list_all_iff)
qed

text \<open>
  C6: Serialisation: every step of the interleaved system is one step of the abstract ledger on the tables
  committed at that moment, either exactly one posting under its overdraft guard or no change of any
  row or balance but for new empty accounts. Units of work that overlap in time therefore take effect
  one after the other, in the order of their commits, and no update is lost.
\<close>

theorem concurrent_steps_post:
  assumes "sys_step\<^sup>*\<^sup>* (start_system T) s" "sound T" "sys_step s s'"
  shows "ledger_step (sy_db s) (sy_db s')"
  using sys_step_ok [OF assms(3) reachable_ok [OF assms(1,2)]] by blast

text \<open>
  C7: An accepted answer is never lost: when a call has answered that its transaction was accepted, the
  row of exactly that transaction is in the committed ledger, whatever happened in the other sessions since.
\<close>

theorem accepted_answer_committed:
  assumes "sys_step\<^sup>*\<^sup>* (start_system T) s" "sound T"
    and "se_program (sy_sessions s i) = Return (Inr resp)" "\<not> ptp_Duplicate resp"
  shows "row_of_transaction (ptp_Transaction resp) \<in> set (transactions (sy_db s))"
proof -
  from goes_onD [OF reachable_ok [OF assms(1,2)], of i] assms(3,4)
  have "stands (sy_db s) (se_tx (sy_sessions s i)) (Posted (ptp_Transaction resp))" by auto
  then show ?thesis by (cases "se_tx (sy_sessions s i)") auto
qed

section \<open>No deadlock\<close>

definition waiting :: "nat \<Rightarrow> system \<Rightarrow> bool" where
  "waiting i s \<longleftrightarrow> (\<exists>q k ov. se_program (sy_sessions s i) = Exec True q k \<and> se_tx (sy_sessions s i) = OpenTx ov \<and>
     (\<exists>ov' \<in> others_of i s. waits q (seen (sy_db s) ov) ov'))"

lemma not_waiting_works:
  assumes ok: "sys_ok s" and busy: "\<not> answered i s" and free: "\<not> waiting i s"
  shows "\<exists>s'. works i s s'"
proof -
  let ?p = "se_program (sy_sessions s i)" and ?tx = "se_tx (sy_sessions s i)" and ?T = "sy_db s" and ?O = "others_of i s"
  obtain st known where st: "obeys ?p st known" "stands ?T ?tx st" using goes_onD [OF ok, of i] by blast
  have "\<exists>T' p' tx'. acts ?O ?T ?p ?tx T' p' tx'"
  proof (cases ?p)
    case (Return r)
    then show ?thesis using busy by (simp add: answered_def)
  next
    case (Clock k)
    then show ?thesis using acts_clock [of ?O ?T k ?tx] by auto
  next
    case (NewUUID k)
    then show ?thesis using acts_uuid [of ?O ?T k ?tx] by auto
  next
    case (Begin k)
    then have "?tx = NoTx" using st by (cases ?tx) auto
    then show ?thesis using Begin acts_begin [of ?O ?T k] by auto
  next
    case (Commit k)
    then show ?thesis
      using acts_commit [of ?O ?T k] acts_commit_broken [of ?O ?T k] acts_commit_none [of ?O ?T k] by (cases ?tx) auto
  next
    case (Rollback k)
    then show ?thesis using acts_rollback [of ?O ?T k ?tx] by auto
  next
    case (Exec b q k)
    show ?thesis
    proof (cases b)
      case True
      show ?thesis
      proof (cases ?tx)
        case (OpenTx ov)
        show ?thesis
        proof (cases "bind_text (params q) (perform q) (seen ?T ov)")
          case (Inl e)
          then show ?thesis using Exec True OpenTx acts_in_tx_refused [of q ?T ov e ?O k] by auto
        next
          case (Inr z)
          moreover have "\<forall>ov' \<in> ?O. \<not> waits q (seen ?T ov) ov'" using free Exec True OpenTx by (auto simp: waiting_def)
          ultimately show ?thesis
            using Exec True OpenTx acts_in_tx [of q ?T ov "fst z" "snd z" ?O k] by (metis prod.collapse)
        qed
      qed (use Exec True acts_in_broken [of ?O ?T q k] acts_without_tx [of ?O ?T q k] in auto)
    next
      case False
      then have "\<not> waits q ?T ov'" for ov' using st Exec by (cases q) auto
      then show ?thesis
        using Exec False acts_on_pool [of q ?T _ _ ?O k ?tx] acts_on_pool_refused [of q ?T _ ?O k ?tx]
        by (cases "bind_text (params q) (perform q) ?T") (metis prod.collapse)+
    qed
  qed
  then show ?thesis by (blast intro: works)
qed

text \<open>
  The holder of a new account version has made its last statement that can wait; the holder of a new
  ledger row can wait for such a holder only.
\<close>

lemma waits_simps:
  "waits q T ov \<Longrightarrow> (\<exists>row. q = InsertTransaction row \<and> ov_rows ov \<noteq> []) \<or> (\<exists>aid d sc. q = UpdateBalance aid d sc \<and> ov_accounts ov \<noteq> [])"
  by (cases q) (auto split: sum.splits)

lemma in_progress_busy:
  assumes "obeys (se_program (sy_sessions s j)) st known" "in_progress st"
  shows "\<not> answered j s"
proof (cases "se_program (sy_sessions s j)")
  case (Return r)
  then show ?thesis using assms by (cases r) (auto split: if_splits)
qed (simp_all add: answered_def)

lemma account_holder_works:
  assumes ok: "sys_ok s" and open_tx: "se_tx (sy_sessions s j) = OpenTx ov" and held: "ov_accounts ov \<noteq> []"
  shows "\<exists>s'. works j s s'"
proof -
  obtain st known where st: "obeys (se_program (sy_sessions s j)) st known" "stands (sy_db s) (OpenTx ov) st"
    using goes_onD [OF ok, of j] open_tx by auto
  then obtain x where x: "st = Applied x \<or> st = Recorded x" using held by (cases st) auto
  have "\<not> answered j s" using in_progress_busy [OF st(1)] x by auto
  moreover have "\<not> waiting j s"
    using st(1) x by (auto simp: waiting_def dest!: waits_simps)
  ultimately show ?thesis by (rule not_waiting_works [OF ok])
qed

lemma row_holder_works:
  assumes ok: "sys_ok s" and open_tx: "se_tx (sy_sessions s j) = OpenTx ov" and held: "ov_rows ov \<noteq> []"
  shows "\<exists>i s'. works i s s'"
proof (cases "waiting j s")
  case True
  obtain st known where st: "obeys (se_program (sy_sessions s j)) st known" "stands (sy_db s) (OpenTx ov) st"
    using goes_onD [OF ok, of j] open_tx by auto
  then have "st \<noteq> Fresh" "st \<noteq> Broken" using held by auto
  with True st(1) obtain ov' where "ov' \<in> others_of j s" "ov_accounts ov' \<noteq> []"
    by (auto simp: waiting_def dest!: waits_simps)
  then show ?thesis using account_holder_works [OF ok] unfolding others_of_def by blast
next
  case False
  obtain st known where st: "obeys (se_program (sy_sessions s j)) st known" "stands (sy_db s) (OpenTx ov) st"
    using goes_onD [OF ok, of j] open_tx by auto
  have "\<not> answered j s" using in_progress_busy [OF st(1)] st(2) by (cases st) auto
  then show ?thesis using not_waiting_works [OF ok _ False] by blast
qed

text \<open>
  The statement order of the unit of work, ledger row before balance, excludes deadlocks: as long as
  some call has no answer, some session can go on, whatever locks the sessions hold.
\<close>

lemma no_deadlock:
  assumes "sys_step\<^sup>*\<^sup>* (start_system T) s" "sound T" "\<not> answered i s"
  shows "\<exists>j s'. works j s s'"
proof -
  note ok = reachable_ok [OF assms(1,2)]
  show ?thesis
  proof (cases "waiting i s")
    case True
    then obtain ov' where ov': "ov' \<in> others_of i s" "ov_rows ov' \<noteq> [] \<or> ov_accounts ov' \<noteq> []"
      by (auto simp: waiting_def dest!: waits_simps)
    then obtain j where "se_tx (sy_sessions s j) = OpenTx ov'" by (auto simp: others_of_def)
    then show ?thesis using ov'(2) account_holder_works [OF ok] row_holder_works [OF ok] by blast
  next
    case False
    then show ?thesis using not_waiting_works [OF ok assms(3)] by blast
  qed
qed

section \<open>Every call is answered\<close>

text \<open>\<open>calls_within p n\<close>: whatever the database answers, \<open>p\<close> ends after at most \<open>n\<close> calls.\<close>

primrec calls_within :: "'a program \<Rightarrow> nat \<Rightarrow> bool" where
  "calls_within (Return r) n \<longleftrightarrow> True"
| "calls_within (Clock k) n \<longleftrightarrow> 0 < n \<and> (\<forall>t. calls_within (k t) (n - 1))"
| "calls_within (NewUUID k) n \<longleftrightarrow> 0 < n \<and> (\<forall>u. calls_within (k u) (n - 1))"
| "calls_within (Exec tx q k) n \<longleftrightarrow> 0 < n \<and> (\<forall>r. calls_within (k r) (n - 1))"
| "calls_within (Begin k) n \<longleftrightarrow> 0 < n \<and> (\<forall>e. calls_within (k e) (n - 1))"
| "calls_within (Commit k) n \<longleftrightarrow> 0 < n \<and> (\<forall>e. calls_within (k e) (n - 1))"
| "calls_within (Rollback k) n \<longleftrightarrow> 0 < n \<and> (\<forall>e. calls_within (k e) (n - 1))"

lemma calls_within_mono: "calls_within p m \<Longrightarrow> m \<le> n \<Longrightarrow> calls_within p n"
proof (induction p arbitrary: m n)
  case (Return r)
  then show ?case by simp
qed (simp, meson diff_le_mono le_trans less_le_trans rangeI)+

lemma calls_within_and_then:
  "calls_within p m \<Longrightarrow> (\<And>r. calls_within (f r) n) \<Longrightarrow> calls_within (and_then p f) (m + n)"
proof (induction p arbitrary: m)
  case (Return r)
  then show ?case by (simp add: calls_within_mono [of _ n])
qed (simp, metis (no_types, lifting) Nat.add_diff_assoc2 One_nat_def Suc_leI rangeI)+

lemma calls_of_operations:
  "calls_within (AccountRepository_GetByID_program ctx r1) 1"
  "calls_within (TransactionRepository_GetByID_program ctx r2) 1"
  "calls_within (AuditEntryRepository_Create_program ctx r3) 1"
  "calls_within (TransactionRepository_Create_program ctx r4) 2"
  "calls_within (AccountRepository_UpdateAccountBalance_program ctx r5) 2"
  by (auto simp: AccountRepository_GetByID_program_def TransactionRepository_GetByID_program_def
      AuditEntryRepository_Create_program_def TransactionRepository_Create_program_def
      AccountRepository_UpdateAccountBalance_program_def Let_def split: option.split sum.split)

lemma calls_chain:
  "calls_within p m \<Longrightarrow> (\<And>e. calls_within (f (Inl e)) n) \<Longrightarrow> (\<And>x. calls_within (f (Inr x)) n) \<Longrightarrow> k = m + n \<Longrightarrow>
   calls_within (and_then p f) k"
  using calls_within_and_then [of p m f n] sum.exhaust by metis

lemma calls_of_unit: "calls_within (process_unit_program request delta now occ owner ctx) 5"
proof -
  have "calls_within (and_then (TransactionRepository_GetByID_program ctx r2) (\<lambda>res. case res of Inl err \<Rightarrow> Return (Inl err)
      | Inr x \<Rightarrow> and_then (AccountRepository_GetByID_program ctx r1) (\<lambda>res. case res of Inl err \<Rightarrow> Return (Inl err)
        | Inr acc \<Rightarrow> and_then (AuditEntryRepository_Create_program ctx r3) (\<lambda>res. Return (f x acc res))))) 3" for r1 r2 r3 f
    by (auto intro!: calls_chain [OF calls_of_operations(2), where n = 2] calls_chain [OF calls_of_operations(1), where n = 1]
        calls_chain [OF calls_of_operations(3), where n = 0])
  moreover have "calls_within (and_then (AccountRepository_UpdateAccountBalance_program ctx r5) (\<lambda>res. case res of Inl err \<Rightarrow> Return (Inl err)
      | Inr b \<Rightarrow> and_then (AuditEntryRepository_Create_program ctx r3) (\<lambda>res. Return (f b res)))) 3" for r5 r3 f
    by (auto intro!: calls_chain [OF calls_of_operations(5), where n = 1] calls_chain [OF calls_of_operations(3), where n = 0])
  ultimately have "calls_within (process_unit_program request delta now occ owner ctx) (2 + 3)"
    unfolding process_unit_program_def
    by (intro calls_within_and_then calls_of_operations) (auto split: sum.split)
  then show ?thesis by simp
qed

lemma calls_of_transaction: "calls_within (ProcessTransaction_program ctx request) 10"
proof -
  have reject: "calls_within (rejectTransaction_program ctx request delta now owner err) 1" for delta now owner err
    using calls_within_and_then [OF calls_of_operations(3), of "\<lambda>res. Return (case res of Inl e \<Rightarrow> Inl e | Inr _ \<Rightarrow> Inl err)" 0]
    by (simp add: rejectTransaction_program_def)
  have tx: "calls_within (RunInTx_program ctx (process_unit_program request delta now occ owner)) 7" for delta now occ owner
  proof -
    have "calls_within (and_then (process_unit_program request delta now occ owner c) (\<lambda>res. case res of
        Inl err \<Rightarrow> Rollback (\<lambda>rolled. case rolled of Some rollbackErr \<Rightarrow>
          Return (Inl (Wrapped2 ''could not roll back transaction'' rollbackErr ''original error'' err)) | None \<Rightarrow> Return (Inl err))
      | Inr a \<Rightarrow> Commit (\<lambda>committed. case committed of
          Some err \<Rightarrow> Return (Inl (Wrapped ''could not commit transaction'' err)) | None \<Rightarrow> Return (Inr a)))) (5 + 1)" for c
      by (intro calls_within_and_then calls_of_unit) (auto split: sum.split option.split)
    then show ?thesis
      using calls_within_mono [OF calls_of_unit, of 7] by (auto simp: RunInTx_program_def split: option.split)
  qed
  have after: "calls_within (and_then (RunInTx_program ctx (process_unit_program request delta now occ owner))
      (\<lambda>res. case res of
         Inl err \<Rightarrow> rejectTransaction_program ctx request delta now (Some owner) err
       | Inr resp \<Rightarrow> Return (Inr resp))) 8" for delta now occ owner
    by (rule calls_chain [OF tx, where n = 1]) (use reject in simp_all)
  have whole: "calls_within (and_then (AccountRepository_GetByID_program ctx r1) (\<lambda>res. case res of
      Inl err \<Rightarrow> rejectTransaction_program ctx request delta now None err
    | Inr acc \<Rightarrow> and_then (RunInTx_program ctx (process_unit_program request delta now occ (acc_OwnerID acc)))
        (\<lambda>res. case res of
            Inl err \<Rightarrow> rejectTransaction_program ctx request delta now (Some (acc_OwnerID acc)) err
          | Inr resp \<Rightarrow> Return (Inr resp)))) 9" for r1 delta now occ
    by (rule calls_chain [OF calls_of_operations(1), where n = 8]) (use after calls_within_mono [OF reject, of 8] in simp_all)
  show ?thesis
    unfolding ProcessTransaction_program_def Let_def by (simp add: whole split: option.split)
qed

lemma acts_consumes: "acts others T p tx T' p' tx' \<Longrightarrow> calls_within p n \<Longrightarrow> 0 < n \<and> calls_within p' (n - 1)"
  by (induction rule: acts.induct) auto

lemma fails_consumes: "fails others T p tx T' p' tx' \<Longrightarrow> calls_within p n \<Longrightarrow> calls_within p' n"
  by (induction rule: fails.induct) (auto intro: calls_within_mono [of _ "n - 1"])

text \<open>How many calls a session still needs at most.\<close>

definition budget :: "nat \<Rightarrow> system \<Rightarrow> nat" where
  "budget i s = (LEAST n. calls_within (se_program (sy_sessions s i)) n)"

definition bounded :: "system \<Rightarrow> bool" where
  "bounded s \<longleftrightarrow> (\<forall>i. calls_within (se_program (sy_sessions s i)) 10) \<and> finite {i. \<not> answered i s}"

lemma answered_put:
  "{j. \<not> answered j (put i T p tx s)} \<subseteq> insert i {j. \<not> answered j s}"
  by (auto simp: answered_def put_def)

lemma sys_step_bounded:
  assumes "sys_step s s'" "bounded s"
  shows "bounded s'"
proof -
  have put: "bounded (put i T p tx s)" if "calls_within p 10" for i T p tx
    using assms(2) that finite_subset [OF answered_put] by (auto simp: bounded_def put_def)
  show ?thesis
    using assms(1)
  proof cases
    case (step_works i)
    then obtain T p tx where a: "s' = put i T p tx s"
      "acts (others_of i s) (sy_db s) (se_program (sy_sessions s i)) (se_tx (sy_sessions s i)) T p tx"
      by (auto elim: works.cases)
    have "calls_within (se_program (sy_sessions s i)) 10" using assms(2) by (simp add: bounded_def)
    from acts_consumes [OF a(2) this] have "calls_within p 9" by simp
    then show ?thesis using a(1) put calls_within_mono [of p 9 10] by simp
  next
    case (step_fails i T p tx)
    have "calls_within (se_program (sy_sessions s i)) 10" using assms(2) by (simp add: bounded_def)
    from fails_consumes [OF step_fails(2) this] show ?thesis using put step_fails(1) by simp
  next
    case (step_request i r ctx request)
    then show ?thesis using put calls_of_transaction by simp
  next
    case (step_elsewhere T)
    then show ?thesis using assms(2) by (simp add: bounded_def answered_def)
  qed
qed

lemma reachable_bounded: "sys_step\<^sup>*\<^sup>* (start_system T) s \<Longrightarrow> bounded s"
proof (induction rule: rtranclp_induct)
  case base
  show ?case by (simp add: bounded_def start_system_def answered_def)
qed (rule sys_step_bounded)

lemma budget_within:
  assumes "bounded s"
  shows "calls_within (se_program (sy_sessions s i)) (budget i s)" "budget i s \<le> 10"
proof -
  have "calls_within (se_program (sy_sessions s i)) 10" using assms by (simp add: bounded_def)
  then show "calls_within (se_program (sy_sessions s i)) (budget i s)" "budget i s \<le> 10"
    unfolding budget_def by (rule LeastI, rule Least_le)
qed

lemma works_consumes:
  assumes b: "bounded s" and w: "works i s s'"
  shows "budget i s' < budget i s" "j \<noteq> i \<Longrightarrow> budget j s' = budget j s" "sys_step s s'"
proof -
  obtain T p tx where a: "s' = put i T p tx s"
    "acts (others_of i s) (sy_db s) (se_program (sy_sessions s i)) (se_tx (sy_sessions s i)) T p tx"
    using w by (auto elim: works.cases)
  show "j \<noteq> i \<Longrightarrow> budget j s' = budget j s" using a(1) by (simp add: budget_def)
  from acts_consumes [OF a(2) budget_within(1) [OF b]]
  have "0 < budget i s" "calls_within p (budget i s - 1)" by simp_all
  then show "budget i s' < budget i s"
    using Least_le [of "calls_within p" "budget i s - 1"] a(1) by (simp add: budget_def)
  show "sys_step s s'" by (rule step_works [OF w])
qed

lemma budget_answered: "answered i s \<Longrightarrow> budget i s = 0"
  by (cases "se_program (sy_sessions s i)") (simp_all add: budget_def answered_def)

text \<open>The sessions take turns: \<open>schedule is s s'\<close> is a run in which the session \<open>is ! k\<close> makes the call number \<open>k\<close>.\<close>

fun schedule :: "nat list \<Rightarrow> system \<Rightarrow> system \<Rightarrow> bool" where
  "schedule [] s s' \<longleftrightarrow> s' = s"
| "schedule (i # is) s s' \<longleftrightarrow> (\<exists>u. works i s u \<and> schedule is u s')"

lemma schedule_consumes:
  "schedule is s s' \<Longrightarrow> bounded s \<Longrightarrow> count_list is j + budget j s' \<le> budget j s \<and> sys_step\<^sup>*\<^sup>* s s'"
proof (induction "is" arbitrary: s)
  case (Cons i "is")
  then obtain u where u: "works i s u" "schedule is u s'" by auto
  note w = works_consumes [OF Cons.prems(2) u(1)]
  have IH: "count_list is j + budget j s' \<le> budget j u" "sys_step\<^sup>*\<^sup>* u s'"
    using Cons.IH [OF u(2) sys_step_bounded [OF w(3) Cons.prems(2)]] by simp_all
  show ?case
  proof
    show "count_list (i # is) j + budget j s' \<le> budget j s" using IH(1) w(1) w(2) [of j] by (cases "j = i") simp_all
    show "sys_step\<^sup>*\<^sup>* s s'" using IH(2) w(3) by (rule converse_rtranclp_into_rtranclp [rotated])
  qed
qed simp

text \<open>
  C8: Every call is answered. From any reachable state, however many calls are in progress and whatever
  happened before: while nothing fails and no request arrives, no session makes more than ten more calls
  to the database, in whatever order the sessions take their turns, and one that has answered makes
  none; so a run has at most ten calls per open request, and it stops only when every request has its
  answer.
\<close>

theorem every_call_answered:
  assumes "sys_step\<^sup>*\<^sup>* (start_system T) s" "sound T" "schedule is s s'"
  shows "(\<forall>i. count_list is i \<le> (if answered i s then 0 else 10)) \<and> length is \<le> 10 * card {i. \<not> answered i s} \<and>
    ((\<nexists>i s''. works i s' s'') \<longrightarrow> (\<forall>i. answered i s'))"
proof (intro conjI)
  note b = reachable_bounded [OF assms(1)]
  note step = schedule_consumes [OF assms(3) b]
  show turns: "\<forall>i. count_list is i \<le> (if answered i s then 0 else 10)"
  proof
    fix i
    show "count_list is i \<le> (if answered i s then 0 else 10)"
      using step [of i] budget_within(2) [OF b, of i] budget_answered [of i s] by auto
  qed
  have "set is \<subseteq> {i. \<not> answered i s}"
  proof
    fix i assume "i \<in> set is"
    then have "count_list is i \<noteq> 0" by (simp add: count_list_0_iff)
    then show "i \<in> {i. \<not> answered i s}" using turns [rule_format, of i] by (cases "answered i s") simp_all
  qed
  then have "length is = (\<Sum>i \<in> {i. \<not> answered i s}. count_list is i)"
    using b by (simp add: sum_count_set bounded_def)
  also have "\<dots> \<le> of_nat (card {i. \<not> answered i s}) * 10"
    by (rule sum_bounded_above) (metis (mono_tags, lifting) turns mem_Collect_eq)
  finally show "length is \<le> 10 * card {i. \<not> answered i s}" by simp
  have "\<exists>j s''. works j s' s''" if "\<not> answered i s'" for i
    using no_deadlock [OF rtranclp_trans [OF assms(1) conjunct2 [OF step]] assms(2) that] .
  then show "(\<nexists>i s''. works i s' s'') \<longrightarrow> (\<forall>i. answered i s')" by blast
qed

end
