(* ===== verification/ConcurrencyExecution.thy ===== *)
theory ConcurrencyExecution
  imports ConcurrencyProperties Sample
begin

text \<open>
  One execution of the interleaved system, call by call: a member spends 20 of 30 points while no other
  session has a transaction open. It reaches the commit and the accepted answer, so the theorems of
  \<open>ConcurrencyProperties\<close> apply to reachable states in which the ledger has moved.
\<close>

section \<open>An execution\<close>

text \<open>One session at work while no other transaction is open, executable, with a given time and UUID.\<close>

fun advance :: "gotime \<Rightarrow> string \<Rightarrow> tables \<times> 'a program \<times> session_tx \<Rightarrow> (tables \<times> 'a program \<times> session_tx) option" where
  "advance t u (T, Clock k, tx) = Some (T, k t, tx)"
| "advance t u (T, NewUUID k, tx) = Some (T, k u, tx)"
| "advance t u (T, Begin k, NoTx) = Some (T, k None, OpenTx empty_overlay)"
| "advance t u (T, Exec True q k, OpenTx ov) =
     (case bind_text (params q) (perform q) (seen T ov) of
        Inl e \<Rightarrow> Some (T, k (Failed e), BrokenTx)
      | Inr (r, U) \<Rightarrow> Some (T\<lparr>audit_seq := audit_seq U\<rparr>, k r, OpenTx (written (seen T ov) U ov)))"
| "advance t u (T, Exec False q k, tx) =
     (case bind_text (params q) (perform q) T of
        Inl e \<Rightarrow> Some (T, k (Failed e), tx)
      | Inr (r, U) \<Rightarrow> Some (U, k r, tx))"
| "advance t u (T, Commit k, OpenTx ov) = Some (seen T ov, k None, NoTx)"
| "advance t u (T, Rollback k, tx) = Some (T, k None, NoTx)"
| "advance t u (T, p, tx) = None"

primrec alone :: "nat \<Rightarrow> gotime \<Rightarrow> string \<Rightarrow> tables \<times> 'a program \<times> session_tx \<Rightarrow> (tables \<times> 'a program \<times> session_tx) option" where
  "alone 0 t u x = Some x"
| "alone (Suc n) t u x = (case advance t u x of None \<Rightarrow> None | Some y \<Rightarrow> alone n t u y)"

lemma advance_acts: "advance t u (T, p, tx) = Some (T', p', tx') \<Longrightarrow> acts {} T p tx T' p' tx'"
  by (cases "(t, u, T, p, tx)" rule: advance.cases)
     (auto split: sum.splits prod.splits intro: acts.intros acts_in_tx [where others = "{}"] acts_on_pool [where others = "{}"])

lemma alone_works:
  "alone n t u (T, p, tx) = Some (T', p', tx') \<Longrightarrow> others_of i s = {} \<Longrightarrow>
   schedule (replicate n i) (put i T p tx s) (put i T' p' tx' s)"
proof (induction n arbitrary: T p tx)
  case (Suc n)
  then obtain T1 p1 tx1 where a: "advance t u (T, p, tx) = Some (T1, p1, tx1)" "alone n t u (T1, p1, tx1) = Some (T', p', tx')"
    by (auto split: option.splits)
  have "works i (put i T p tx s) (put i T1 p1 tx1 (put i T p tx s))"
    using advance_acts [OF a(1)] Suc.prems(2) by (intro works) simp
  moreover have "put i T1 p1 tx1 (put i T p tx s) = put i T1 p1 tx1 s" by (simp add: put_def)
  ultimately show ?case using Suc.IH [OF a(2) Suc.prems(2)] by auto
qed simp

text \<open>The sample database with the audit row of its posting, and a spend.\<close>

definition audited_tables :: tables where
  "audited_tables = sample_tables\<lparr>audit_entries :=
     [\<lparr>e_id = 1, e_transaction_ref = Some ''r0'', e_account_id = Some ''acc'', e_owner_id = Some ''ann'',
       e_kind = Some ''earn'', e_points = Some 30, e_outcome = OutcomeAccepted, e_reason = ''ok'',
       e_user_id = ''ann'', e_created_at = ''2024-01-02T00:00:00Z''\<rparr>], audit_seq := 2\<rparr>"

definition spend_request :: ProcessTransactionRequest where
  "spend_request = \<lparr>ptr_UserID = ''ann'', ptr_Ref = ''s1'', ptr_AccountID = ''acc'', ptr_Kind = KindSpend,
     ptr_Points = 20, ptr_OccurredAt = 0\<rparr>"

definition spend_time :: gotime where "spend_time = 63871234567 * second"

definition spend_row :: Transaction where
  "spend_row = \<lparr>tr_ID = ''u1'', tr_Ref = ''s1'', tr_AccountID = ''acc'', tr_OwnerID = ''ann'', tr_Kind = KindSpend,
     tr_Points = -20, tr_OccurredAt = spend_time, tr_RecordedAt = spend_time, tr_CreatedBy = ''ann''\<rparr>"

lemma advance_and_then:
  "advance t u (T, p, tx) = Some (T', p', tx') \<Longrightarrow> advance t u (T, and_then p f, tx) = Some (T', and_then p' f, tx')"
  by (cases "(t, u, T, p, tx)" rule: advance.cases) (auto split: sum.splits prod.splits)

lemma member_scopes:
  "scope_arg member_ctx PermAccountReadAll v = Some v" "scope_arg (member_ctx\<lparr>ctx_Tx := b\<rparr>) PermAccountWriteAll v = Some v"
proof -
  have "\<not> IsGranted member_ctx PermAccountReadAll" by code_simp
  then show "scope_arg member_ctx PermAccountReadAll v = Some v" by (simp add: scope_arg_def)
  have "\<not> IsGranted member_ctx PermAccountWriteAll" by code_simp
  then show "scope_arg (member_ctx\<lparr>ctx_Tx := b\<rparr>) PermAccountWriteAll v = Some v" by (simp add: scope_arg_def)
qed

lemma spend_request_simps:
  "ProcessTransactionRequest_Validate spend_request = None"
  "signedDelta KindSpend (ptr_Points spend_request) = -20"
  "IsZero (ptr_OccurredAt spend_request)"
  "ptr_AccountID spend_request = ''acc''" "ptr_UserID spend_request = ''ann''"
  "ptr_Ref spend_request = ''s1''" "ptr_Kind spend_request = KindSpend"
  by code_simp+


abbreviation spends where
  "spends n x y \<equiv> alone n spend_time ''u1'' x = Some y"

lemma alone_trans: "alone m t u x = Some y \<Longrightarrow> alone n t u y = Some z \<Longrightarrow> alone (m + n) t u x = Some z"
  by (induction m arbitrary: x) (auto split: option.splits)

lemma spend_account:
  "\<exists>account. acc_OwnerID account = ''ann'' \<and>
     spends 1 (audited_tables, and_then (AccountRepository_GetByID_program member_ctx
         \<lparr>gar_AccountID = ''acc'', gar_UserID = ''ann''\<rparr>) f, NoTx)
       (audited_tables, f (Inr account), NoTx)"
proof -
  have v: "GetAccountByIDRequest_Validate \<lparr>gar_AccountID = ''acc'', gar_UserID = ''ann''\<rparr> = None"
    by (simp add: valid_simps)
  have "case scanAccount (account_in (case bind_text (params (SelectAccount ''acc'' (Some ''ann'')))
      (perform (SelectAccount ''acc'' (Some ''ann''))) audited_tables of Inl e \<Rightarrow> Failed e | Inr (r, U) \<Rightarrow> r)) of
      Inr account \<Rightarrow> acc_OwnerID account = ''ann'' | Inl e \<Rightarrow> False" by code_simp
  moreover have "case bind_text (params (SelectAccount ''acc'' (Some ''ann'')))
      (perform (SelectAccount ''acc'' (Some ''ann''))) audited_tables of Inl e \<Rightarrow> False | Inr (r, U) \<Rightarrow> U = audited_tables" by code_simp
  ultimately show ?thesis
    by (auto simp: AccountRepository_GetByID_program_def member_scopes v split: sum.splits prod.splits)
qed


definition effect :: "tables \<Rightarrow> overlay \<Rightarrow> sql \<Rightarrow> (reply \<times> int \<times> overlay) option" where
  "effect T ov q = (case bind_text (params q) (perform q) (seen T ov) of
     Inl e \<Rightarrow> None | Inr (r, U) \<Rightarrow> Some (r, audit_seq U, written (seen T ov) U ov))"

lemma advance_effect:
  "effect T ov q = Some (r, n, ov') \<Longrightarrow> advance t u (T, Exec True q k, OpenTx ov) = Some (T\<lparr>audit_seq := n\<rparr>, k r, OpenTx ov')"
  by (auto simp: effect_def split: sum.splits prod.splits)

definition spend_inserted :: overlay where
  "spend_inserted = empty_overlay\<lparr>ov_rows := [row_of_transaction spend_row]\<rparr>"

definition spend_applied :: overlay where
  "spend_applied = spend_inserted\<lparr>ov_accounts :=
     map (\<lambda>a. a\<lparr>a_balance := 10\<rparr>) (accounts audited_tables)\<rparr>"

definition spend_audit_row :: audit_row where
  "spend_audit_row = \<lparr>e_id = 0, e_transaction_ref = Some ''s1'',
                e_account_id = Some ''acc'', e_owner_id = Some ''ann'',
                e_kind = Some KindSpend, e_points = Some (-20), e_outcome = OutcomeAccepted,
                e_reason = ''ok'', e_user_id = ''ann'',
                e_created_at = FormatTime spend_time\<rparr>"

definition spend_recorded :: overlay where
  "spend_recorded = spend_applied\<lparr>ov_audit := [spend_audit_row\<lparr>e_id := 2\<rparr>]\<rparr>"

lemma spend_effects:
  "effect audited_tables empty_overlay (InsertTransaction (row_of_transaction spend_row)) = Some (Affected 1, 2, spend_inserted)"
  "effect audited_tables spend_inserted (UpdateBalance ''acc'' (-20) (Some ''ann'')) = Some (Affected 1, 2, spend_applied)"
  "effect audited_tables spend_applied (SelectBalance ''acc'' None) = Some (BalanceColumn (Some 10), 2, spend_applied)"
  "effect audited_tables spend_applied (InsertAudit spend_audit_row) = Some (Identity 2, 3, spend_recorded)"
  "audit_seq audited_tables = 2"
  by code_simp+

lemma spend_insert:
  "spends 2 (audited_tables, and_then (TransactionRepository_Create_program (member_ctx\<lparr>ctx_Tx := True\<rparr>)
       \<lparr>ctr_Transaction = spend_row\<lparr>tr_ID := []\<rparr>\<rparr>) f, OpenTx empty_overlay)
     (audited_tables, f (Inr spend_row), OpenTx spend_inserted)"
proof -
  have v: "CreateTransactionRequest_Validate \<lparr>ctr_Transaction = spend_row\<lparr>tr_ID := []\<rparr>\<rparr> = None"
     by (simp add: valid_simps spend_row_def)
  have r: "spend_row\<lparr>tr_ID := ''u1''\<rparr> = spend_row" by (simp add: spend_row_def)
  have s: "audited_tables\<lparr>audit_seq := 2\<rparr> = audited_tables" by code_simp
  show ?thesis
    by (simp add: TransactionRepository_Create_program_def v r s eval_nat_numeral advance_effect [OF spend_effects(1)] del: advance.simps(4))
qed

lemma spend_update:
  "spends 2 (audited_tables, and_then (AccountRepository_UpdateAccountBalance_program (member_ctx\<lparr>ctx_Tx := True\<rparr>)
       \<lparr>ubr_AccountID = ''acc'', ubr_Delta = -20, ubr_UserID = ''ann''\<rparr>) f, OpenTx spend_inserted)
     (audited_tables, f (Inr 10), OpenTx spend_applied)"
proof -
  have v: "UpdateAccountBalanceRequest_Validate \<lparr>ubr_AccountID = ''acc'', ubr_Delta = -20, ubr_UserID = ''ann''\<rparr> = None"
     by (simp add: valid_simps)
  have s: "audited_tables\<lparr>audit_seq := 2\<rparr> = audited_tables" by code_simp
  show ?thesis
    by (simp add: AccountRepository_UpdateAccountBalance_program_def v s member_scopes Let_def eval_nat_numeral
        advance_effect [OF spend_effects(2)] advance_effect [OF spend_effects(3)] del: advance.simps(4))
qed


lemma spend_record:
  "spends 1 (audited_tables, and_then (AuditEntryRepository_Create_program (member_ctx\<lparr>ctx_Tx := True\<rparr>)
       (buildAuditEntry spend_request (-20) (Some ''ann'') OutcomeAccepted ''ok'' spend_time)) f, OpenTx spend_applied)
     (audited_tables\<lparr>audit_seq := 3\<rparr>, f (Inr (cae_AuditEntry (buildAuditEntry spend_request (-20)
       (Some ''ann'') OutcomeAccepted ''ok'' spend_time)\<lparr>aud_ID := 2\<rparr>)), OpenTx spend_recorded)"
proof -
  let ?r = "buildAuditEntry spend_request (-20) (Some ''ann'') OutcomeAccepted ''ok'' spend_time"
  have v: "CreateAuditEntryRequest_Validate ?r = None"
    by (simp add: valid_simps buildAuditEntry_def spend_request_simps)
  have "AuditEntryRepository_Create_program (member_ctx\<lparr>ctx_Tx := True\<rparr>) ?r =
      Exec True (InsertAudit spend_audit_row) (\<lambda>result. Return (case identity_in result of
               Inl err \<Rightarrow> Inl (Wrapped ''could not insert audit entry'' err)
             | Inr new \<Rightarrow> Inr (cae_AuditEntry ?r\<lparr>aud_ID := new\<rparr>)))"
    unfolding AuditEntryRepository_Create_program_def v
    by (auto simp: buildAuditEntry_def spend_request_simps spend_audit_row_def split: sum.split)
  then show ?thesis
    by (simp add: advance_effect [OF spend_effects(4)] del: advance.simps(4))
qed


definition spend_answer :: ProcessTransactionResponse where
  "spend_answer = \<lparr>ptp_Transaction = spend_row, ptp_Balance = 10, ptp_Duplicate = False\<rparr>"

lemma spend_unit:
  "spends 5 (audited_tables, and_then (process_unit_program spend_request (-20) spend_time spend_time ''ann''
       (member_ctx\<lparr>ctx_Tx := True\<rparr>)) f, OpenTx empty_overlay)
     (audited_tables\<lparr>audit_seq := 3\<rparr>, f (Inr spend_answer), OpenTx spend_recorded)"
proof -
  let ?ctx = "member_ctx\<lparr>ctx_Tx := True\<rparr>"
  define record_it where "record_it = (\<lambda>updated. and_then (AuditEntryRepository_Create_program ?ctx
      (buildAuditEntry spend_request (-20) (Some ''ann'') OutcomeAccepted ''ok'' spend_time))
    (\<lambda>res. and_then (Return (case res of Inl err \<Rightarrow> Inl err | Inr _ \<Rightarrow>
       Inr \<lparr>ptp_Transaction = spend_row, ptp_Balance = updated, ptp_Duplicate = False\<rparr>)) f))"
  define apply_it where "apply_it = and_then (AccountRepository_UpdateAccountBalance_program ?ctx
      \<lparr>ubr_AccountID = ''acc'', ubr_Delta = -20, ubr_UserID = ''ann''\<rparr>)
    (\<lambda>res. case res of Inl err \<Rightarrow> and_then (Return (Inl err)) f | Inr updated \<Rightarrow> record_it updated)"
  have "spend_row\<lparr>tr_ID := []\<rparr> = \<lparr>tr_ID = [], tr_Ref = ''s1'', tr_AccountID = ''acc'', tr_OwnerID = ''ann'',
      tr_Kind = KindSpend, tr_Points = -20, tr_OccurredAt = spend_time, tr_RecordedAt = spend_time, tr_CreatedBy = ''ann''\<rparr>"
    by (simp add: spend_row_def)
  then have "\<exists>g. and_then (process_unit_program spend_request (-20) spend_time spend_time ''ann'' ?ctx) f =
      and_then (TransactionRepository_Create_program ?ctx \<lparr>ctr_Transaction = spend_row\<lparr>tr_ID := []\<rparr>\<rparr>) g \<and> g (Inr spend_row) = apply_it"
    unfolding process_unit_program_def and_then_assoc apply_it_def record_it_def
    by (intro exI conjI) (rule arg_cong2 [where f = and_then, OF _ refl], simp add: spend_request_simps, auto simp: spend_request_simps and_then_assoc intro!: arg_cong2 [where f = and_then] split: sum.split)
  then obtain g where g: "and_then (process_unit_program spend_request (-20) spend_time spend_time ''ann'' ?ctx) f =
      and_then (TransactionRepository_Create_program ?ctx \<lparr>ctr_Transaction = spend_row\<lparr>tr_ID := []\<rparr>\<rparr>) g" "g (Inr spend_row) = apply_it" by blast
  have "spends 2 (audited_tables, apply_it, OpenTx spend_inserted) (audited_tables, record_it 10, OpenTx spend_applied)"
    unfolding apply_it_def using spend_update [of "case_sum (\<lambda>err. and_then (Return (Inl err)) f) record_it"] by simp
  moreover have "spends 1 (audited_tables, record_it 10, OpenTx spend_applied)
      (audited_tables\<lparr>audit_seq := 3\<rparr>, f (Inr spend_answer), OpenTx spend_recorded)"
    unfolding record_it_def using spend_record [of "\<lambda>res. and_then (Return (case res of Inl err \<Rightarrow> Inl err | Inr _ \<Rightarrow>
       Inr \<lparr>ptp_Transaction = spend_row, ptp_Balance = 10, ptp_Duplicate = False\<rparr>)) f"] by (auto simp: spend_answer_def)
  ultimately have "spends (2 + (2 + 1)) (audited_tables, and_then (TransactionRepository_Create_program ?ctx
      \<lparr>ctr_Transaction = spend_row\<lparr>tr_ID := []\<rparr>\<rparr>) g, OpenTx empty_overlay)
      (audited_tables\<lparr>audit_seq := 3\<rparr>, f (Inr spend_answer), OpenTx spend_recorded)"
    using spend_insert [of g] unfolding g(2) by (blast intro: alone_trans)
  then show ?thesis by (simp add: g(1))
qed

definition spent_tables :: tables where
  "spent_tables = seen (audited_tables\<lparr>audit_seq := 3\<rparr>) spend_recorded"

lemma spend_until_commit:
  "\<exists>k. k None = Return (Inr spend_answer) \<and>
     spends 8 (audited_tables, ProcessTransaction_program member_ctx spend_request, NoTx)
       (audited_tables\<lparr>audit_seq := 3\<rparr>, Commit k, OpenTx spend_recorded)"
proof -
  let ?reject = "\<lambda>owner err. rejectTransaction_program member_ctx spend_request (-20) spend_time owner err"
  let ?after = "\<lambda>owner res. case res of Inl err \<Rightarrow> ?reject (Some owner) err | Inr resp \<Rightarrow> Return (Inr resp)"
  define in_unit where "in_unit = (\<lambda>owner. and_then (RunInTx_program member_ctx
    (process_unit_program spend_request (-20) spend_time spend_time owner)) (?after owner))"
  define read_first where "read_first = (\<lambda>res. case res of Inl err \<Rightarrow> ?reject None err
      | Inr (account :: Account) \<Rightarrow> in_unit (acc_OwnerID account))"
  have clock: "spends 1 (audited_tables, ProcessTransaction_program member_ctx spend_request, NoTx)
     (audited_tables, and_then (AccountRepository_GetByID_program member_ctx \<lparr>gar_AccountID = ''acc'', gar_UserID = ''ann''\<rparr>) read_first, NoTx)"
    by (simp add: ProcessTransaction_program_def spend_request_simps Let_def read_first_def in_unit_def cong del: sum.case_cong_weak)
  have read: "spends 1 (audited_tables, and_then (AccountRepository_GetByID_program member_ctx \<lparr>gar_AccountID = ''acc'', gar_UserID = ''ann''\<rparr>) read_first, NoTx)
      (audited_tables, in_unit ''ann'', NoTx)"
    using spend_account [of read_first] by (auto simp: read_first_def)
  define finish where "finish = (\<lambda>res. and_then (case res of
      Inl err \<Rightarrow> Rollback (\<lambda>rolled. case rolled of
        Some rollbackErr \<Rightarrow> Return (Inl (Wrapped2 ''could not roll back transaction'' rollbackErr ''original error'' err))
      | None \<Rightarrow> Return (Inl err))
    | Inr a \<Rightarrow> Commit (\<lambda>committed. case committed of
        Some err \<Rightarrow> Return (Inl (Wrapped ''could not commit transaction'' err))
      | None \<Rightarrow> Return (Inr a))) (?after ''ann''))"
  have finish: "in_unit ''ann'' = Begin (\<lambda>begun. case begun of
        Some err \<Rightarrow> ?after ''ann'' (Inl (Wrapped ''could not begin transaction'' err))
      | None \<Rightarrow> and_then (process_unit_program spend_request (-20) spend_time spend_time ''ann'' (member_ctx\<lparr>ctx_Tx := True\<rparr>)) finish)"
    "\<exists>k. k None = Return (Inr spend_answer) \<and> finish (Inr spend_answer) = Commit k"
    by (auto simp: in_unit_def RunInTx_program_def finish_def and_then_assoc split: option.split)
  have "spends 1 (audited_tables, in_unit ''ann'', NoTx) (audited_tables, and_then (process_unit_program
      spend_request (-20) spend_time spend_time ''ann'' (member_ctx\<lparr>ctx_Tx := True\<rparr>)) finish, OpenTx empty_overlay)"
    by (simp add: finish(1))
  then have "spends (1 + (1 + (1 + 5))) (audited_tables, ProcessTransaction_program member_ctx spend_request, NoTx)
     (audited_tables\<lparr>audit_seq := 3\<rparr>, finish (Inr spend_answer), OpenTx spend_recorded)"
    using clock read spend_unit [of finish] by (blast intro: alone_trans)
  then show ?thesis using finish(2) by auto
qed

lemma spend_runs:
  "spends 9 (audited_tables, ProcessTransaction_program member_ctx spend_request, NoTx)
     (spent_tables, Return (Inr spend_answer), NoTx)"
proof -
  obtain k where k: "k None = Return (Inr spend_answer)"
    "spends 8 (audited_tables, ProcessTransaction_program member_ctx spend_request, NoTx)
       (audited_tables\<lparr>audit_seq := 3\<rparr>, Commit k, OpenTx spend_recorded)"
    using spend_until_commit by blast
  have "spends 1 (audited_tables\<lparr>audit_seq := 3\<rparr>, Commit k, OpenTx spend_recorded) (spent_tables, Return (Inr spend_answer), NoTx)"
    by (simp add: k(1) spent_tables_def)
  from alone_trans [OF k(2) this] show ?thesis by simp
qed

section \<open>Witnesses\<close>

lemma audited_sound: "sound audited_tables"
  by (simp add: sound_def core_ok_def users_ok_def accounts_ok_def transactions_ok_def balanced_def posted_def
      audited_def accepted_entry_def audited_tables_def sample_tables_def empty_tables_def valid_role_def valid_kind_def)

lemma schedule_steps: "schedule is s s' \<Longrightarrow> sys_step\<^sup>*\<^sup>* s s'"
  by (induction "is" arbitrary: s) (auto intro: converse_rtranclp_into_rtranclp step_works)

definition spend_called :: system where
  "spend_called = put 0 audited_tables (ProcessTransaction_program member_ctx spend_request) NoTx (start_system audited_tables)"

definition spend_done :: system where
  "spend_done = put 0 spent_tables (Return (Inr spend_answer)) NoTx (start_system audited_tables)"

lemma start_alone: "others_of i (start_system T) = {}"
  by (auto simp: others_of_def start_system_def)

lemma spend_called_reachable: "sys_step\<^sup>*\<^sup>* (start_system audited_tables) spend_called"
  using step_request [of "start_system audited_tables" 0 _ member_ctx spend_request]
  by (auto simp: spend_called_def start_system_def)

lemma spend_steps:
  "spends n (audited_tables, ProcessTransaction_program member_ctx spend_request, NoTx) (T, p, tx) \<Longrightarrow>
   schedule (replicate n 0) spend_called (put 0 T p tx (start_system audited_tables))"
  unfolding spend_called_def by (rule alone_works [OF _ start_alone])

lemma spend_reaches:
  "spends n (audited_tables, ProcessTransaction_program member_ctx spend_request, NoTx) (T, p, tx) \<Longrightarrow>
   sys_step\<^sup>*\<^sup>* (start_system audited_tables) (put 0 T p tx (start_system audited_tables))"
  by (rule rtranclp_trans [OF spend_called_reachable schedule_steps [OF spend_steps]])

lemma spend_done_reachable: "sys_step\<^sup>*\<^sup>* (start_system audited_tables) spend_done"
  using spend_reaches [OF spend_runs] by (simp add: spend_done_def)

lemma spent_rows:
  "map a_balance (accounts spent_tables) = [10]" "map t_ref (transactions spent_tables) = [''r0'', ''s1'']"
  "map a_balance (accounts audited_tables) = [30]"
  by code_simp+

lemma process_program_typed_witness:
  "\<not> ctx_Tx member_ctx \<and> obeys (ProcessTransaction_program member_ctx spend_request) Idle {}"
  using process_program_typed [of member_ctx spend_request] by simp

lemma concurrent_ledger_sound_witness:
  "sys_step\<^sup>*\<^sup>* (start_system audited_tables) spend_done \<and> map a_balance (accounts (sy_db spend_done)) = [10] \<and>
   sound (sy_db spend_done)"
  using concurrent_ledger_sound [OF spend_done_reachable audited_sound] spend_done_reachable spent_rows
  by (simp add: spend_done_def)

lemma concurrent_steps_post_witness:
  "\<exists>s s'. sys_step\<^sup>*\<^sup>* (start_system audited_tables) s \<and> sys_step s s' \<and> ledger_step (sy_db s) (sy_db s') \<and>
     map a_balance (accounts (sy_db s)) = [30] \<and> map a_balance (accounts (sy_db s')) = [10]"
proof -
  obtain k where k: "spends 8 (audited_tables, ProcessTransaction_program member_ctx spend_request, NoTx)
       (audited_tables\<lparr>audit_seq := 3\<rparr>, Commit k, OpenTx spend_recorded)"
    using spend_until_commit by blast
  let ?s = "put 0 (audited_tables\<lparr>audit_seq := 3\<rparr>) (Commit k) (OpenTx spend_recorded) (start_system audited_tables)"
  note reach = spend_reaches [OF k]
  have "acts (others_of 0 ?s) (sy_db ?s) (se_program (sy_sessions ?s 0)) (se_tx (sy_sessions ?s 0)) spent_tables (k None) NoTx"
    using acts_commit by (simp add: spent_tables_def)
  then have "sys_step ?s (put 0 spent_tables (k None) NoTx ?s)" by (rule step_works [OF works.works])
  from concurrent_steps_post [OF reach audited_sound this] reach this spent_rows show ?thesis
    by (intro exI [of _ ?s] exI [of _ "put 0 spent_tables (k None) NoTx ?s"]) simp
qed

lemma accepted_answer_committed_witness:
  "sys_step\<^sup>*\<^sup>* (start_system audited_tables) spend_done \<and> se_program (sy_sessions spend_done 0) = Return (Inr spend_answer) \<and>
   row_of_transaction spend_row \<in> set (transactions (sy_db spend_done))"
  using accepted_answer_committed [OF spend_done_reachable audited_sound, of 0 spend_answer] spend_done_reachable
  by (simp add: spend_done_def spend_answer_def)

lemma returned_rests: "\<not> acts others T (Return r) tx T' p' tx'"
  by (auto elim: acts.cases)

lemma spend_done_ends: "\<nexists>i s. works i spend_done s"
proof -
  have "\<exists>r. se_program (sy_sessions spend_done i) = Return r" for i
    by (cases "i = 0") (simp_all add: spend_done_def start_system_def)
  then show ?thesis using returned_rests by (metis works.cases)
qed

lemma every_call_answered_witness:
  "schedule (replicate 9 0) spend_called spend_done \<and> count_list (replicate 9 0) (0::nat) \<le> (10::nat) \<and>
   9 \<le> 10 * card {i. \<not> answered i spend_called} \<and> (\<forall>i. answered i spend_done)"
proof -
  have run: "schedule (replicate 9 0) spend_called spend_done" using spend_steps [OF spend_runs] by (simp add: spend_done_def)
  note out = every_call_answered [OF spend_called_reachable audited_sound run]
  have "count_list (replicate 9 0) (0::nat) \<le> (if answered 0 spend_called then 0 else 10)" using out by blast
  then have "count_list (replicate 9 0) (0::nat) \<le> (10::nat)" by (simp split: if_splits)
  moreover have "9 \<le> 10 * card {i. \<not> answered i spend_called}" using out by simp
  ultimately show ?thesis using run out spend_done_ends by blast
qed

end
