(* ===== verification/Spec2Isabelle.thy ===== *)
theory Spec2Isabelle
  imports JsonRpc IngestService AccountServices WalletRPC IdentityProperties Isolation RequestLimits Startup Paging
    ConcurrencyExecution
begin

text \<open>
  A verification development of the loyalty points server: a JSON-RPC service in Go that keeps
  accounts of points, an append-only ledger of transactions and an audit trail in Postgres, with
  registration, login and role based access; a command line client that ingests a CSV file of
  transactions; and the commands that migrate, bootstrap and start it.

  \<^bold>\<open>How the program works.\<close> A request enters through the logger, the rate limiter of its address, the
  authorization middleware and the rate limiter of its user, and is dispatched to an adaptor, which
  takes the caller from the verified token, calls a service and turns errors into JSON-RPC errors.
  Services validate, and run their repository calls in a unit of work. Repositories execute one SQL
  statement each, scoped to the owner unless the permissions of the caller reach across owners.

  \<^bold>\<open>The theories and the code they model.\<close>

  \<^item> \<open>Prelude\<close>: lemmas on 64-bit integers, \<open>find\<close> and keyed updates of lists.
  \<^item> \<open>Errs\<close> (\<open>pkg/errs\<close>): error values, \<open>errors.Is\<close> and \<open>errors.As\<close>. \<open>JsonRpc\<close> (\<open>pkg/jsonrpc\<close>): the
    mapping of an error to code, message and data.
  \<^item> \<open>GoText\<close>, \<open>Times\<close>, \<open>ZonedTime\<close>, \<open>StableSort\<close>, \<open>Csv\<close>: what the program uses of Go's \<open>strings\<close>,
    \<open>strconv\<close>, \<open>time\<close>, \<open>sort\<close> and \<open>encoding/csv\<close>, and \<open>pkg/time\<close>. \<open>Cursor\<close>: the page token of the
    transaction list.
  \<^item> \<open>Authorization\<close> (\<open>pkg/authorization\<close>, \<open>pkg/scope\<close>): roles, permissions, the policy, the claim in
    the context.
  \<^item> \<open>Database\<close> (\<open>pkg/postgres/migrations\<close>, \<open>pkg/sql\<close>, \<open>pkg/postgres/tx.go\<close>): the tables with their
    constraints as a record of row lists, one statement on the pool or in the transaction, \<open>RunInTx\<close>.
  \<^item> \<open>AccountRepository\<close>, \<open>TransactionRepository\<close>, \<open>AuditRepository\<close>, \<open>UserRepository\<close>
    (\<open>internal/pkg/*/...RepositoryImpl.go\<close>): every operation with its statement and its validation.
  \<^item> \<open>WalletService\<close> (\<open>walletServiceImpl.go\<close>): one transaction, earning, spending, the batch.
    \<open>WalletRPC\<close>, \<open>AccountServices\<close>: the services and adaptors over them.
  \<^item> \<open>Programs\<close>: \<open>ProcessTransaction\<close> and the repository operations and unit of work under it once more,
    as programs of single database calls. \<open>Interleaving\<close>: many of these programs on one database.
  \<^item> \<open>Authentication\<close>, \<open>Registration\<close>: tokens, login, logout, registration.
  \<^item> \<open>Rpc\<close>, \<open>Middleware\<close>, \<open>Api\<close> (\<open>cmd/app/setupRPCServer.go\<close>, \<open>pkg/rateLimiting\<close>,
    \<open>pkg/authorization/authorizationMiddleware.go\<close>, \<open>pkg/logger\<close>): the callable methods, the chain of
    middlewares, and a history of requests.
  \<^item> \<open>Ingest\<close> (\<open>cmd/cli\<close>): the batch client from the bytes of the file to the printed summary.
  \<^item> \<open>Migrate\<close>, \<open>Bootstrap\<close>, \<open>Startup\<close> (\<open>pkg/postgres/migrate.go\<close>, \<open>cmd/bootstrap\<close>, \<open>cmd/app\<close>): the
    schema migrations, the operator's reset, and the start with its configuration check.

  \<^bold>\<open>State and failures.\<close> The state of the server is a \<open>world\<close>: the committed tables, the open
  transaction, and counters into the environment, which provides the clock, the random identifiers
  and the failures of the driver. A call may fail before the server acted or after it did, also at the
  commit. A theorem that does not ask for \<open>fault_free\<close> holds for every such failure. Errors are
  values of \<open>go_error\<close>; an operation returns an error or a result with the next world.

  \<^bold>\<open>Concurrency.\<close> The operations above run alone. \<open>Interleaving\<close> is a step relation on any number of
  sessions, each with the rest of its program and the uncommitted writes of its transaction, over the
  committed tables; a session makes one call of \<open>ProcessTransaction\<close> after the other, as earning,
  spending and the loop of a batch do. Its rules are what Postgres documents for \<open>READ COMMITTED\<close>, the level \<open>RunInTx\<close>
  asks for: a statement reads what is committed when it runs, and waits for an open transaction that
  wrote the same row or the same unique key. Calls may be lost and processes may die at every step,
  and single statements of the other services come in between.

  \<^bold>\<open>What the groups of lemmas show.\<close>

  \<^item> \<open>WalletLedger\<close>, \<open>WalletProperties\<close>, \<open>WalletVerdict\<close>: one transaction refines one posting of an
    abstract ledger or nothing; balances remain sums of postings and never negative; a ref moves the
    ledger once; the verdict of every request on a working driver.
  \<^item> \<open>Programs\<close>, \<open>Concurrency\<close>, \<open>ConcurrencySafety\<close>, \<open>ConcurrencyProperties\<close>: the programs are the
    operations; they follow a protocol (row, balance, audit row, commit); under it every step of every
    interleaving is one posting or none, so the ledger stays sound and no update is lost; an accepted
    answer is committed; nothing deadlocks and every request is answered within ten database calls of its
    own. \<open>ConcurrencyExecution\<close>: an
    execution to the accepted answer.
  \<^item> \<open>BatchProperties\<close>: the report is complete, the ledger stays sound, the order of the array does not
    matter when the times differ, a batch may be sent again.
  \<^item> \<open>RegistrationVerdict\<close>, \<open>IdentityProperties\<close>: registration is all or nothing and is decided by the
    email.
  \<^item> \<open>ApiProperties\<close>: every history of requests keeps the schema; nothing is reached without a public
    method or a live token with the permission; a logout ends every session, of a login or of a
    registration. \<open>Isolation\<close>: a member
    neither changes nor reads the rows of another user, whatever the reply. \<open>RequestLimits\<close>: every call pays one token,
    an exhausted address is shed, a large body is refused.
  \<^item> \<open>IngestProperties\<close>: on a complete file parsing ends with what the records of the file are one by
    one, malformed ones included; a reader that fails and a header of fewer than five fields are the
    exceptions; the order sent is unique; what a timestamp loses; which line the summary names for a ref
    that occurs twice. \<open>IngestService\<close>: from the file to the ledger the order is kept and every record
    is reported once.
  \<^item> \<open>Migrate\<close>: whole files only, and convergence of repeated starts. \<open>Bootstrap\<close>, \<open>Startup\<close>: what is
    left after a reset, and that a deployment starts with its own secrets and its rate limiters.

  \<^item> \<open>Paging\<close>: following the page tokens of the transaction list visits every transaction of the scope
    exactly once, in order and in full pages, and the loop ends.

  The interfaces are locales. \<open>stable_order\<close>: a comparison for which any stable sort gives the same
  list, interpreted for the batch of the server, the rows of the client and the order of the ledger
  listing. \<open>table_relation\<close>: a relation on tables that single statements keep and that composed
  operations then keep, interpreted for the schema, the ledger and the isolation relations.
  \<open>scoped_lookup\<close>: a read of one row by key and owner, interpreted for the repositories. \<open>codec\<close>: an
  encoder with a partial decoder, interpreted for Base64 and the stored timestamps.

  \<^bold>\<open>Parameters.\<close> Code outside the repository is an argument: \<open>crypto\<close> (bcrypt, JOSE, the codec of the
  claim), with \<open>crypto_ok\<close> as what the code relies on; \<open>library\<close> (the JSON envelope, the dispatch of
  gorilla/rpc, the token buckets); the collation of the database; the effect of a migration statement;
  the configuration library, the key parsers and Redis at the start; the JSON codec, the network and
  the column alignment of \<open>text/tabwriter\<close> in the client. The texts of third-party parse errors are
  shortened. \<open>Migrate\<close> has a state of its own, the record of versions and whatever its statements act on;
  \<open>Bootstrap\<close> takes the migration of its connection as an argument that leaves the rows as they are, which
  holds of the one migration there is, since it only creates tables and indexes.

  \<^bold>\<open>Bounds.\<close> Points and balances are 64-bit words, and the overflow of a balance is the error that
  Postgres reports. Go's \<open>int\<close> counters and instants are unbounded integers: the counters are bounded
  by the length of the input and the instants by what the parser accepts. The code's loops need no fuel: they
  are structural, have a measure on the unread input, or, for the record loop of \<open>ParseCSV\<close>, are a
  partial function whose termination on complete files is a theorem. The caller's loop over the pages
  has a number of requests, and its theorem says that one per page is enough.

  \<^bold>\<open>Not modelled.\<close> The interleaving of the wallet with more than single statements of the other
  services, and with the balance correction of an admin, which has no ledger row; a pool that runs out
  of connections, and cancelled requests. The listener and the shutdown of the server, connection pool
  settings, log output, the flag handling of the command line, and the test doubles. Strings are bytes: \<open>TrimSpace\<close> is the ASCII one and quoting keeps bytes
  from 128 on.
\<close>

end
